(* ===== verification/Prelude.thy ===== *)
theory Prelude
  imports Main "HOL-Library.AList" "HOL-Library.Word"
begin

text \<open>
  Shared vocabulary of the development: Go's machine integers, the string functions of
  the packages strings and strconv that the program calls, Go maps and sync.Map values
  as association lists, and the result types that stand for Go's error returns.

  A Go map or sync.Map is an association list read with \<open>map_of\<close>.  Go leaves the order in
  which a range loop visits the entries unspecified; the order of the list is such an
  order, and every lemma is stated for an arbitrary list, hence for every order.
\<close>

section \<open>Errors\<close>

type_synonym goerr = string

text \<open>A value or an error, as Go's pair of results; and an error or nil.\<close>

type_synonym 'a res = "goerr + 'a"

type_synonym err = "goerr option"

text \<open>A call that may panic: the panic is a value of the result.\<close>

datatype 'a outcome = Panic | Ret 'a

section \<open>Integers\<close>

text \<open>Go's int and int64 on the 64-bit targets the program is built for: two's complement,
  arithmetic wraps, division truncates towards zero.\<close>

definition wrap64 :: "int \<Rightarrow> int" where
  "wrap64 x = (x + 9223372036854775808) mod 18446744073709551616 - 9223372036854775808"

definition in_int64 :: "int \<Rightarrow> bool" where
  "in_int64 x \<longleftrightarrow> - 9223372036854775808 \<le> x \<and> x < 9223372036854775808"

definition go_div :: "int \<Rightarrow> int \<Rightarrow> int" where
  "go_div a b = sgn a * sgn b * (\<bar>a\<bar> div \<bar>b\<bar>)"

text \<open>Conversions to unsigned types keep the low bits.\<close>

definition to_uint16 :: "int \<Rightarrow> int" where
  "to_uint16 x = x mod 65536"

definition to_uint32 :: "int \<Rightarrow> int" where
  "to_uint32 x = x mod 4294967296"

definition to_uint64 :: "int \<Rightarrow> int" where
  "to_uint64 x = x mod 18446744073709551616"

section \<open>Strings\<close>

text \<open>A Go string is its bytes.\<close>

fun has_prefix :: "string \<Rightarrow> string \<Rightarrow> bool" where
  "has_prefix s [] = True"
| "has_prefix [] (p # ps) = False"
| "has_prefix (c # s) (p # ps) = (c = p \<and> has_prefix s ps)"

definition trim_prefix :: "string \<Rightarrow> string \<Rightarrow> string" where
  "trim_prefix s p = (if has_prefix s p then drop (length p) s else s)"

fun contains :: "string \<Rightarrow> string \<Rightarrow> bool" where
  "contains [] p = (p = [])"
| "contains (c # s) p = (has_prefix (c # s) p \<or> contains s p)"

text \<open>strings.ToLower on ASCII; bytes above 127 are left alone, which is what it does to the
  keywords the program compares with.\<close>

definition lower_char :: "char \<Rightarrow> char" where
  "lower_char c = (let n = (of_char c :: nat) in
     if 65 \<le> n \<and> n \<le> 90 then char_of (n + 32) else c)"

definition to_lower :: "string \<Rightarrow> string" where
  "to_lower s = map lower_char s"

definition digit_char :: "nat \<Rightarrow> char" where
  "digit_char d = char_of (48 + d)"

fun digits_of :: "nat \<Rightarrow> string" where
  "digits_of n = (if n < 10 then [digit_char n] else digits_of (n div 10) @ [digit_char (n mod 10)])"

text \<open>strconv.Itoa.\<close>

definition itoa :: "int \<Rightarrow> string" where
  "itoa i = (if i < 0 then CHR ''-'' # digits_of (nat (- i)) else digits_of (nat i))"

text \<open>strconv.Atoi: the value and whether there is an error.  Text that is no number gives 0, a number
  out of range the nearest int.\<close>

definition is_digit :: "char \<Rightarrow> bool" where
  "is_digit c \<longleftrightarrow> 48 \<le> (of_char c :: nat) \<and> (of_char c :: nat) \<le> 57"

definition digits_value :: "string \<Rightarrow> int" where
  "digits_value s = foldl (\<lambda>n c. 10 * n + (of_char c - 48)) 0 s"

definition atoi :: "string \<Rightarrow> int \<times> bool" where
  "atoi s =
     (let neg = has_prefix s ''-'';
          t = (if neg \<or> has_prefix s ''+'' then tl s else s);
          n = (if neg then - digits_value t else digits_value t) in
      if t = [] \<or> \<not> list_all is_digit t then (0, True)
      else if n < - 9223372036854775808 then (- 9223372036854775808, True)
      else if n > 9223372036854775807 then (9223372036854775807, True)
      else (n, False))"

text \<open>strings.Split with a one-byte separator, and strings.Join.\<close>

fun split_on :: "char \<Rightarrow> string \<Rightarrow> string list" where
  "split_on c [] = [[]]"
| "split_on c (x # xs) =
     (if x = c then [] # split_on c xs
      else (case split_on c xs of [] \<Rightarrow> [[x]] | w # ws \<Rightarrow> (x # w) # ws))"

fun join_with :: "string \<Rightarrow> string list \<Rightarrow> string" where
  "join_with sep [] = []"
| "join_with sep [w] = w"
| "join_with sep (w # v # ws) = w @ sep @ join_with sep (v # ws)"

text \<open>strings.TrimSpace on ASCII text.\<close>

definition is_space :: "char \<Rightarrow> bool" where
  "is_space c \<longleftrightarrow> (of_char c :: nat) \<in> {9, 10, 11, 12, 13, 32}"

definition trim_space :: "string \<Rightarrow> string" where
  "trim_space s = rev (dropWhile is_space (rev (dropWhile is_space s)))"

text \<open>base64.StdEncoding and encoding/hex.\<close>

definition b64_char :: "nat \<Rightarrow> char" where
  "b64_char n =
     (if n < 26 then char_of (65 + n)
      else if n < 52 then char_of (71 + n)
      else if n < 62 then char_of (n - 4)
      else if n = 62 then CHR ''+'' else CHR ''/'')"

fun b64_groups :: "nat list \<Rightarrow> string" where
  "b64_groups [] = []"
| "b64_groups [a] = [b64_char (a div 4), b64_char (a mod 4 * 16), CHR ''='', CHR ''='']"
| "b64_groups [a, b] =
     [b64_char (a div 4), b64_char (a mod 4 * 16 + b div 16), b64_char (b mod 16 * 4), CHR ''='']"
| "b64_groups (a # b # c # xs) =
     [b64_char (a div 4), b64_char (a mod 4 * 16 + b div 16), b64_char (b mod 16 * 4 + c div 64),
      b64_char (c mod 64)] @ b64_groups xs"

definition b64encode :: "string \<Rightarrow> string" where
  "b64encode s = b64_groups (map of_char s)"

definition hex_char :: "nat \<Rightarrow> char" where
  "hex_char n = (if n < 10 then char_of (48 + n) else char_of (87 + n))"

definition hexencode :: "string \<Rightarrow> string" where
  "hexencode s = concat (map (\<lambda>c. [hex_char (of_char c div 16), hex_char (of_char c mod 16)]) s)"

section \<open>Goroutines\<close>

text \<open>The order in which goroutines started in a loop, each with one step under a lock, take their step:
  the schedule says which of the remaining ones is next.  Every order has a schedule.\<close>

fun goroutines :: "nat list \<Rightarrow> 'a list \<Rightarrow> 'a list" where
  "goroutines ks [] = []"
| "goroutines [] (x # xs) = x # xs"
| "goroutines (k # ks) (x # xs) =
     (let i = k mod length (x # xs) in
      (x # xs) ! i # goroutines ks (take i (x # xs) @ drop (i + 1) (x # xs)))"

section \<open>Go maps\<close>

type_synonym ('k, 'v) gomap = "('k \<times> 'v) list"

definition mstore :: "'k \<Rightarrow> 'v \<Rightarrow> ('k, 'v) gomap \<Rightarrow> ('k, 'v) gomap" where
  "mstore k v m = AList.update k v m"

definition mdelete :: "'k \<Rightarrow> ('k, 'v) gomap \<Rightarrow> ('k, 'v) gomap" where
  "mdelete k m = AList.delete k m"

text \<open>Reading a missing key of a Go map gives the zero value of the element type.\<close>

definition mget0 :: "('k, int) gomap \<Rightarrow> 'k \<Rightarrow> int" where
  "mget0 m k = (case map_of m k of None \<Rightarrow> 0 | Some v \<Rightarrow> v)"

definition wf_map :: "('k, 'v) gomap \<Rightarrow> bool" where
  "wf_map m \<longleftrightarrow> distinct (map fst m)"

named_theorems gomap_simps \<open>lookup and well-formedness of updated maps\<close>

named_theorems goint_simps \<open>machine-integer arithmetic\<close>

section \<open>Lemmas on results\<close>

lemma case_sum_Inr:
  "(case r of Inl e \<Rightarrow> Inl (g e) | Inr x \<Rightarrow> Inr (f x)) = Inr y \<longleftrightarrow> (\<exists>x. r = Inr x \<and> y = f x)"
  by (cases r) auto

lemma if_Inr: "(if b then r else q) = Inr y \<longleftrightarrow> (b \<and> r = Inr y) \<or> (\<not> b \<and> q = Inr y)"
  by simp

section \<open>Lemmas on goroutines\<close>

lemma take_out:
  assumes "i < length ys"
  shows "set (ys ! i # take i ys @ drop (i + 1) ys) = set ys"
    and "length (ys ! i # take i ys @ drop (i + 1) ys) = length ys"
proof -
  have "set ys = set (take i ys @ ys ! i # drop (Suc i) ys)"
    using id_take_nth_drop [OF assms] by simp
  then show "set (ys ! i # take i ys @ drop (i + 1) ys) = set ys" by auto
  show "length (ys ! i # take i ys @ drop (i + 1) ys) = length ys"
    using assms by simp
qed

lemma goroutines_step:
  "goroutines (k # ks) ys = (if ys = [] then [] else
     ys ! (k mod length ys) # goroutines ks (take (k mod length ys) ys @ drop (k mod length ys + 1) ys))"
  by (cases ys) (simp_all add: Let_def)

lemma goroutines_perm:
  "set (goroutines ks ys) = set ys \<and> length (goroutines ks ys) = length ys"
proof (induction ks arbitrary: ys)
  case Nil
  show ?case by (cases ys) simp_all
next
  case (Cons k ks)
  show ?case
  proof (cases "ys = []")
    case False
    define i where "i = k mod length ys"
    define zs where "zs = take i ys @ drop (i + 1) ys"
    have "i < length ys"
      using False by (simp add: i_def)
    note t = take_out [OF this, folded zs_def]
    have "goroutines (k # ks) ys = ys ! i # goroutines ks zs"
      unfolding i_def zs_def by (subst goroutines_step) (rule if_not_P [OF False])
    moreover have "set (ys ! i # goroutines ks zs) = set ys" "length (ys ! i # goroutines ks zs) = length ys"
      using Cons.IH [of zs] t by (simp_all only: list.set(2) list.size(4))
    ultimately show ?thesis by metis
  qed simp
qed

lemma goroutines_set [simp]: "set (goroutines ks xs) = set xs"
  and goroutines_length [simp]: "length (goroutines ks xs) = length xs"
  by (simp_all add: goroutines_perm)

lemma goroutines_distinct:
  assumes "distinct (map f xs)"
  shows "distinct (map f (goroutines ks xs))"
proof -
  have "card (set (map f (goroutines ks xs))) = length (map f (goroutines ks xs))"
    using assms distinct_card [of "map f xs"] by simp
  then show ?thesis
    by (rule card_distinct)
qed

section \<open>Lemmas on integers\<close>

lemma wrap64_id [goint_simps]: "in_int64 x \<Longrightarrow> wrap64 x = x"
  by (simp add: wrap64_def in_int64_def)

lemma wrap64_range: "in_int64 (wrap64 x)"
  by (simp add: wrap64_def in_int64_def algebra_simps)

lemma wrap64_wrap64_add: "wrap64 (wrap64 a + b) = wrap64 (a + b)"
proof -
  have "(wrap64 a + b + 9223372036854775808) mod 18446744073709551616
      = ((a + 9223372036854775808) mod 18446744073709551616 + b) mod 18446744073709551616"
    by (simp add: wrap64_def)
  also have "\<dots> = (a + b + 9223372036854775808) mod 18446744073709551616"
    by (subst mod_add_left_eq) (simp add: algebra_simps)
  finally show ?thesis by (simp add: wrap64_def)
qed

lemma wrap64_add_cong: "wrap64 a = wrap64 b \<Longrightarrow> wrap64 (c + a) = wrap64 (c + b)"
  by (metis add.commute wrap64_wrap64_add)

lemma go_div_pos: "0 \<le> a \<Longrightarrow> 0 < b \<Longrightarrow> go_div a b = a div b"
  by (cases "a = 0") (simp_all add: go_div_def)

section \<open>Lemmas on strings\<close>

lemma has_prefix_iff: "has_prefix s p \<longleftrightarrow> (\<exists>t. s = p @ t)"
  by (induction s p rule: has_prefix.induct) auto

lemma trim_prefix_append [simp]: "trim_prefix (p @ s) p = s"
  by (auto simp: trim_prefix_def has_prefix_iff)

lemma trim_prefix_id: "\<not> has_prefix s p \<Longrightarrow> trim_prefix s p = s"
  by (simp add: trim_prefix_def)

declare digits_of.simps [simp del]

lemma digit_char_inj: "d < 10 \<Longrightarrow> e < 10 \<Longrightarrow> digit_char d = digit_char e \<Longrightarrow> d = e"
  unfolding digit_char_def
  by (drule arg_cong [where f = "of_char :: char \<Rightarrow> nat"]) simp

lemma digits_of_nonempty: "digits_of n \<noteq> []"
  by (subst digits_of.simps) simp

lemma digits_of_inj: "digits_of n = digits_of m \<Longrightarrow> n = m"
proof (induction n arbitrary: m rule: digits_of.induct)
  case (1 n)
  have n10: "\<not> n < 10 \<Longrightarrow> digits_of n = digits_of (n div 10) @ [digit_char (n mod 10)]"
    and m10: "\<not> m < 10 \<Longrightarrow> digits_of m = digits_of (m div 10) @ [digit_char (m mod 10)]"
    by (subst digits_of.simps, simp)+
  have n0: "n < 10 \<Longrightarrow> digits_of n = [digit_char n]"
    and m0: "m < 10 \<Longrightarrow> digits_of m = [digit_char m]"
    by (subst digits_of.simps, simp)+
  show ?case
  proof (cases "n < 10"; cases "m < 10")
    assume "n < 10" "m < 10"
    with "1.prems" n0 m0 show ?thesis by (auto intro: digit_char_inj)
  next
    assume "n < 10" "\<not> m < 10"
    with "1.prems" n0 m10 show ?thesis using digits_of_nonempty [of "m div 10"] by simp
  next
    assume "\<not> n < 10" "m < 10"
    with "1.prems" m0 n10 show ?thesis using digits_of_nonempty [of "n div 10"] by simp
  next
    assume nm: "\<not> n < 10" "\<not> m < 10"
    with "1.prems" n10 m10
    have "digits_of (n div 10) = digits_of (m div 10)"
      and "digit_char (n mod 10) = digit_char (m mod 10)" by auto
    with "1.IH" nm have "n div 10 = m div 10" and "n mod 10 = m mod 10"
      by (auto intro: digit_char_inj)
    then show ?thesis by (metis div_mult_mod_eq)
  qed
qed

lemma digits_of_digit: "c \<in> set (digits_of n) \<Longrightarrow> (of_char c :: nat) \<in> {48..57}"
proof (induction n rule: digits_of.induct)
  case (1 n)
  show ?case
  proof (cases "n < 10")
    case True
    with "1.prems" show ?thesis
      by (subst (asm) digits_of.simps) (simp add: digit_char_def)
  next
    case False
    with 1 show ?thesis
      by (subst (asm) (2) digits_of.simps) (auto simp: digit_char_def)
  qed
qed

lemma digits_of_no_minus: "CHR ''-'' \<notin> set (digits_of n)"
  using digits_of_digit [of "CHR ''-''" n] by auto

lemma itoa_inj: "itoa i = itoa j \<Longrightarrow> i = j"
proof -
  assume eq: "itoa i = itoa j"
  have minus: "CHR ''-'' # xs \<noteq> digits_of n" for xs n
    using digits_of_no_minus [of n] by (metis list.set_intros(1))
  from eq show ?thesis
    by (cases "i < 0"; cases "j < 0")
       (auto simp: itoa_def minus minus [symmetric] dest: digits_of_inj)
qed

lemma digit_char_is_digit: "d < 10 \<Longrightarrow> is_digit (digit_char d)"
  by (simp add: is_digit_def digit_char_def)

lemma digits_of_all: "list_all is_digit (digits_of n)"
  using digits_of_digit by (auto simp: list_all_iff is_digit_def)

lemma digits_of_value: "digits_value (digits_of n) = int n"
proof (induction n rule: digits_of.induct)
  case (1 n)
  have d: "(of_char (digit_char (n mod 10)) :: int) = 48 + int (n mod 10)"
  proof -
    have "(of_char (digit_char (n mod 10)) :: nat) = 48 + n mod 10"
      by (simp add: digit_char_def)
    then show ?thesis
      by (metis of_nat_of_char of_nat_add of_nat_numeral)
  qed
  show ?case
  proof (cases "n < 10")
    case True
    then show ?thesis using d by (subst digits_of.simps) (simp add: digits_value_def)
  next
    case False
    then have "digits_value (digits_of n) = 10 * digits_value (digits_of (n div 10)) + int (n mod 10)"
      using d by (subst digits_of.simps) (simp add: digits_value_def)
    also have "\<dots> = int n"
      using 1 False by (metis div_mult_mod_eq int_plus int_ops(7) mult.commute of_nat_numeral)
    finally show ?thesis .
  qed
qed

text \<open>Printing and reading an int gives it back.\<close>

lemma atoi_itoa: "in_int64 n \<Longrightarrow> atoi (itoa n) = (n, False)"
proof -
  assume n: "in_int64 n"
  have no_sign: "\<not> has_prefix (digits_of k) ''-''" "\<not> has_prefix (digits_of k) ''+''" for k
    using digits_of_all [of k] by (auto simp: has_prefix_iff is_digit_def)
  show "atoi (itoa n) = (n, False)"
    using n no_sign digits_of_nonempty digits_of_all
    by (auto simp: atoi_def itoa_def digits_of_value in_int64_def Let_def)
qed

lemma split_on_nonempty: "split_on c s \<noteq> []"
  by (induction s) (auto split: list.splits)

lemma join_split_on: "join_with [c] (split_on c s) = s"
proof (induction s)
  case Nil
  show ?case by simp
next
  case (Cons x xs)
  obtain w ws where w: "split_on c xs = w # ws"
    using split_on_nonempty [of c xs] by (cases "split_on c xs") auto
  with Cons show ?case by (cases ws) auto
qed

section \<open>Lemmas on maps\<close>

lemma map_of_mstore [gomap_simps]: "map_of (mstore k v m) = (map_of m)(k \<mapsto> v)"
  by (simp add: mstore_def update_conv')

lemma map_of_mdelete [gomap_simps]: "map_of (mdelete k m) = (map_of m)(k := None)"
  by (simp add: mdelete_def delete_conv')

lemma wf_map_Nil [gomap_simps]: "wf_map []"
  by (simp add: wf_map_def)

lemma wf_map_mstore [gomap_simps]: "wf_map m \<Longrightarrow> wf_map (mstore k v m)"
  by (simp add: wf_map_def mstore_def distinct_update)

lemma wf_map_mdelete [gomap_simps]: "wf_map m \<Longrightarrow> wf_map (mdelete k m)"
  by (simp add: wf_map_def mdelete_def distinct_delete)

lemma mget0_mstore [gomap_simps]: "mget0 (mstore k v m) j = (if j = k then v else mget0 m j)"
  by (simp add: mget0_def map_of_mstore)

lemma mget0_mdelete [gomap_simps]: "mget0 (mdelete k m) j = (if j = k then 0 else mget0 m j)"
  by (simp add: mget0_def map_of_mdelete)

lemma mstore_not_Nil [gomap_simps]: "mstore k v m \<noteq> []"
  by (cases m) (auto simp: mstore_def)

lemma mstore_set: "e \<in> set (mstore k v m) \<Longrightarrow> e = (k, v) \<or> e \<in> set m"
  unfolding mstore_def by (induction m) (auto split: if_splits)

lemma mdelete_set: "e \<in> set (mdelete k m) \<Longrightarrow> e \<in> set m \<and> fst e \<noteq> k"
  unfolding mdelete_def by (auto simp: AList.delete_eq)

lemma map_of_eq_Some_iff: "wf_map m \<Longrightarrow> map_of m k = Some v \<longleftrightarrow> (k, v) \<in> set m"
  by (simp add: wf_map_def)

section \<open>The interface of a key-value store\<close>

text \<open>
  What the program relies on of Go's map and of sync.Map: a store is seen by the next load,
  a delete removes exactly its key.  The loops over user lists are proved once here.
\<close>

locale key_store =
  fixes load :: "'m \<Rightarrow> 'k \<Rightarrow> 'v option"
    and put :: "'k \<Rightarrow> 'v \<Rightarrow> 'm \<Rightarrow> 'm"
    and del :: "'k \<Rightarrow> 'm \<Rightarrow> 'm"
  assumes load_put: "load (put k v m) = (load m)(k \<mapsto> v)"
    and load_del: "load (del k m) = (load m)(k := None)"
begin

lemma load_put_all:
  "load (fold (\<lambda>u. put (f u) (g u)) us m) = load m ++ map_of (rev (map (\<lambda>u. (f u, g u)) us))"
proof (induction us arbitrary: m)
  case Nil
  show ?case by simp
next
  case (Cons u us)
  show ?case
    by (simp only: fold_simps Cons.IH load_put o_apply list.map rev.simps)
       (rule ext, simp add: map_add_def fun_upd_def split: option.splits)
qed

lemma load_del_all:
  "load (fold (\<lambda>u. del (f u)) us m) = (\<lambda>k. if k \<in> f ` set us then None else load m k)"
  by (induction us arbitrary: m) (auto simp: load_del fun_eq_iff)

lemma load_put_all_other:
  "k \<notin> f ` set us \<Longrightarrow> load (fold (\<lambda>u. put (f u) (g u)) us m) k = load m k"
  by (auto simp: load_put_all map_add_def map_of_eq_None_iff split: option.splits
      dest!: map_of_SomeD)

lemma load_put_all_in:
  assumes "u \<in> set us" and "inj_on f (set us)"
  shows "load (fold (\<lambda>u. put (f u) (g u)) us m) (f u) = Some (g u)"
proof -
  have "map_of (rev (map (\<lambda>u. (f u, g u)) us)) (f u) = Some (g u)"
  proof (cases "map_of (rev (map (\<lambda>u. (f u, g u)) us)) (f u)")
    case None
    with assms(1) show ?thesis by (auto simp: map_of_eq_None_iff image_image)
  next
    case (Some v)
    then obtain w where "w \<in> set us" "f w = f u" "v = g w"
      by (auto dest!: map_of_SomeD)
    with assms Some show ?thesis by (auto dest: inj_onD)
  qed
  then show ?thesis by (simp add: load_put_all map_add_def)
qed

end

interpretation gm: key_store map_of mstore mdelete
  by unfold_locales (rule map_of_mstore map_of_mdelete)+

end
