(* ===== verification/User_Tag.thy ===== *)
theory User_Tag
  imports Prelude
begin

text \<open>
  The key under which the limiter, the traffic counters of the xray core and its link
  managers file a user: \<open>format.UserTag\<close> of common/format/user.go.  Also the panel's
  user record of api/panel/user.go, which every component passes around.
\<close>

record UserInfo =
  ui_Id :: int
  ui_Uuid :: string
  ui_SpeedLimit :: int
  ui_DeviceLimit :: int

record OnlineUser =
  ou_UID :: int
  ou_IP :: string

record UserTraffic =
  ut_UID :: int
  ut_Upload :: int
  ut_Download :: int

definition UserTag :: "string \<Rightarrow> string \<Rightarrow> string" where
  "UserTag tag uuid = tag @ ''|'' @ uuid"

lemma UserTag_same_tag [simp]: "UserTag tag u = UserTag tag v \<longleftrightarrow> u = v"
  by (simp add: UserTag_def)

lemma inj_UserTag: "inj_on (\<lambda>u. UserTag tag (f u)) A \<longleftrightarrow> inj_on f A"
  by (auto simp: inj_on_def)

text \<open>Across nodes the key is unambiguous as long as no uuid holds the separator.\<close>

lemma UserTag_inj:
  assumes "UserTag t u = UserTag t' u'" and "CHR ''|'' \<notin> set u" and "CHR ''|'' \<notin> set u'"
  shows "t = t' \<and> u = u'"
proof -
  have eq: "rev u @ CHR ''|'' # rev t = rev u' @ CHR ''|'' # rev t'"
    using arg_cong [OF assms(1), of rev] by (simp add: UserTag_def)
  have "takeWhile (\<lambda>c. c \<noteq> CHR ''|'') (rev u @ CHR ''|'' # rev t) = rev u"
    using assms(2) by (subst takeWhile_append2) auto
  moreover have "takeWhile (\<lambda>c. c \<noteq> CHR ''|'') (rev u' @ CHR ''|'' # rev t') = rev u'"
    using assms(3) by (subst takeWhile_append2) auto
  ultimately have "u = u'" using eq by simp
  with eq show ?thesis by simp
qed

end
