(* ===== verification/Json5.thy ===== *)
theory Json5
  imports Prelude
begin

text \<open>
  The configuration reader of common/json5/json5.go: it blanks comments and trailing commas of
  the file before the JSON decoder sees it.  The byte slice is a list of characters that each
  loop updates in place; an index is a natural number.
\<close>

section \<open>The scanner\<close>

abbreviation NLc :: char where "NLc \<equiv> CHR 0x0A"

abbreviation CRc :: char where "CRc \<equiv> CHR 0x0D"

abbreviation TABc :: char where "TABc \<equiv> CHR 0x09"

abbreviation QUOTEc :: char where "QUOTEc \<equiv> CHR 0x22"

abbreviation BACKSLASHc :: char where "BACKSLASHc \<equiv> CHR 0x5C"

abbreviation SP :: char where "SP \<equiv> CHR '' ''"

definition isNL :: "char \<Rightarrow> bool" where
  "isNL c \<longleftrightarrow> c = NLc \<or> c = CRc"

definition isWS :: "char \<Rightarrow> bool" where
  "isWS c \<longleftrightarrow> c = SP \<or> c = TABc \<or> isNL c"

text \<open>The two loops of consumeComment.\<close>

function lineLoop :: "string \<Rightarrow> nat \<Rightarrow> string \<times> nat" where
  "lineLoop s i =
     (if i < length s \<and> \<not> isNL (s ! i) then lineLoop (s[i := SP]) (i + 1) else (s, i))"
  by pat_completeness auto
termination
  by (relation "measure (\<lambda>(s, i). length s - i)") auto

function blockLoop :: "string \<Rightarrow> nat \<Rightarrow> string \<times> nat" where
  "blockLoop s i =
     (if i < length s then
        (if s ! i \<noteq> CHR ''*'' then blockLoop (s[i := SP]) (i + 1)
         else if i + 1 < length s \<and> s ! (i + 1) = CHR ''/'' then (s[i := SP, i + 1 := SP], i + 1)
         else blockLoop (s[i := SP]) (i + 2))
      else (s, i))"
  by pat_completeness auto
termination
  by (relation "measure (\<lambda>(s, i). length s - i)") auto

declare lineLoop.simps [simp del] blockLoop.simps [simp del]

definition consumeComment :: "string \<Rightarrow> nat \<Rightarrow> string \<times> nat" where
  "consumeComment s i =
     (case (if i < length s \<and> s ! i = CHR ''/'' then lineLoop (s[i - 1 := SP]) i else (s, i)) of
        (s, i) \<Rightarrow>
          if i < length s \<and> s ! i = CHR ''*'' then blockLoop (s[i - 1 := SP, i := SP]) i else (s, i))"

text \<open>The loop over a string literal: the index just after the closing quote.\<close>

function stringEnd :: "string \<Rightarrow> nat \<Rightarrow> nat" where
  "stringEnd s i =
     (if i < length s then
        (if s ! i = QUOTEc then i + 1
         else if s ! i = BACKSLASHc then stringEnd s (i + 2)
         else stringEnd s (i + 1))
      else i)"
  by pat_completeness auto
termination
  by (relation "measure (\<lambda>(s, i). length s - i)") auto

declare stringEnd.simps [simp del]

text \<open>The loops keep the length of the slice and never move back.\<close>

lemma lineLoop_mono: "length (fst (lineLoop s i)) = length s \<and> i \<le> snd (lineLoop s i)"
proof (induction s i rule: lineLoop.induct)
  case (1 s i)
  then show ?case by (subst (1 2) lineLoop.simps) auto
qed

lemma blockLoop_mono: "length (fst (blockLoop s i)) = length s \<and> i \<le> snd (blockLoop s i)"
proof (induction s i rule: blockLoop.induct)
  case (1 s i)
  then show ?case by (subst (1 2) blockLoop.simps) auto
qed

lemma consumeComment_mono:
  "length (fst (consumeComment s i)) = length s \<and> i \<le> snd (consumeComment s i)"
proof -
  obtain s1 i1 where e: "(if i < length s \<and> s ! i = CHR ''/'' then lineLoop (s[i - 1 := SP]) i
      else (s, i)) = (s1, i1)"
    by (metis surj_pair)
  have "length s1 = length s \<and> i \<le> i1"
    using e lineLoop_mono [of "s[i - 1 := SP]" i] by (auto split: if_splits)
  then show ?thesis
    using blockLoop_mono [of "s1[i1 - 1 := SP, i1 := SP]" i1]
    unfolding consumeComment_def e by auto
qed

lemma stringEnd_mono: "i \<le> stringEnd s i"
proof (induction s i rule: stringEnd.induct)
  case (1 s i)
  then show ?case by (subst stringEnd.simps) auto
qed

text \<open>The loop after a comma at \<open>j\<close>, entered with the index of the comma.\<close>

function commaLoop :: "string \<Rightarrow> nat \<Rightarrow> nat \<Rightarrow> string \<times> nat" where
  "commaLoop s j i0 =
     (let i = i0 + 1 in
      if i \<ge> length s then (s, i)
      else if s ! i = CHR ''}'' \<or> s ! i = CHR '']'' then (s[j := SP], i)
      else if s ! i = CHR ''/'' then
        commaLoop (fst (consumeComment s (i + 1))) j (snd (consumeComment s (i + 1)))
      else if \<not> isWS (s ! i) then (s, i)
      else commaLoop s j i)"
  by pat_completeness auto
termination
proof (relation "measure (\<lambda>(s, j, i). length s - i)", goal_cases)
  case (2 s j i0 i)
  then show ?case using consumeComment_mono [of s "i + 1"]
    by (cases "consumeComment s (i + 1)") auto
qed auto

declare commaLoop.simps [simp del]

lemma commaLoop_mono: "length (fst (commaLoop s j i)) = length s \<and> i < snd (commaLoop s j i)"
proof (induction s j i rule: commaLoop.induct)
  case (1 s j i0)
  show ?case
    using 1 consumeComment_mono [of s "i0 + 2"]
    by (subst (1 2) commaLoop.simps) (auto simp: Let_def)
qed

text \<open>The scan of prep over the buffer, and prep on a buffer that was read without error.\<close>

function prepLoop :: "string \<Rightarrow> nat \<Rightarrow> string" where
  "prepLoop s i =
     (if i < length s then
        (if s ! i = QUOTEc then prepLoop s (stringEnd s (i + 1))
         else if s ! i = CHR ''/'' then
           prepLoop (fst (consumeComment s (i + 1))) (snd (consumeComment s (i + 1)))
         else if s ! i = CHR '','' then
           prepLoop (fst (commaLoop s i i)) (snd (commaLoop s i i))
         else prepLoop s (i + 1))
      else s)"
  by pat_completeness auto
termination
proof (relation "measure (\<lambda>(s, i). length s - i)", goal_cases)
  case (2 s i)
  then show ?case using stringEnd_mono [of "i + 1" s] by auto
next
  case (3 s i)
  then show ?case using consumeComment_mono [of s "i + 1"]
    by (cases "consumeComment s (i + 1)") auto
next
  case (4 s i)
  then show ?case using commaLoop_mono [of s i i] by (cases "commaLoop s i i") auto
qed auto

declare prepLoop.simps [simp del]

definition prep :: "string \<Rightarrow> string" where
  "prep s = prepLoop s 0"


text \<open>
  The reader that serves the blanked text.  \<open>tr_src\<close> is what io.Copy gets from the underlying
  reader: the bytes and an error or nil; \<open>tr_br\<close> is the unread rest once prep has run.  A read
  with room for \<open>n\<close> bytes returns the bytes and an error, io.EOF at the end.
\<close>

record TrimNodeReader =
  tr_src :: "string \<times> err"
  tr_br :: "string option"

definition NewTrimNodeReader :: "string \<times> err \<Rightarrow> TrimNodeReader" where
  "NewTrimNodeReader r = \<lparr>tr_src = r, tr_br = None\<rparr>"

definition EOF :: goerr where
  "EOF = ''EOF''"

definition readRest :: "nat \<Rightarrow> string \<Rightarrow> TrimNodeReader \<Rightarrow> (string \<times> err) \<times> TrimNodeReader" where
  "readRest n s st =
     (if s = [] then (([], Some EOF), st\<lparr>tr_br := Some []\<rparr>)
      else ((take n s, None), st\<lparr>tr_br := Some (drop n s)\<rparr>))"

definition TrimNodeReader_Read :: "nat \<Rightarrow> TrimNodeReader \<Rightarrow> (string \<times> err) \<times> TrimNodeReader" where
  "TrimNodeReader_Read n st =
     (case tr_br st of
        Some s \<Rightarrow> readRest n s st
      | None \<Rightarrow> (case tr_src st of
          (b, Some e) \<Rightarrow> (([], Some e), st)
        | (b, None) \<Rightarrow> readRest n (prep b) st))"

text \<open>io.ReadAll: reads into the free space of a buffer (a list of positive sizes) until an error;
  io.EOF is success.\<close>

fun readAll :: "nat list \<Rightarrow> TrimNodeReader \<Rightarrow> string \<times> err" where
  "readAll [] st = ([], None)"
| "readAll (n # ns) st =
     (case TrimNodeReader_Read n st of
        ((b, None), st) \<Rightarrow> (case readAll ns st of (bs, e) \<Rightarrow> (b @ bs, e))
      | ((b, Some e), st) \<Rightarrow> (b, if e = EOF then None else Some e))"

lemma readAll_rest:
  assumes "list_all (\<lambda>n. 0 < n) ns" "length s < length ns" "tr_br st = Some s"
  shows "readAll ns st = (s, None)"
  using assms
proof (induction ns arbitrary: s st)
  case (Cons n ns)
  show ?case
  proof (cases "s = []")
    case True
    then show ?thesis using Cons.prems by (simp add: TrimNodeReader_Read_def readRest_def)
  next
    case False
    then have "readAll ns (st\<lparr>tr_br := Some (drop n s)\<rparr>) = (drop n s, None)"
      using Cons.prems by (intro Cons.IH) (auto simp: neq_Nil_conv)
    then show ?thesis
      using False Cons.prems by (simp add: TrimNodeReader_Read_def readRest_def)
  qed
qed simp

text \<open>Whatever the buffer sizes, reading a proxied file to its end gives the blanked text, or the
  error of the underlying reader.\<close>

lemma readAll_trimmed:
  assumes "list_all (\<lambda>n. 0 < n) ns" "length b < length ns" "e = None \<or> e = Some x" "x \<noteq> EOF"
  shows "readAll ns (NewTrimNodeReader (b, e)) = (if e = None then prep b else [], e)"
proof -
  obtain n ms where ns: "ns = n # ms"
    using assms(2) by (cases ns) auto
  have len: "length (prep b) = length b"
  proof -
    have "length (prepLoop s i) = length s" for s i
    proof (induction s i rule: prepLoop.induct)
      case (1 s i)
      then show ?case
        using consumeComment_mono [of s "i + 1"] commaLoop_mono [of s i i]
        by (subst prepLoop.simps) auto
    qed
    then show ?thesis by (simp add: prep_def)
  qed
  show ?thesis
  proof (cases e)
    case (Some y)
    then show ?thesis
      using ns assms(3,4) by (simp add: NewTrimNodeReader_def TrimNodeReader_Read_def)
  next
    case None
    let ?st = "NewTrimNodeReader (b, None)"
    have "readAll ns ?st = readAll ns (?st\<lparr>tr_br := Some (prep b)\<rparr>)"
      unfolding ns
      by (simp add: NewTrimNodeReader_def TrimNodeReader_Read_def readRest_def split: prod.splits)
    then show ?thesis
      using readAll_rest [of ns "prep b" "?st\<lparr>tr_br := Some (prep b)\<rparr>"] assms(1,2) len None
      by simp
  qed
qed

section \<open>The scanner only blanks bytes\<close>

text \<open>\<open>blanked s t\<close>: \<open>t\<close> is \<open>s\<close> with some bytes overwritten by a space.\<close>

definition blanked :: "string \<Rightarrow> string \<Rightarrow> bool" where
  "blanked s t = list_all2 (\<lambda>a b. b = a \<or> b = SP) s t"

lemma blanked_refl [simp]: "blanked s s"
  by (simp add: blanked_def list_all2_same)

lemma blanked_trans: "blanked s t \<Longrightarrow> blanked t u \<Longrightarrow> blanked s u"
  unfolding blanked_def list_all2_conv_all_nth by metis

lemma blanked_update [simp]: "blanked s (s[i := SP])"
  unfolding blanked_def list_all2_conv_all_nth
proof (intro conjI allI impI)
  fix k
  assume "k < length s"
  then show "s[i := SP] ! k = s ! k \<or> s[i := SP] ! k = SP"
    by (cases "k = i") simp_all
qed simp

lemma blanked_updated: "blanked (s[i := SP]) t \<Longrightarrow> blanked s t"
  by (rule blanked_trans [OF blanked_update])

lemma lineLoop_blanked: "blanked s (fst (lineLoop s i))"
proof (induction s i rule: lineLoop.induct)
  case (1 s i)
  then show ?case by (subst lineLoop.simps) (auto intro: blanked_updated)
qed

lemma blockLoop_blanked: "blanked s (fst (blockLoop s i))"
proof (induction s i rule: blockLoop.induct)
  case (1 s i)
  then show ?case
    by (subst blockLoop.simps) (auto intro: blanked_updated blanked_trans [OF blanked_update blanked_update])
qed

lemma consumeComment_blanked: "blanked s (fst (consumeComment s i))"
proof -
  obtain s1 i1 where e: "(if i < length s \<and> s ! i = CHR ''/'' then lineLoop (s[i - 1 := SP]) i
      else (s, i)) = (s1, i1)"
    by (metis surj_pair)
  have "blanked s s1"
    using e lineLoop_blanked [of "s[i - 1 := SP]" i] by (auto split: if_splits intro: blanked_updated)
  then show ?thesis
    using blockLoop_blanked [of "s1[i1 - 1 := SP, i1 := SP]" i1]
    unfolding consumeComment_def e by (auto dest!: blanked_updated intro: blanked_trans)
qed

lemma commaLoop_blanked: "blanked s (fst (commaLoop s j i))"
proof (induction s j i rule: commaLoop.induct)
  case (1 s j i0)
  then show ?case
    using consumeComment_blanked [of s "i0 + 2"]
    by (subst commaLoop.simps) (auto simp: Let_def intro: blanked_trans)
qed

lemma prepLoop_blanked: "blanked s (prepLoop s i)"
proof (induction s i rule: prepLoop.induct)
  case (1 s i)
  then show ?case
    using consumeComment_blanked [of s "i + 1"] commaLoop_blanked [of s i i]
    by (subst prepLoop.simps) (auto intro: blanked_trans)
qed

section \<open>What is blanked\<close>

text \<open>
  A configuration file as a list of pieces: \<open>Plain c\<close> is a byte that starts none of the
  constructs the scanner treats, \<open>Lit\<close> a string literal with the given bytes between its quotes,
  \<open>Gap\<close> white space or a comment, \<open>Comma\<close> a comma with the white space and comments that follow
  it.
\<close>

datatype gap = White char | LineComment string | BlockComment string

datatype piece = Plain char | Lit string | Gap gap | Comma "gap list"

fun gap_text :: "gap \<Rightarrow> string" where
  "gap_text (White c) = [c]"
| "gap_text (LineComment b) = ''//'' @ b @ [NLc]"
| "gap_text (BlockComment b) = ''/*'' @ b @ ''*/''"

fun piece_text :: "piece \<Rightarrow> string" where
  "piece_text (Plain c) = [c]"
| "piece_text (Lit b) = QUOTEc # b @ [QUOTEc]"
| "piece_text (Gap g) = gap_text g"
| "piece_text (Comma gs) = CHR '','' # concat (map gap_text gs)"

definition file_text :: "piece list \<Rightarrow> string" where
  "file_text ps = concat (map piece_text ps)"

definition blank :: "string \<Rightarrow> string" where
  "blank s = replicate (length s) SP"

fun gap_json :: "gap \<Rightarrow> string" where
  "gap_json (White c) = [c]"
| "gap_json (LineComment b) = blank (''//'' @ b) @ [NLc]"
| "gap_json (BlockComment b) = blank (''/*'' @ b @ ''*/'')"

text \<open>The JSON text that is meant: comments are blanked and so is a comma before a closing
  bracket; everything else is kept.\<close>

fun closes :: "piece list \<Rightarrow> bool" where
  "closes (Plain c # ps) = (c = CHR ''}'' \<or> c = CHR '']'')"
| "closes _ = False"

fun file_json :: "piece list \<Rightarrow> string" where
  "file_json [] = []"
| "file_json (Plain c # ps) = c # file_json ps"
| "file_json (Lit b # ps) = QUOTEc # b @ QUOTEc # file_json ps"
| "file_json (Gap g # ps) = gap_json g @ file_json ps"
| "file_json (Comma gs # ps) =
     (if closes ps then SP else CHR '','') # concat (map gap_json gs) @ file_json ps"

text \<open>The well-formed files: a literal's body escapes its quotes, a line comment has no line
  break, a block comment no star, a comma takes all the gaps that follow it.\<close>

fun lit_body :: "string \<Rightarrow> bool" where
  "lit_body [] = True"
| "lit_body (c # cs) =
     (if c = QUOTEc then False
      else if c = BACKSLASHc then (case cs of [] \<Rightarrow> False | _ # ds \<Rightarrow> lit_body ds)
      else lit_body cs)"

fun wf_gap :: "gap \<Rightarrow> bool" where
  "wf_gap (White c) = isWS c"
| "wf_gap (LineComment b) = list_all (\<lambda>c. \<not> isNL c) b"
| "wf_gap (BlockComment b) = (CHR ''*'' \<notin> set b)"

fun wf_file :: "piece list \<Rightarrow> bool" where
  "wf_file [] = True"
| "wf_file (Plain c # ps) =
     (c \<noteq> QUOTEc \<and> c \<noteq> CHR ''/'' \<and> c \<noteq> CHR '','' \<and> \<not> isWS c \<and> wf_file ps)"
| "wf_file (Lit b # ps) = (lit_body b \<and> wf_file ps)"
| "wf_file (Gap g # ps) = (wf_gap g \<and> wf_file ps)"
| "wf_file (Comma gs # ps) =
     (list_all wf_gap gs \<and> (case ps of Gap g # _ \<Rightarrow> False | _ \<Rightarrow> True) \<and> wf_file ps)"

text \<open>The loops on a text split at the scanning position.\<close>

lemma update_at_length: "(pre @ c # rest)[length pre := x] = pre @ x # rest"
  by simp

lemma lineLoop_text:
  "list_all (\<lambda>c. \<not> isNL c) b \<Longrightarrow> isNL n \<Longrightarrow>
   lineLoop (pre @ b @ n # rest) (length pre)
   = (pre @ blank b @ n # rest, length (pre @ b))"
proof (induction b arbitrary: pre)
  case Nil
  then show ?case by (subst lineLoop.simps) (simp add: blank_def)
next
  case (Cons c b)
  have "lineLoop (pre @ (c # b) @ n # rest) (length pre)
      = lineLoop ((pre @ [SP]) @ b @ n # rest) (length (pre @ [SP]))"
    using Cons.prems by (subst lineLoop.simps) (simp add: update_at_length)
  also have "\<dots> = (pre @ blank (c # b) @ n # rest, length (pre @ c # b))"
    using Cons.IH [of "pre @ [SP]"] Cons.prems by (simp add: blank_def)
  finally show ?case .
qed

lemma blockLoop_text:
  "CHR ''*'' \<notin> set b \<Longrightarrow>
   blockLoop (pre @ b @ ''*/'' @ rest) (length pre)
   = (pre @ blank (b @ ''*/'') @ rest, length (pre @ b) + 1)"
proof (induction b arbitrary: pre)
  case Nil
  then show ?case
    by (subst blockLoop.simps) (simp add: blank_def nth_append list_update_append)
next
  case (Cons c b)
  have "blockLoop (pre @ (c # b) @ ''*/'' @ rest) (length pre)
      = blockLoop ((pre @ [SP]) @ b @ ''*/'' @ rest) (length (pre @ [SP]))"
    using Cons.prems by (subst blockLoop.simps) (auto simp: update_at_length)
  also have "\<dots> = (pre @ blank ((c # b) @ ''*/'') @ rest, length (pre @ c # b) + 1)"
    using Cons.IH [of "pre @ [SP]"] Cons.prems by (simp add: blank_def)
  finally show ?case .
qed

definition comment_gap :: "gap \<Rightarrow> bool" where
  "comment_gap g = (case g of White _ \<Rightarrow> False | _ \<Rightarrow> True)"

text \<open>consumeComment blanks a whole comment; it returns the index of its last byte: the line
  break, or the slash.\<close>

lemma consumeComment_text:
  assumes "wf_gap g" "comment_gap g"
  shows "consumeComment (pre @ gap_text g @ rest) (length pre + 1)
       = (pre @ gap_json g @ rest, length (pre @ gap_text g) - 1)"
proof (cases g)
  case (White c)
  then show ?thesis using assms by (simp add: comment_gap_def)
next
  case (LineComment b)
  let ?s = "pre @ gap_text g @ rest"
  have s: "?s = (pre @ [CHR ''/'']) @ (CHR ''/'' # b) @ NLc # rest"
    using LineComment by simp
  have "?s[length pre := SP] = (pre @ [SP]) @ (CHR ''/'' # b) @ NLc # rest"
    unfolding s by (simp add: list_update_append)
  moreover have "list_all (\<lambda>c. \<not> isNL c) (CHR ''/'' # b)"
    using assms LineComment by (simp add: isNL_def)
  ultimately have "lineLoop (?s[length pre := SP]) (length (pre @ [SP]))
      = ((pre @ [SP]) @ blank (CHR ''/'' # b) @ NLc # rest, length ((pre @ [SP]) @ CHR ''/'' # b))"
    by (simp only: lineLoop_text isNL_def simp_thms)
  moreover have "?s ! (length pre + 1) = CHR ''/''"
    unfolding s by (simp add: nth_append)
  moreover have "length pre + 1 < length ?s"
    unfolding s by simp
  ultimately show ?thesis
    using LineComment unfolding consumeComment_def
    by (auto simp: blank_def nth_append)
next
  case (BlockComment b)
  let ?s = "pre @ gap_text g @ rest"
  have s: "?s = pre @ CHR ''/'' # CHR ''*'' # b @ ''*/'' @ rest"
    using BlockComment by simp
  have "?s[length pre := SP, length pre + 1 := SP] = (pre @ [SP]) @ (SP # b) @ ''*/'' @ rest"
    unfolding s by (simp add: list_update_append)
  moreover have "CHR ''*'' \<notin> set (SP # b)"
    using assms BlockComment by simp
  ultimately have "blockLoop (?s[length pre := SP, length pre + 1 := SP]) (length (pre @ [SP]))
      = ((pre @ [SP]) @ blank ((SP # b) @ ''*/'') @ rest, length ((pre @ [SP]) @ SP # b) + 1)"
    by (simp only: blockLoop_text not_False_eq_True)
  moreover have "?s ! (length pre + 1) = CHR ''*''"
    unfolding s by (simp add: nth_append)
  moreover have "length pre + 1 < length ?s"
    unfolding s by simp
  ultimately show ?thesis
    using BlockComment unfolding consumeComment_def
    by (auto simp: blank_def)
qed

lemma gap_json_length [simp]: "length (gap_json g) = length (gap_text g)"
  by (cases g) (simp_all add: blank_def)

lemma gap_text_nonempty [simp]: "gap_text g \<noteq> []"
  by (cases g) simp_all

lemma comment_gap_start: "comment_gap g \<Longrightarrow> \<exists>r. gap_text g = CHR ''/'' # r"
  by (cases g) (simp_all add: comment_gap_def)

lemma isWS_not: "isWS c \<Longrightarrow> c \<noteq> CHR ''}'' \<and> c \<noteq> CHR '']'' \<and> c \<noteq> CHR ''/'' \<and> c \<noteq> QUOTEc \<and> c \<noteq> CHR '',''"
  by (auto simp: isWS_def isNL_def)

lemma commaLoop_gap:
  assumes "wf_gap g" "pre \<noteq> []"
  shows "commaLoop (pre @ gap_text g @ rest) j (length pre - 1)
       = commaLoop (pre @ gap_json g @ rest) j (length (pre @ gap_text g) - 1)"
proof (cases "comment_gap g")
  case True
  then obtain r where r: "gap_text g = CHR ''/'' # r"
    using comment_gap_start by blast
  have "length pre - 1 + 1 = length pre"
    using assms(2) by (cases pre) simp_all
  moreover have "(pre @ gap_text g @ rest) ! length pre = CHR ''/''"
    unfolding r by simp
  ultimately show ?thesis
    using consumeComment_text [OF assms(1) True, of pre rest]
    by (subst commaLoop.simps) (simp add: Let_def)
next
  case False
  then obtain c where g: "g = White c"
    by (cases g) (simp_all add: comment_gap_def)
  have "length pre - 1 + 1 = length pre"
    using assms(2) by (cases pre) simp_all
  then show ?thesis
    using assms(1) isWS_not [of c] unfolding g
    by (subst commaLoop.simps) (simp add: Let_def)
qed

lemma commaLoop_gaps:
  assumes "list_all wf_gap gs" "pre \<noteq> []"
  shows "commaLoop (pre @ concat (map gap_text gs) @ rest) j (length pre - 1)
       = commaLoop (pre @ concat (map gap_json gs) @ rest) j
           (length (pre @ concat (map gap_json gs)) - 1)"
  using assms
proof (induction gs arbitrary: pre)
  case Nil
  then show ?case by simp
next
  case (Cons g gs)
  have "commaLoop (pre @ concat (map gap_text (g # gs)) @ rest) j (length pre - 1)
      = commaLoop ((pre @ gap_json g) @ concat (map gap_text gs) @ rest) j
          (length (pre @ gap_json g) - 1)"
    using commaLoop_gap [of g pre "concat (map gap_text gs) @ rest" j] Cons.prems by simp
  also have "\<dots> = commaLoop ((pre @ gap_json g) @ concat (map gap_json gs) @ rest) j
      (length ((pre @ gap_json g) @ concat (map gap_json gs)) - 1)"
    using Cons.IH [of "pre @ gap_json g"] Cons.prems by simp
  finally show ?case by simp
qed

text \<open>Where the loop after a comma stops: at the end of the text or at a byte that is neither
  white space nor a slash.\<close>

definition stops :: "string \<Rightarrow> bool \<Rightarrow> bool" where
  "stops rest closing \<longleftrightarrow> (rest = [] \<and> \<not> closing) \<or>
     (\<exists>c r. rest = c # r \<and> \<not> isWS c \<and> c \<noteq> CHR ''/'' \<and> closing = (c = CHR ''}'' \<or> c = CHR '']''))"

lemma commaLoop_stop:
  assumes "stops rest closing" "pre \<noteq> []"
  shows "commaLoop (pre @ rest) j (length pre - 1)
       = (if closing then (pre @ rest)[j := SP] else pre @ rest, length pre)"
proof -
  have "length pre - 1 + 1 = length pre"
    using assms(2) by (cases pre) simp_all
  then show ?thesis
    using assms(1) by (subst commaLoop.simps) (auto simp: stops_def Let_def)
qed

lemma stringEnd_text:
  "lit_body b \<Longrightarrow> stringEnd (pre @ b @ QUOTEc # rest) (length pre) = length (pre @ b) + 1"
proof (induction b arbitrary: pre rule: lit_body.induct)
  case 1
  then show ?case by (subst stringEnd.simps) simp
next
  case (2 c cs)
  show ?case
  proof (cases "c = BACKSLASHc")
    case True
    with 2 obtain d ds where cs: "cs = d # ds" "lit_body ds"
      by (cases cs) simp_all
    from "2.IH"(1) [OF _ True cs(1) cs(2), of "pre @ [c, d]"] "2.prems" True
    have "stringEnd ((pre @ [c, d]) @ ds @ QUOTEc # rest) (length (pre @ [c, d]))
        = length ((pre @ [c, d]) @ ds) + 1"
      by (auto simp del: append_assoc split: if_splits)
    then show ?thesis
      using True cs by (subst stringEnd.simps) simp
  next
    case False
    then have "stringEnd ((pre @ [c]) @ cs @ QUOTEc # rest) (length (pre @ [c]))
        = length ((pre @ [c]) @ cs) + 1"
      using "2.IH"(2) [of "pre @ [c]"] "2.prems" by (simp split: if_splits)
    then show ?thesis
      using False "2.prems" by (subst stringEnd.simps) (simp split: if_splits)
  qed
qed

text \<open>One piece of the file in front of the rest.\<close>

lemma comment_gap_end: "comment_gap g \<Longrightarrow> \<exists>w c. gap_json g = w @ [c] \<and> isWS c"
  by (cases g) (auto simp: comment_gap_def blank_def isWS_def isNL_def replicate_append_same [symmetric])

lemma prepLoop_WS:
  "isWS c \<Longrightarrow> prepLoop (pre @ c # rest) (length pre) = prepLoop (pre @ c # rest) (length pre + 1)"
  using isWS_not [of c] by (subst prepLoop.simps) simp

lemma prepLoop_gap:
  assumes "wf_gap g"
  shows "prepLoop (pre @ gap_text g @ rest) (length pre)
       = prepLoop (pre @ gap_json g @ rest) (length (pre @ gap_json g))"
proof (cases "comment_gap g")
  case True
  then obtain r where r: "gap_text g = CHR ''/'' # r"
    using comment_gap_start by blast
  obtain w c where w: "gap_json g = w @ [c]" "isWS c"
    using comment_gap_end [OF True] by blast
  have "length (gap_text g) = length w + 1"
    using w gap_json_length [of g] by simp
  then have "prepLoop (pre @ gap_text g @ rest) (length pre)
      = prepLoop ((pre @ w) @ c # rest) (length (pre @ w))"
    using consumeComment_text [OF assms True, of pre rest] w(1)
    by (subst prepLoop.simps) (simp add: r)
  also have "\<dots> = prepLoop ((pre @ w) @ c # rest) (length (pre @ w) + 1)"
    by (rule prepLoop_WS [OF w(2)])
  finally show ?thesis
    using w(1) by simp
next
  case False
  then obtain c where g: "g = White c"
    by (cases g) (simp_all add: comment_gap_def)
  then show ?thesis
    using assms prepLoop_WS [of c pre rest] by simp
qed

lemma prepLoop_lit:
  assumes "lit_body b"
  shows "prepLoop (pre @ piece_text (Lit b) @ rest) (length pre)
       = prepLoop (pre @ piece_text (Lit b) @ rest) (length (pre @ piece_text (Lit b)))"
  using stringEnd_text [OF assms, of "pre @ [QUOTEc]" rest]
  by (subst prepLoop.simps) simp

lemma prepLoop_comma:
  assumes "list_all wf_gap gs" "stops rest closing"
  shows "prepLoop (pre @ piece_text (Comma gs) @ rest) (length pre)
       = (let pre' = pre @ (if closing then SP else CHR '','') # concat (map gap_json gs)
          in prepLoop (pre' @ rest) (length pre'))"
proof -
  let ?p = "pre @ [CHR '','']" and ?j = "concat (map gap_json gs)"
  have "commaLoop (?p @ concat (map gap_text gs) @ rest) (length pre) (length ?p - 1)
      = commaLoop ((?p @ ?j) @ rest) (length pre) (length (?p @ ?j) - 1)"
    using commaLoop_gaps [OF assms(1), of ?p rest "length pre"] by simp
  also have "\<dots> = (if closing then ((?p @ ?j) @ rest)[length pre := SP] else (?p @ ?j) @ rest,
      length (?p @ ?j))"
    using commaLoop_stop [OF assms(2), of "?p @ ?j" "length pre"] by simp
  finally show ?thesis
    by (subst prepLoop.simps) (auto simp: Let_def)
qed

lemma file_stops:
  assumes "wf_file ps" "case ps of Gap g # _ \<Rightarrow> False | _ \<Rightarrow> True"
  shows "stops (file_text ps) (closes ps)"
proof (cases ps)
  case Nil
  then show ?thesis by (simp add: file_text_def stops_def)
next
  case (Cons x qs)
  then show ?thesis
    using assms by (cases x) (auto simp: file_text_def stops_def isWS_def isNL_def)
qed

lemma prepLoop_file:
  "wf_file ps \<Longrightarrow> prepLoop (pre @ file_text ps) (length pre) = pre @ file_json ps"
proof (induction ps arbitrary: pre)
  case Nil
  then show ?case by (subst prepLoop.simps) (simp add: file_text_def)
next
  case (Cons x ps)
  have t: "file_text (x # ps) = piece_text x @ file_text ps"
    by (simp add: file_text_def)
  show ?case
  proof (cases x)
    case (Plain c)
    then show ?thesis
      using Cons.prems Cons.IH [of "pre @ [c]"] t by (subst prepLoop.simps) simp
  next
    case (Lit b)
    then show ?thesis
      using Cons.prems Cons.IH [of "pre @ piece_text x"] t prepLoop_lit [of b pre "file_text ps"]
      by simp
  next
    case (Gap g)
    then show ?thesis
      using Cons.prems Cons.IH [of "pre @ gap_json g"] t prepLoop_gap [of g pre "file_text ps"]
      by simp
  next
    case (Comma gs)
    have "stops (file_text ps) (closes ps)"
      using Cons.prems Comma by (intro file_stops) simp_all
    then show ?thesis
      using Cons.prems Comma t prepLoop_comma [of gs "file_text ps" "closes ps" pre]
        Cons.IH [of "pre @ (if closes ps then SP else CHR '','') # concat (map gap_json gs)"]
      by (simp add: Let_def)
  qed
qed

section \<open>Properties\<close>

text \<open>The configuration reader never moves, inserts or drops a byte: its result has the
  length of the file and each byte is the file's or a space, whatever the file holds (so error
  positions reported by the JSON decoder are those of the file).\<close>

theorem prep_blanks: "blanked s (prep s)"
  unfolding prep_def by (rule prepLoop_blanked)

text \<open>C26: A file made of JSON tokens, string literals, white space, line comments, block comments
  without a star in their body and commas comes out as the JSON text that was meant: every comment
  is blanked, a comma is blanked exactly when only white space and comments separate it from a
  closing bracket, and string literals are kept whatever they contain, comment openers and commas
  included.\<close>

theorem prep_file:
  assumes "wf_file ps"
  shows "prep (file_text ps) = file_json ps"
  using prepLoop_file [OF assms, of "[]"] unfolding prep_def by simp

theorem prep_file_witness:
  "prep (file_text [Plain CHR ''{'', Lit ''a//,}'', Comma [White SP, LineComment ''x'', BlockComment ''y''],
      Plain CHR ''}''])
   = file_json [Plain CHR ''{'', Lit ''a//,}'', Comma [White SP, LineComment ''x'', BlockComment ''y''],
      Plain CHR ''}'']"
  by (rule prep_file) (simp add: isWS_def isNL_def)

text \<open>A star inside a block comment: the byte after it is kept, and a second star that should
  close the comment is not seen.\<close>

lemma star_leaves_byte: "prep ''/*a*b*/1'' = ''    b  1''"
  by code_simp

lemma double_star_not_closed: "prep ''/***/1,2'' = ''   *    ''"
  by code_simp

end
