(* ===== verification/Conf.thy ===== *)
theory Conf
  imports Json5
begin

text \<open>
  The package conf: the configuration records, their defaults, the custom JSON decoders that fill
  the core-specific options, the include mechanism of a node entry, loading and the file watcher.

  The struct-tag driven decoder of encoding/json is a parameter (\<open>json_env\<close>): each component
  decodes bytes into an existing value and returns the value it leaves with an error or nil, as
  json.Unmarshal does through a pointer.  Files and HTTP are parameters too.
\<close>

section \<open>Configuration records\<close>

record LogConfig =
  lg_Level :: string
  lg_Output :: string

record CertConfig =
  cc_CertMode :: string
  cc_RejectUnknownSni :: bool
  cc_CertDomain :: string
  cc_CertFile :: string
  cc_KeyFile :: string
  cc_Provider :: string
  cc_Email :: string
  cc_DNSEnv :: "(string, string) gomap"

definition NewCertConfig :: CertConfig where
  "NewCertConfig = \<lparr>cc_CertMode = ''none'', cc_RejectUnknownSni = False, cc_CertDomain = [],
     cc_CertFile = [], cc_KeyFile = [], cc_Provider = [], cc_Email = [], cc_DNSEnv = []\<rparr>"

record Hysteria2Config =
  hy_LogLevel :: string

definition NewHysteria2Config :: Hysteria2Config where
  "NewHysteria2Config = \<lparr>hy_LogLevel = ''error''\<rparr>"

record XrayLogConfig =
  xl_Level :: string
  xl_AccessPath :: string
  xl_ErrorPath :: string

record XrayConnectionConfig =
  xc_Handshake :: int
  xc_ConnIdle :: int
  xc_UplinkOnly :: int
  xc_DownlinkOnly :: int
  xc_BufferSize :: int

record XrayConfig =
  xr_LogConfig :: "XrayLogConfig option"
  xr_AssetPath :: string
  xr_DnsConfigPath :: string
  xr_RouteConfigPath :: string
  xr_ConnectionConfig :: "XrayConnectionConfig option"
  xr_InboundConfigPath :: string
  xr_OutboundConfigPath :: string

definition NewXrayConfig :: XrayConfig where
  "NewXrayConfig = \<lparr>
     xr_LogConfig = Some \<lparr>xl_Level = ''warning'', xl_AccessPath = [], xl_ErrorPath = []\<rparr>,
     xr_AssetPath = ''/etc/V2bX/'', xr_DnsConfigPath = [], xr_RouteConfigPath = [],
     xr_ConnectionConfig = Some \<lparr>xc_Handshake = 4, xc_ConnIdle = 30, xc_UplinkOnly = 2,
       xc_DownlinkOnly = 4, xc_BufferSize = 64\<rparr>,
     xr_InboundConfigPath = [], xr_OutboundConfigPath = []\<rparr>"

record FallBackConfigForXray =
  fx_SNI :: string
  fx_Alpn :: string
  fx_Path :: string
  fx_Dest :: string
  fx_ProxyProtocolVer :: int

record XrayOptions =
  xo_EnableProxyProtocol :: bool
  xo_EnableDNS :: bool
  xo_DNSType :: string
  xo_EnableUot :: bool
  xo_EnableTFO :: bool
  xo_DisableIVCheck :: bool
  xo_DisableSniffing :: bool
  xo_AutoSendThroughOrigin :: bool
  xo_EnableSameTagOutbound :: bool
  xo_EnableFallback :: bool
  xo_FallBackConfigs :: "FallBackConfigForXray list option"

definition NewXrayOptions :: XrayOptions where
  "NewXrayOptions = \<lparr>xo_EnableProxyProtocol = False, xo_EnableDNS = False, xo_DNSType = ''AsIs'',
     xo_EnableUot = False, xo_EnableTFO = False, xo_DisableIVCheck = False,
     xo_DisableSniffing = False, xo_AutoSendThroughOrigin = True,
     xo_EnableSameTagOutbound = True, xo_EnableFallback = False, xo_FallBackConfigs = None\<rparr>"

record SingLogConfig =
  sl_Disabled :: bool
  sl_Level :: string
  sl_Output :: string
  sl_Timestamp :: bool

record SingNtpConfig =
  sn_Enable :: bool
  sn_Server :: string
  sn_ServerPort :: int

record SingConfig =
  sg_LogConfig :: SingLogConfig
  sg_NtpConfig :: SingNtpConfig
  sg_OriginalPath :: string

definition NewSingConfig :: SingConfig where
  "NewSingConfig = \<lparr>
     sg_LogConfig = \<lparr>sl_Disabled = False, sl_Level = ''error'', sl_Output = [], sl_Timestamp = True\<rparr>,
     sg_NtpConfig = \<lparr>sn_Enable = False, sn_Server = ''time.apple.com'', sn_ServerPort = 0\<rparr>,
     sg_OriginalPath = []\<rparr>"

record FallBack =
  fb_Server :: string
  fb_ServerPort :: string

record FallBackConfigForSing =
  fs_FallBack :: FallBack
  fs_FallBackForALPN :: "(string, FallBack) gomap"

record BrutalOptions =
  br_Enabled :: bool
  br_UpMbps :: int
  br_DownMbps :: int

record MultiplexConfig =
  mx_Enabled :: bool
  mx_Padding :: bool
  mx_Brutal :: BrutalOptions

record SingOptions =
  so_TCPFastOpen :: bool
  so_SniffEnabled :: bool
  so_SniffOverrideDestination :: bool
  so_EnableDNS :: bool
  so_DomainStrategy :: int
  so_FallBackConfigs :: "FallBackConfigForSing option"
  so_Multiplex :: "MultiplexConfig option"

definition NewSingOptions :: SingOptions where
  "NewSingOptions = \<lparr>so_TCPFastOpen = False, so_SniffEnabled = True,
     so_SniffOverrideDestination = True, so_EnableDNS = False, so_DomainStrategy = 0,
     so_FallBackConfigs = Some \<lparr>fs_FallBack = \<lparr>fb_Server = [], fb_ServerPort = []\<rparr>,
       fs_FallBackForALPN = []\<rparr>,
     so_Multiplex = Some \<lparr>mx_Enabled = False, mx_Padding = False,
       mx_Brutal = \<lparr>br_Enabled = False, br_UpMbps = 0, br_DownMbps = 0\<rparr>\<rparr>\<rparr>"

record RecorderConfig =
  rc_Url :: string
  rc_Token :: string
  rc_Timeout :: int

record RedisConfig =
  rd_Address :: string
  rd_Password :: string
  rd_Db :: int
  rd_Expiry :: int

record IpReportConfig =
  ir_Periodic :: int
  ir_Type :: string
  ir_RecorderConfig :: "RecorderConfig option"
  ir_RedisConfig :: "RedisConfig option"
  ir_EnableIpSync :: bool

record DynamicSpeedLimitConfig =
  ds_Periodic :: int
  ds_Traffic :: int
  ds_SpeedLimit :: int
  ds_ExpireTime :: int

record LimitConfig =
  lc_EnableRealtime :: bool
  lc_SpeedLimit :: int
  lc_IPLimit :: int
  lc_ConnLimit :: int
  lc_EnableIpRecorder :: bool
  lc_IpRecorderConfig :: "IpReportConfig option"
  lc_EnableDynamicSpeedLimit :: bool
  lc_DynamicSpeedLimitConfig :: "DynamicSpeedLimitConfig option"

record ApiConfig =
  ac_APIHost :: string
  ac_APISendIP :: string
  ac_NodeID :: int
  ac_Key :: string
  ac_NodeType :: string
  ac_Timeout :: int
  ac_RuleListPath :: string

record Options =
  op_Name :: string
  op_Core :: string
  op_CoreName :: string
  op_ListenIP :: string
  op_SendIP :: string
  op_DeviceOnlineMinTraffic :: int
  op_ReportMinTraffic :: int
  op_LimitConfig :: LimitConfig
  op_RawOptions :: string
  op_XrayOptions :: "XrayOptions option"
  op_SingOptions :: "SingOptions option"
  op_Hysteria2ConfigPath :: string
  op_CertConfig :: "CertConfig option"

record NodeConfig =
  nc_ApiConfig :: ApiConfig
  nc_Options :: Options

record rawNodeConfig =
  rn_Include :: string
  rn_ApiRaw :: string
  rn_OptRaw :: string

record CoreConfig =
  co_Type :: string
  co_Name :: string
  co_XrayConfig :: "XrayConfig option"
  co_SingConfig :: "SingConfig option"
  co_Hysteria2Config :: "Hysteria2Config option"

record Conf =
  cf_LogConfig :: LogConfig
  cf_CoresConfig :: "CoreConfig list"
  cf_NodeConfig :: "NodeConfig list"

definition newConf :: Conf where
  "newConf = \<lparr>cf_LogConfig = \<lparr>lg_Level = ''info'', lg_Output = []\<rparr>, cf_CoresConfig = [],
     cf_NodeConfig = []\<rparr>"

section \<open>Decoding\<close>

record json_env =
  je_raw :: "string \<Rightarrow> rawNodeConfig \<Rightarrow> rawNodeConfig \<times> err"
  je_api :: "string \<Rightarrow> ApiConfig \<Rightarrow> ApiConfig \<times> err"
  je_opt :: "string \<Rightarrow> Options \<Rightarrow> Options \<times> err"
  je_xrayOpt :: "string \<Rightarrow> XrayOptions \<Rightarrow> XrayOptions \<times> err"
  je_singOpt :: "string \<Rightarrow> SingOptions \<Rightarrow> SingOptions \<times> err"
  je_core :: "string \<Rightarrow> CoreConfig \<Rightarrow> CoreConfig \<times> err"
  je_xray :: "string \<Rightarrow> XrayConfig \<Rightarrow> XrayConfig \<times> err"
  je_sing :: "string \<Rightarrow> SingConfig \<Rightarrow> SingConfig \<times> err"
  je_hy :: "string \<Rightarrow> Hysteria2Config \<Rightarrow> Hysteria2Config \<times> err"
  je_conf :: "string \<Rightarrow> Conf \<Rightarrow> Conf \<times> err"

text \<open>The world outside: opening a file or fetching a URL gives an error, or a reader: its bytes
  and the error of reading them, if any.\<close>

record world =
  wo_open :: "string \<Rightarrow> (string \<times> err) res"
  wo_get :: "string \<Rightarrow> (string \<times> err) res"

text \<open>io.ReadAll of the comment-stripping reader.\<close>

definition readTrimmed :: "string \<times> err \<Rightarrow> string res" where
  "readTrimmed r =
     (case readAll (replicate (length (fst r) + 1) 512) (NewTrimNodeReader r) of
        (b, None) \<Rightarrow> Inr b
      | (b, Some e) \<Rightarrow> Inl e)"

lemma readTrimmed_ok [simp]: "readTrimmed (b, None) = Inr (prep b)"
  using readAll_trimmed [of "replicate (length b + 1) 512" b None "''x''"]
  by (simp add: readTrimmed_def EOF_def list_all_length del: replicate_Suc)

lemma readTrimmed_err [simp]: "e \<noteq> EOF \<Longrightarrow> readTrimmed (b, Some e) = Inl e"
  using readAll_trimmed [of "replicate (length b + 1) 512" b "Some e" e]
  by (simp add: readTrimmed_def list_all_length del: replicate_Suc)

definition CoreConfig_UnmarshalJSON :: "json_env \<Rightarrow> string \<Rightarrow> CoreConfig \<Rightarrow> CoreConfig \<times> err" where
  "CoreConfig_UnmarshalJSON J b c =
     (case je_core J b c of
        (c, Some e) \<Rightarrow> (c, Some e)
      | (c, None) \<Rightarrow>
          if co_Type c = ''xray'' then
            (case je_xray J b NewXrayConfig of (x, e) \<Rightarrow> (c\<lparr>co_XrayConfig := Some x\<rparr>, e))
          else if co_Type c = ''sing'' then
            (case je_sing J b NewSingConfig of (x, e) \<Rightarrow> (c\<lparr>co_SingConfig := Some x\<rparr>, e))
          else if co_Type c = ''hysteria2'' then
            (case je_hy J b NewHysteria2Config of (x, e) \<Rightarrow> (c\<lparr>co_Hysteria2Config := Some x\<rparr>, e))
          else (c, None))"

definition Options_UnmarshalJSON :: "json_env \<Rightarrow> string \<Rightarrow> Options \<Rightarrow> Options \<times> err" where
  "Options_UnmarshalJSON J b p =
     (case je_opt J b p of
        (p, Some e) \<Rightarrow> (p, Some e)
      | (p, None) \<Rightarrow>
          if op_Core p = ''xray'' then
            (case je_xrayOpt J b NewXrayOptions of (x, e) \<Rightarrow> (p\<lparr>op_XrayOptions := Some x\<rparr>, e))
          else if op_Core p = ''sing'' then
            (case je_singOpt J b NewSingOptions of (x, e) \<Rightarrow> (p\<lparr>op_SingOptions := Some x\<rparr>, e))
          else if op_Core p = ''hysteria2'' then (p\<lparr>op_RawOptions := b\<rparr>, None)
          else (p\<lparr>op_Core := [], op_RawOptions := b\<rparr>, None))"

text \<open>The bytes an entry's include gives; only the literal strings http and https are fetched.\<close>

definition includeData :: "world \<Rightarrow> string \<Rightarrow> string res" where
  "includeData W inc =
     (let file = trim_prefix inc '':'' in
      if file = ''http'' \<or> file = ''https'' then
        (case wo_get W file of
           Inl e \<Rightarrow> Inl e
         | Inr r \<Rightarrow> (case readTrimmed r of Inl e \<Rightarrow> Inl (''open include file error: '' @ e) | Inr b \<Rightarrow> Inr b))
      else
        (case wo_open W inc of
           Inl e \<Rightarrow> Inl (''open include file error: '' @ e)
         | Inr r \<Rightarrow> (case readTrimmed r of Inl e \<Rightarrow> Inl (''open include file error: '' @ e) | Inr b \<Rightarrow> Inr b)))"

definition defaultApi :: ApiConfig where
  "defaultApi = \<lparr>ac_APIHost = ''http://127.0.0.1'', ac_APISendIP = [], ac_NodeID = 0, ac_Key = [],
     ac_NodeType = [], ac_Timeout = 30, ac_RuleListPath = []\<rparr>"

definition zeroLimit :: LimitConfig where
  "zeroLimit = \<lparr>lc_EnableRealtime = False, lc_SpeedLimit = 0, lc_IPLimit = 0, lc_ConnLimit = 0,
     lc_EnableIpRecorder = False, lc_IpRecorderConfig = None, lc_EnableDynamicSpeedLimit = False,
     lc_DynamicSpeedLimitConfig = None\<rparr>"

definition defaultOptions :: Options where
  "defaultOptions = \<lparr>op_Name = [], op_Core = [], op_CoreName = [], op_ListenIP = ''0.0.0.0'',
     op_SendIP = ''0.0.0.0'', op_DeviceOnlineMinTraffic = 0, op_ReportMinTraffic = 0,
     op_LimitConfig = zeroLimit, op_RawOptions = [], op_XrayOptions = None, op_SingOptions = None,
     op_Hysteria2ConfigPath = [], op_CertConfig = Some NewCertConfig\<rparr>"

definition fillNode ::
  "json_env \<Rightarrow> rawNodeConfig \<Rightarrow> string \<Rightarrow> NodeConfig \<Rightarrow> NodeConfig \<times> err" where
  "fillNode J rn data n =
     (case je_api J (if rn_ApiRaw rn \<noteq> [] then rn_ApiRaw rn else data) defaultApi of
        (a, Some e) \<Rightarrow> (n\<lparr>nc_ApiConfig := a\<rparr>, Some e)
      | (a, None) \<Rightarrow>
          (case Options_UnmarshalJSON J (if rn_OptRaw rn \<noteq> [] then rn_OptRaw rn else data)
                  defaultOptions of
             (p, e) \<Rightarrow> (n\<lparr>nc_ApiConfig := a, nc_Options := p\<rparr>, e)))"

definition NodeConfig_UnmarshalJSON ::
  "json_env \<Rightarrow> world \<Rightarrow> string \<Rightarrow> NodeConfig \<Rightarrow> NodeConfig \<times> err" where
  "NodeConfig_UnmarshalJSON J W data n =
     (case je_raw J data \<lparr>rn_Include = [], rn_ApiRaw = [], rn_OptRaw = []\<rparr> of
        (rn, Some e) \<Rightarrow> (n, Some e)
      | (rn, None) \<Rightarrow>
          if rn_Include rn = [] then fillNode J rn data n
          else (case includeData W (rn_Include rn) of
              Inl e \<Rightarrow> (n, Some e)
            | Inr data \<Rightarrow>
                (case je_raw J data rn of
                   (rn, Some e) \<Rightarrow> (n, Some (''unmarshal include file error: '' @ e))
                 | (rn, None) \<Rightarrow> fillNode J rn data n)))"

definition LoadFromPath :: "json_env \<Rightarrow> world \<Rightarrow> string \<Rightarrow> Conf \<Rightarrow> Conf \<times> err" where
  "LoadFromPath J W path p =
     (case wo_open W path of
        Inl e \<Rightarrow> (p, Some (''open config file error: '' @ e))
      | Inr r \<Rightarrow> (case readTrimmed r of
          Inl e \<Rightarrow> (p, Some (''read config file error: '' @ e))
        | Inr data \<Rightarrow> (case je_conf J data p of
            (p, None) \<Rightarrow> (p, None)
          | (p, Some e) \<Rightarrow> (p, Some (''unmarshal config error: '' @ e)))))"

section \<open>The watcher\<close>

text \<open>
  The goroutine of Watch, one event at a time: \<open>pre\<close> and the clock are in nanoseconds of Unix time,
  \<open>pre\<close> starts as Go's zero time.  The clock is read for the comparison and, when the event is accepted,
  once more, \<open>fe_wait\<close> later.  An accepted event starts a reload (after five seconds).
\<close>

record fsEvent =
  fe_chmod :: bool
  fe_now :: int
  fe_wait :: nat

definition fe_again :: "fsEvent \<Rightarrow> int" where
  "fe_again e = fe_now e + int (fe_wait e)"

definition zeroTime :: int where
  "zeroTime = - 62135596800 * 1000000000"

definition watchEvent :: "fsEvent \<Rightarrow> int \<Rightarrow> bool \<times> int" where
  "watchEvent e pre =
     (if fe_chmod e then (False, pre)
      else if pre + 10 * 1000000000 > fe_now e then (False, pre)
      else (True, fe_again e))"

fun watchLoop :: "fsEvent list \<Rightarrow> int \<Rightarrow> int list" where
  "watchLoop [] pre = []"
| "watchLoop (e # es) pre =
     (case watchEvent e pre of (go, pre') \<Rightarrow>
        if go then pre' # watchLoop es pre' else watchLoop es pre')"

text \<open>The reload: the configuration is reset, loaded again, and handed to the callback even when
  loading failed (the error is only logged).\<close>

definition reloadConf :: "json_env \<Rightarrow> world \<Rightarrow> string \<Rightarrow> (Conf \<Rightarrow> 'w \<Rightarrow> 'w) \<Rightarrow> 'w \<Rightarrow> 'w" where
  "reloadConf J W path reload w = reload (fst (LoadFromPath J W path newConf)) w"

text \<open>The watched files: watcher.Add is called on the configuration and on each DNS file that is
  set, until one fails.\<close>

definition watchAdds :: "(string \<Rightarrow> err) \<Rightarrow> string \<Rightarrow> string \<Rightarrow> string \<Rightarrow> err" where
  "watchAdds add filePath xDnsPath sDnsPath =
     (case add filePath of
        Some e \<Rightarrow> Some (''watch file error: '' @ e)
      | None \<Rightarrow>
          (case (if xDnsPath \<noteq> [] then add xDnsPath else None) of
             Some e \<Rightarrow> Some (''watch dns file error: '' @ e)
           | None \<Rightarrow>
               (case (if sDnsPath \<noteq> [] then add sDnsPath else None) of
                  Some e \<Rightarrow> Some (''watch dns file error: '' @ e)
                | None \<Rightarrow> None)))"

section \<open>Properties\<close>

text \<open>Successive elements of the list are at least ten seconds apart.\<close>

fun spaced :: "int list \<Rightarrow> bool" where
  "spaced (a # b # ts) = (a + 10000000000 \<le> b \<and> spaced (b # ts))"
| "spaced _ = True"

lemma watchLoop_after: "t \<in> set (watchLoop es pre) \<Longrightarrow> pre + 10000000000 \<le> t"
proof (induction es arbitrary: pre)
  case (Cons e es)
  then show ?case
    by (auto simp: watchEvent_def fe_again_def split: if_splits dest!: Cons.IH)
qed simp

lemma spaced_Cons: "spaced ts \<Longrightarrow> (\<forall>t\<in>set ts. a + 10000000000 \<le> t) \<Longrightarrow> spaced (a # ts)"
  by (cases ts) auto

text \<open>C40: Whatever file events arrive, and in whatever order their clock readings come, the watcher
  starts reloads at least ten seconds apart, each for an event that is no chmod, and it stays idle
  exactly if every event is a chmod or falls within ten seconds of the last accepted one.\<close>

theorem watch_debounced:
  "spaced (watchLoop es pre) \<and>
   set (watchLoop es pre) \<subseteq> fe_again ` {e \<in> set es. \<not> fe_chmod e} \<and>
   (watchLoop es pre = [] \<longleftrightarrow> list_all (\<lambda>e. fe_chmod e \<or> fe_now e < pre + 10000000000) es)"
proof (induction es arbitrary: pre)
  case (Cons e es)
  have later: "\<forall>t\<in>set (watchLoop es (fe_again e)). fe_again e + 10000000000 \<le> t"
    using watchLoop_after by blast
  show ?case
    using Cons.IH [of pre] Cons.IH [of "fe_again e"] spaced_Cons [OF _ later]
    by (auto simp: watchEvent_def)
qed simp

text \<open>An include that is a URL is opened as a file: the scheme is never split off.\<close>

lemma include_url_is_a_file:
  "includeData (W\<lparr>wo_get := g\<rparr>) (''http://'' @ s) = includeData W (''http://'' @ s)"
  by (simp add: includeData_def trim_prefix_def Let_def)

text \<open>A reload of a file that cannot be opened replaces the running configuration by the empty
  defaults and still calls back.\<close>

lemma reload_of_unreadable_file:
  "wo_open W path = Inl e \<Longrightarrow> reloadConf J W path reload w = reload newConf w"
  by (simp add: reloadConf_def LoadFromPath_def)

text \<open>The options a node ends up with know only the three cores: the core name is one of them or
  empty, and the options of the xray or sing core are there when it is named.\<close>

lemma options_core:
  "Options_UnmarshalJSON J b p = (q, None) \<Longrightarrow>
   op_Core q \<in> {''xray'', ''sing'', ''hysteria2'', []} \<and>
   (op_Core q = ''xray'' \<longrightarrow> op_XrayOptions q \<noteq> None) \<and>
   (op_Core q = ''sing'' \<longrightarrow> op_SingOptions q \<noteq> None) \<and>
   (op_Core q = ''hysteria2'' \<longrightarrow> op_RawOptions q = b)"
  by (auto simp: Options_UnmarshalJSON_def split: prod.splits option.splits if_splits)

lemma fillNode_core:
  "fillNode J rn d n = (m, None) \<Longrightarrow>
   op_Core (nc_Options m) \<in> {''xray'', ''sing'', ''hysteria2'', []} \<and>
   (op_Core (nc_Options m) = ''xray'' \<longrightarrow> op_XrayOptions (nc_Options m) \<noteq> None) \<and>
   (op_Core (nc_Options m) = ''sing'' \<longrightarrow> op_SingOptions (nc_Options m) \<noteq> None)"
  using options_core [of J]
  by (fastforce simp: fillNode_def split: prod.splits option.splits)

text \<open>C39: A node entry that decodes without error, from its own bytes or through an include, names
  one of the three cores or none, and carries the option record of its core whenever that is xray
  or sing, so the cores that read it never meet a nil pointer.\<close>

theorem node_config_core_options:
  assumes "NodeConfig_UnmarshalJSON J W data n = (m, None)"
  shows "op_Core (nc_Options m) \<in> {''xray'', ''sing'', ''hysteria2'', []} \<and>
    (op_Core (nc_Options m) = ''xray'' \<longrightarrow> op_XrayOptions (nc_Options m) \<noteq> None) \<and>
    (op_Core (nc_Options m) = ''sing'' \<longrightarrow> op_SingOptions (nc_Options m) \<noteq> None)"
proof -
  from assms obtain rn d where "fillNode J rn d n = (m, None)"
    by (auto simp: NodeConfig_UnmarshalJSON_def split: prod.splits option.splits if_splits sum.splits)
  then show ?thesis by (rule fillNode_core)
qed

definition wit_json :: json_env where
  "wit_json = \<lparr>je_raw = (\<lambda>b r. if b = ''inc'' then (r\<lparr>rn_Include := ''f''\<rparr>, None) else (r, None)),
     je_api = (\<lambda>b a. (a, None)), je_opt = (\<lambda>b p. (p\<lparr>op_Core := ''xray''\<rparr>, None)),
     je_xrayOpt = (\<lambda>b x. (x, None)), je_singOpt = (\<lambda>b x. (x, None)), je_core = (\<lambda>b x. (x, None)),
     je_xray = (\<lambda>b x. (x, None)), je_sing = (\<lambda>b x. (x, None)), je_hy = (\<lambda>b x. (x, None)),
     je_conf = (\<lambda>b x. (x, None))\<rparr>"

definition wit_world :: world where
  "wit_world = \<lparr>wo_open = (\<lambda>f. Inr (''y'', None)), wo_get = (\<lambda>u. Inl ''e'')\<rparr>"

definition wit_node :: NodeConfig where
  "wit_node = \<lparr>nc_ApiConfig = defaultApi, nc_Options = defaultOptions\<rparr>"

lemma wit_decodes:
  "NodeConfig_UnmarshalJSON wit_json wit_world ''inc'' wit_node
   = (wit_node\<lparr>nc_Options := defaultOptions\<lparr>op_Core := ''xray'', op_XrayOptions := Some NewXrayOptions\<rparr>\<rparr>, None)"
  by code_simp

theorem node_config_core_options_witness:
  "op_XrayOptions (defaultOptions\<lparr>op_Core := ''xray'', op_XrayOptions := Some NewXrayOptions\<rparr>) \<noteq> None"
  using node_config_core_options [OF wit_decodes] by simp

text \<open>The file of that world can be read.\<close>

lemma wit_readable: "\<exists>d. readTrimmed (''y'', None) = Inr d"
proof -
  have "(case readTrimmed (''y'', None) of Inl e \<Rightarrow> False | Inr d \<Rightarrow> True)"
    by code_simp
  then show ?thesis
    by (auto split: sum.split_asm)
qed

end
