(* ===== verification/Limiter.thy ===== *)
theory Limiter
  imports User_Tag
begin

text \<open>
  The package limiter: per-node user limits, device (IP) accounting, speed-limit buckets
  and audit rules (limiter/limiter.go, limiter/dynamic.go, limiter/rule.go).

  The token bucket of github.com/juju/ratelimit is the parameter \<open>'b\<close>, made by the
  parameter \<open>newBucket interval capacity quantum\<close>; the wall clock is the parameter
  \<open>now\<close> (seconds); a compiled regular expression is the predicate it decides.
\<close>

section \<open>State\<close>

record UserLimitInfo =
  uli_UID :: int
  uli_SpeedLimit :: int
  uli_DeviceLimit :: int
  uli_DynamicSpeedLimit :: int
  uli_ExpireTime :: int
  uli_OverLimit :: bool

definition zero_UserLimitInfo :: UserLimitInfo where
  "zero_UserLimitInfo = \<lparr>uli_UID = 0, uli_SpeedLimit = 0, uli_DeviceLimit = 0,
     uli_DynamicSpeedLimit = 0, uli_ExpireTime = 0, uli_OverLimit = False\<rparr>"

text \<open>\<open>UserOnlineIP\<close> maps a TagUUID to the map from its online IPs to its uid.\<close>

record 'b Limiter =
  l_DomainRules :: "(string \<Rightarrow> bool) list"
  l_ProtocolRules :: "string list"
  l_SpeedLimit :: int
  l_UserOnlineIP :: "(string, (string, int) gomap) gomap"
  l_OldUserOnline :: "(string, int) gomap"
  l_UUIDtoUID :: "(string, int) gomap"
  l_UserLimitInfo :: "(string, UserLimitInfo) gomap"
  l_SpeedLimiter :: "(string, 'b) gomap"
  l_AliveList :: "(int, int) gomap"

record Rules =
  r_Regexp :: "string list"
  r_Protocol :: "string list"

section \<open>Construction and the registry of limiters\<close>

text \<open>The record AddLimiter stores for one user; limits are copied when they are not zero.\<close>

definition newUserLimit :: "UserInfo \<Rightarrow> UserLimitInfo" where
  "newUserLimit u = zero_UserLimitInfo\<lparr>uli_UID := ui_Id u,
     uli_SpeedLimit := (if ui_SpeedLimit u \<noteq> 0 then ui_SpeedLimit u else 0),
     uli_DeviceLimit := (if ui_DeviceLimit u \<noteq> 0 then ui_DeviceLimit u else 0),
     uli_OverLimit := False\<rparr>"

definition makeLimiter ::
  "string \<Rightarrow> int \<Rightarrow> UserInfo list \<Rightarrow> (int, int) gomap \<Rightarrow> 'b Limiter" where
  "makeLimiter tag speedLimit users aliveList =
     \<lparr>l_DomainRules = [], l_ProtocolRules = [], l_SpeedLimit = speedLimit,
      l_UserOnlineIP = [], l_OldUserOnline = [],
      l_UUIDtoUID = fold (\<lambda>u. mstore (ui_Uuid u) (ui_Id u)) users [],
      l_UserLimitInfo =
        fold (\<lambda>u. mstore (UserTag tag (ui_Uuid u)) (newUserLimit u)) users [],
      l_SpeedLimiter = [], l_AliveList = aliveList\<rparr>"

text \<open>The package variable \<open>limiter\<close>, a map from node tags.\<close>

type_synonym 'b registry = "(string, 'b Limiter) gomap"

definition Init :: "'b registry" where
  "Init = []"

definition AddLimiter ::
  "string \<Rightarrow> int \<Rightarrow> UserInfo list \<Rightarrow> (int, int) gomap \<Rightarrow> 'b registry \<Rightarrow> 'b Limiter \<times> 'b registry" where
  "AddLimiter tag speedLimit users aliveList reg =
     (let info = makeLimiter tag speedLimit users aliveList in (info, mstore tag info reg))"

definition GetLimiter :: "string \<Rightarrow> 'b registry \<Rightarrow> 'b Limiter res" where
  "GetLimiter tag reg = (case map_of reg tag of None \<Rightarrow> Inl ''not found'' | Some info \<Rightarrow> Inr info)"

definition DeleteLimiter :: "string \<Rightarrow> 'b registry \<Rightarrow> 'b registry" where
  "DeleteLimiter tag reg = mdelete tag reg"

section \<open>Updates of the user set\<close>

definition deleteUser :: "string \<Rightarrow> UserInfo \<Rightarrow> 'b Limiter \<Rightarrow> 'b Limiter" where
  "deleteUser tag u l = l\<lparr>
     l_UserLimitInfo := mdelete (UserTag tag (ui_Uuid u)) (l_UserLimitInfo l),
     l_UserOnlineIP := mdelete (UserTag tag (ui_Uuid u)) (l_UserOnlineIP l),
     l_SpeedLimiter := mdelete (UserTag tag (ui_Uuid u)) (l_SpeedLimiter l),
     l_UUIDtoUID := mdelete (ui_Uuid u) (l_UUIDtoUID l),
     l_AliveList := mdelete (ui_Id u) (l_AliveList l)\<rparr>"

definition addUser :: "string \<Rightarrow> UserInfo \<Rightarrow> 'b Limiter \<Rightarrow> 'b Limiter" where
  "addUser tag u l = l\<lparr>
     l_UserLimitInfo := mstore (UserTag tag (ui_Uuid u)) (newUserLimit u) (l_UserLimitInfo l),
     l_UUIDtoUID := mstore (ui_Uuid u) (ui_Id u) (l_UUIDtoUID l)\<rparr>"

definition UpdateUser ::
  "string \<Rightarrow> UserInfo list \<Rightarrow> UserInfo list \<Rightarrow> 'b Limiter \<Rightarrow> 'b Limiter" where
  "UpdateUser tag added deleted l = fold (addUser tag) added (fold (deleteUser tag) deleted l)"

definition UpdateDynamicSpeedLimit ::
  "string \<Rightarrow> string \<Rightarrow> int \<Rightarrow> int \<Rightarrow> 'b Limiter \<Rightarrow> err \<times> 'b Limiter" where
  "UpdateDynamicSpeedLimit tag uuid limit expire l =
     (case map_of (l_UserLimitInfo l) (UserTag tag uuid) of
        Some info \<Rightarrow> (None, l\<lparr>l_UserLimitInfo := mstore (UserTag tag uuid)
            (info\<lparr>uli_DynamicSpeedLimit := limit, uli_ExpireTime := expire\<rparr>) (l_UserLimitInfo l)\<rparr>)
      | None \<Rightarrow> (Some ''not found'', l))"

definition AddDynamicSpeedLimit ::
  "int \<Rightarrow> string \<Rightarrow> UserInfo \<Rightarrow> int \<Rightarrow> int \<Rightarrow> 'b Limiter \<Rightarrow> err \<times> 'b Limiter" where
  "AddDynamicSpeedLimit now tag u limitNum expire l =
     (None, l\<lparr>l_UserLimitInfo := mstore (UserTag tag (ui_Uuid u))
        (zero_UserLimitInfo\<lparr>uli_DynamicSpeedLimit := limitNum, uli_ExpireTime := now + expire\<rparr>)
        (l_UserLimitInfo l)\<rparr>)"

section \<open>Admission of a connection\<close>

definition determineSpeedLimit :: "int \<Rightarrow> int \<Rightarrow> int" where
  "determineSpeedLimit limit1 limit2 =
     (if limit1 = 0 \<or> limit2 = 0 then
        (if limit1 > limit2 then limit1 else if limit1 < limit2 then limit2 else 0)
      else
        (if limit1 > limit2 then limit2 else if limit1 < limit2 then limit1 else limit1))"

text \<open>The user's own speed limit, and what an expired dynamic limit does to his entry.\<close>

definition userSpeed :: "int \<Rightarrow> string \<Rightarrow> UserLimitInfo \<Rightarrow> 'b Limiter \<Rightarrow> int \<times> 'b Limiter" where
  "userSpeed now taguuid u l =
     (if uli_ExpireTime u < now \<and> uli_ExpireTime u \<noteq> 0 then
        (if uli_SpeedLimit u \<noteq> 0 then
           (uli_SpeedLimit u, l\<lparr>l_UserLimitInfo := mstore taguuid
              (u\<lparr>uli_DynamicSpeedLimit := 0, uli_ExpireTime := 0\<rparr>) (l_UserLimitInfo l)\<rparr>)
         else (0, l\<lparr>l_UserLimitInfo := mdelete taguuid (l_UserLimitInfo l)\<rparr>))
      else (determineSpeedLimit (uli_SpeedLimit u) (uli_DynamicSpeedLimit u), l))"

text \<open>Device accounting: the new state and whether the connection is refused.\<close>

definition consumeOld :: "string \<Rightarrow> int \<Rightarrow> int \<Rightarrow> 'b Limiter \<Rightarrow> 'b Limiter" where
  "consumeOld ip v uid l =
     (if v = uid then l\<lparr>l_OldUserOnline := mdelete ip (l_OldUserOnline l)\<rparr> else l)"

definition checkDevice ::
  "string \<Rightarrow> string \<Rightarrow> int \<Rightarrow> int \<Rightarrow> 'b Limiter \<Rightarrow> bool \<times> 'b Limiter" where
  "checkDevice taguuid ip uid deviceLimit l =
     (let aliveIp = mget0 (l_AliveList l) uid in
      case map_of (l_UserOnlineIP l) taguuid of
        Some oldipMap \<Rightarrow>
          (case map_of oldipMap ip of
             Some _ \<Rightarrow> (False, l)
           | None \<Rightarrow>
               let l1 = l\<lparr>l_UserOnlineIP := mstore taguuid (mstore ip uid oldipMap) (l_UserOnlineIP l)\<rparr>
               in (case map_of (l_OldUserOnline l1) ip of
                     Some v \<Rightarrow> (False, consumeOld ip v uid l1)
                   | None \<Rightarrow>
                       if deviceLimit > 0 \<and> deviceLimit \<le> aliveIp
                       then (True, l1\<lparr>l_UserOnlineIP := mstore taguuid
                               (mdelete ip (mstore ip uid oldipMap)) (l_UserOnlineIP l1)\<rparr>)
                       else (False, l1)))
      | None \<Rightarrow>
          let l1 = l\<lparr>l_UserOnlineIP := mstore taguuid (mstore ip uid []) (l_UserOnlineIP l)\<rparr>
          in (case map_of (l_OldUserOnline l1) ip of
                Some v \<Rightarrow> (False, consumeOld ip v uid l1)
              | None \<Rightarrow>
                  if deviceLimit > 0 \<and> deviceLimit \<le> aliveIp
                  then (True, l1\<lparr>l_UserOnlineIP := mdelete taguuid (l_UserOnlineIP l1)\<rparr>)
                  else (False, l1)))"

text \<open>Bytes per second for a limit in Mbit/s, computed in int64; the bucket of the user.\<close>

definition byteRate :: "int \<Rightarrow> int" where
  "byteRate mbps = go_div (wrap64 (mbps * 1000000)) 8"

definition second :: int where
  "second = 1000000000"

definition pickBucket ::
  "(int \<Rightarrow> int \<Rightarrow> int \<Rightarrow> 'b) \<Rightarrow> string \<Rightarrow> int \<Rightarrow> 'b Limiter \<Rightarrow> 'b option \<times> 'b Limiter" where
  "pickBucket newBucket taguuid userLimit l =
     (let limit = byteRate (determineSpeedLimit (l_SpeedLimit l) userLimit) in
      if limit > 0 then
        (case map_of (l_SpeedLimiter l) taguuid of
           Some v \<Rightarrow> (Some v, l)
         | None \<Rightarrow> let b = newBucket second limit limit in
             (Some b, l\<lparr>l_SpeedLimiter := mstore taguuid b (l_SpeedLimiter l)\<rparr>))
      else (None, l))"

definition CheckLimit ::
  "(int \<Rightarrow> int \<Rightarrow> int \<Rightarrow> 'b) \<Rightarrow> int \<Rightarrow> string \<Rightarrow> string \<Rightarrow> bool \<Rightarrow> bool \<Rightarrow> 'b Limiter
     \<Rightarrow> ('b option \<times> bool) \<times> 'b Limiter" where
  "CheckLimit newBucket now taguuid ip isTcp noSSUDP l =
     (let ip = trim_prefix ip ''::ffff:'' in
      case map_of (l_UserLimitInfo l) taguuid of
        None \<Rightarrow> ((None, True), l)
      | Some u \<Rightarrow>
          let (userLimit, l1) = userSpeed now taguuid u l;
              (reject, l2) = (if noSSUDP then checkDevice taguuid ip (uli_UID u) (uli_DeviceLimit u) l1
                              else (False, l1))
          in if reject then ((None, True), l2)
             else let (bucket, l3) = pickBucket newBucket taguuid userLimit l2
                  in ((bucket, False), l3))"

section \<open>The report of online devices\<close>

definition onlineOf :: "(string \<times> (string, int) gomap) \<Rightarrow> OnlineUser list" where
  "onlineOf e = map (\<lambda>(ip, uid). \<lparr>ou_UID = uid, ou_IP = ip\<rparr>) (snd e)"

definition GetOnlineDevice :: "'b Limiter \<Rightarrow> OnlineUser list \<times> 'b Limiter" where
  "GetOnlineDevice l =
     (let onlineUser = concat (map onlineOf (l_UserOnlineIP l)) in
      (onlineUser, l\<lparr>
         l_OldUserOnline := fold (\<lambda>w. mstore (ou_IP w) (ou_UID w)) onlineUser [],
         l_UserOnlineIP := fold (\<lambda>e. mdelete (fst e)) (l_UserOnlineIP l) (l_UserOnlineIP l)\<rparr>))"

section \<open>Audit rules\<close>

primrec CheckDomainRule_loop :: "(string \<Rightarrow> bool) list \<Rightarrow> string \<Rightarrow> bool" where
  "CheckDomainRule_loop [] destination = False"
| "CheckDomainRule_loop (r # rs) destination =
     (if r destination then True else CheckDomainRule_loop rs destination)"

definition CheckDomainRule :: "'b Limiter \<Rightarrow> string \<Rightarrow> bool" where
  "CheckDomainRule l destination = CheckDomainRule_loop (l_DomainRules l) destination"

primrec CheckProtocolRule_loop :: "string list \<Rightarrow> string \<Rightarrow> bool" where
  "CheckProtocolRule_loop [] protocol = False"
| "CheckProtocolRule_loop (r # rs) protocol =
     (if r = protocol then True else CheckProtocolRule_loop rs protocol)"

definition CheckProtocolRule :: "'b Limiter \<Rightarrow> string \<Rightarrow> bool" where
  "CheckProtocolRule l protocol = CheckProtocolRule_loop (l_ProtocolRules l) protocol"

text \<open>regexp.MustCompile panics on an invalid expression; \<open>compile\<close> is None there.\<close>

primrec compileAll :: "(string \<Rightarrow> (string \<Rightarrow> bool) option) \<Rightarrow> string list \<Rightarrow> (string \<Rightarrow> bool) list option" where
  "compileAll compile [] = Some []"
| "compileAll compile (p # ps) =
     (case compile p of None \<Rightarrow> None
      | Some r \<Rightarrow> (case compileAll compile ps of None \<Rightarrow> None | Some rs \<Rightarrow> Some (r # rs)))"

definition UpdateRule ::
  "(string \<Rightarrow> (string \<Rightarrow> bool) option) \<Rightarrow> Rules \<Rightarrow> 'b Limiter \<Rightarrow> (err \<times> 'b Limiter) outcome" where
  "UpdateRule compile rule l =
     (case compileAll compile (r_Regexp rule) of
        None \<Rightarrow> Panic
      | Some rs \<Rightarrow> Ret (None, l\<lparr>l_DomainRules := rs, l_ProtocolRules := r_Protocol rule\<rparr>))"

section \<open>Lemmas: admission\<close>

text \<open>What the code checks before it counts an address as a new device of a user.\<close>

definition knownIP :: "'b Limiter \<Rightarrow> string \<Rightarrow> string \<Rightarrow> bool" where
  "knownIP l taguuid ip \<longleftrightarrow>
     (case map_of (l_UserOnlineIP l) taguuid of None \<Rightarrow> False | Some m \<Rightarrow> map_of m ip \<noteq> None)
     \<or> map_of (l_OldUserOnline l) ip \<noteq> None"

definition overDevices :: "'b Limiter \<Rightarrow> UserLimitInfo \<Rightarrow> bool" where
  "overDevices l u \<longleftrightarrow> 0 < uli_DeviceLimit u \<and> uli_DeviceLimit u \<le> mget0 (l_AliveList l) (uli_UID u)"

definition sameOnline :: "'b Limiter \<Rightarrow> 'b Limiter \<Rightarrow> bool" where
  "sameOnline l l' \<longleftrightarrow> l_OldUserOnline l' = l_OldUserOnline l \<and>
     (\<forall>t. map_option map_of (map_of (l_UserOnlineIP l') t) = map_option map_of (map_of (l_UserOnlineIP l) t))"

lemma userSpeed_frame:
  "l_UserOnlineIP (snd (userSpeed now t u l)) = l_UserOnlineIP l"
  "l_OldUserOnline (snd (userSpeed now t u l)) = l_OldUserOnline l"
  "l_AliveList (snd (userSpeed now t u l)) = l_AliveList l"
  "l_SpeedLimiter (snd (userSpeed now t u l)) = l_SpeedLimiter l"
  "l_SpeedLimit (snd (userSpeed now t u l)) = l_SpeedLimit l"
  by (auto simp: userSpeed_def)

lemma consumeOld_frame:
  "l_UserOnlineIP (consumeOld ip v uid l) = l_UserOnlineIP l"
  "l_UserLimitInfo (consumeOld ip v uid l) = l_UserLimitInfo l"
  "l_SpeedLimiter (consumeOld ip v uid l) = l_SpeedLimiter l"
  "l_SpeedLimit (consumeOld ip v uid l) = l_SpeedLimit l"
  "l_AliveList (consumeOld ip v uid l) = l_AliveList l"
  by (auto simp: consumeOld_def)

lemma checkDevice_frame:
  "l_UserLimitInfo (snd (checkDevice t ip uid d l)) = l_UserLimitInfo l"
  "l_SpeedLimiter (snd (checkDevice t ip uid d l)) = l_SpeedLimiter l"
  "l_SpeedLimit (snd (checkDevice t ip uid d l)) = l_SpeedLimit l"
  "l_AliveList (snd (checkDevice t ip uid d l)) = l_AliveList l"
  by (auto simp: checkDevice_def Let_def consumeOld_frame split: option.splits)

lemma pickBucket_frame:
  "l_UserOnlineIP (snd (pickBucket nb t s l)) = l_UserOnlineIP l"
  "l_OldUserOnline (snd (pickBucket nb t s l)) = l_OldUserOnline l"
  "l_UserLimitInfo (snd (pickBucket nb t s l)) = l_UserLimitInfo l"
  by (auto simp: pickBucket_def Let_def split: option.splits)

lemmas limiter_frame = userSpeed_frame consumeOld_frame checkDevice_frame pickBucket_frame

lemma knownIP_cong:
  "l_UserOnlineIP l' = l_UserOnlineIP l \<Longrightarrow> l_OldUserOnline l' = l_OldUserOnline l \<Longrightarrow>
   knownIP l' = knownIP l"
  by (simp add: knownIP_def fun_eq_iff)

lemma checkDevice_reject:
  "fst (checkDevice t ip uid d l) \<longleftrightarrow>
     \<not> knownIP l t ip \<and> 0 < d \<and> d \<le> mget0 (l_AliveList l) uid"
  by (auto simp: checkDevice_def knownIP_def Let_def split: option.splits)

lemma checkDevice_reject_same:
  "fst (checkDevice t ip uid d l) \<Longrightarrow> sameOnline l (snd (checkDevice t ip uid d l))"
  by (auto simp: checkDevice_def sameOnline_def Let_def gomap_simps split: option.splits if_splits)

lemma checkDevice_accept_records:
  assumes "\<not> fst (checkDevice t ip uid d l)"
  shows "\<exists>m. map_of (l_UserOnlineIP (snd (checkDevice t ip uid d l))) t = Some m \<and> map_of m ip \<noteq> None"
  using assms
  by (auto simp: checkDevice_def Let_def consumeOld_frame gomap_simps split: option.splits if_splits)

lemma CheckLimit_unknown:
  "map_of (l_UserLimitInfo l) t = None \<Longrightarrow> CheckLimit nb now t ip tcp ns l = ((None, True), l)"
  by (simp add: CheckLimit_def)

lemma CheckLimit_known:
  assumes "map_of (l_UserLimitInfo l) t = Some u"
  shows "CheckLimit nb now t ip tcp ns l =
    (let l1 = snd (userSpeed now t u l);
         r = (if ns then checkDevice t (trim_prefix ip ''::ffff:'') (uli_UID u) (uli_DeviceLimit u) l1
              else (False, l1))
     in if fst r then ((None, True), snd r)
        else ((fst (pickBucket nb t (fst (userSpeed now t u l)) (snd r)), False),
              snd (pickBucket nb t (fst (userSpeed now t u l)) (snd r))))"
  using assms by (simp add: CheckLimit_def Let_def split_beta)

lemma CheckLimit_keeps_info:
  assumes "map_of (l_UserLimitInfo l) t = Some u" and "uli_ExpireTime u = 0 \<or> now \<le> uli_ExpireTime u"
  shows "l_UserLimitInfo (snd (CheckLimit nb now t ip tcp ns l)) = l_UserLimitInfo l"
proof -
  have "l_UserLimitInfo (snd (userSpeed now t u l)) = l_UserLimitInfo l"
    using assms(2) by (auto simp: userSpeed_def)
  then show ?thesis by (simp add: CheckLimit_known [OF assms(1)] Let_def limiter_frame)
qed

lemma CheckLimit_rejects:
  "snd (fst (CheckLimit nb now taguuid ip tcp noSSUDP l)) \<longleftrightarrow>
     (case map_of (l_UserLimitInfo l) taguuid of
        None \<Rightarrow> True
      | Some u \<Rightarrow> noSSUDP \<and> \<not> knownIP l taguuid (trim_prefix ip ''::ffff:'') \<and> overDevices l u)"
proof (cases "map_of (l_UserLimitInfo l) taguuid")
  case None
  then show ?thesis by (simp add: CheckLimit_unknown)
next
  case (Some u)
  have "knownIP (snd (userSpeed now taguuid u l)) = knownIP l"
    by (rule knownIP_cong) (simp_all add: limiter_frame)
  then show ?thesis
    by (simp add: CheckLimit_known [OF Some] Some Let_def checkDevice_reject limiter_frame overDevices_def)
qed

text \<open>C6: A connection is refused exactly when the user is not registered, or the transport is
  subject to device counting, the (IPv4-unmapped) address is neither online for the user nor
  reported in the last period, and the panel already counts as many devices as he may have.\<close>

theorem CheckLimit_reject_iff:
  "snd (fst (CheckLimit nb now taguuid ip tcp noSSUDP l)) \<longleftrightarrow>
     (case map_of (l_UserLimitInfo l) taguuid of
        None \<Rightarrow> True
      | Some u \<Rightarrow> noSSUDP \<and> \<not> knownIP l taguuid (trim_prefix ip ''::ffff:'') \<and> overDevices l u)"
  by (rule CheckLimit_rejects)

text \<open>A refused connection leaves no trace in the device accounting: the online addresses of
  every user and the addresses carried over from the last period read as before.\<close>

theorem CheckLimit_reject_no_trace:
  assumes "snd (fst (CheckLimit nb now taguuid ip tcp noSSUDP l))"
  shows "sameOnline l (snd (CheckLimit nb now taguuid ip tcp noSSUDP l))"
proof (cases "map_of (l_UserLimitInfo l) taguuid")
  case None
  then show ?thesis by (simp add: CheckLimit_unknown sameOnline_def)
next
  case (Some u)
  let ?l1 = "snd (userSpeed now taguuid u l)"
  let ?d = "checkDevice taguuid (trim_prefix ip ''::ffff:'') (uli_UID u) (uli_DeviceLimit u) ?l1"
  from assms have rej: "noSSUDP" "fst ?d"
    by (auto simp: CheckLimit_known [OF Some] Let_def split: if_splits)
  then have "sameOnline ?l1 (snd ?d)" by (simp add: checkDevice_reject_same)
  with rej show ?thesis
    by (simp add: CheckLimit_known [OF Some] Let_def sameOnline_def limiter_frame)
qed

lemma CheckLimit_records:
  assumes "\<not> snd (fst (CheckLimit nb now taguuid ip tcp True l))"
  shows "\<exists>m. map_of (l_UserOnlineIP (snd (CheckLimit nb now taguuid ip tcp True l))) taguuid = Some m
            \<and> map_of m (trim_prefix ip ''::ffff:'') \<noteq> None"
proof (cases "map_of (l_UserLimitInfo l) taguuid")
  case None
  with assms show ?thesis by (simp add: CheckLimit_unknown)
next
  case (Some u)
  let ?l1 = "snd (userSpeed now taguuid u l)"
  from Some assms
  have "\<not> fst (checkDevice taguuid (trim_prefix ip ''::ffff:'') (uli_UID u) (uli_DeviceLimit u) ?l1)"
    by (auto simp: CheckLimit_known [OF Some] Let_def split: if_splits)
  then show ?thesis
    by (simp only: CheckLimit_known [OF Some] Let_def limiter_frame if_True if_False snd_conv)
       (rule checkDevice_accept_records)
qed

text \<open>An accepted connection that is subject to device counting is on record: its address is
  among the online addresses of the user afterwards, so the next report counts it.\<close>

theorem CheckLimit_accept_records:
  assumes "\<not> snd (fst (CheckLimit nb now taguuid ip tcp True l))"
  shows "\<exists>m. map_of (l_UserOnlineIP (snd (CheckLimit nb now taguuid ip tcp True l))) taguuid = Some m
            \<and> map_of m (trim_prefix ip ''::ffff:'') \<noteq> None"
  by (rule CheckLimit_records [OF assms])

text \<open>The least limit that is set, zero when none is.\<close>

definition leastSet :: "int list \<Rightarrow> int" where
  "leastSet xs = (let ys = filter (\<lambda>x. x \<noteq> 0) xs in if ys = [] then 0 else Min (set ys))"

lemma determineSpeedLimit_nonneg:
  "0 \<le> a \<Longrightarrow> 0 \<le> b \<Longrightarrow> determineSpeedLimit a b = (if a = 0 then b else if b = 0 then a else min a b)"
  by (auto simp: determineSpeedLimit_def)

lemma determineSpeedLimit_leastSet:
  "0 \<le> a \<Longrightarrow> 0 \<le> b \<Longrightarrow> 0 \<le> c \<Longrightarrow>
   determineSpeedLimit a (determineSpeedLimit b c) = leastSet [a, b, c]"
  by (auto simp: determineSpeedLimit_nonneg leastSet_def min_def)

lemma byteRate_exact: "0 \<le> m \<Longrightarrow> m \<le> 9223372036854 \<Longrightarrow> byteRate m = 125000 * m"
  by (simp add: byteRate_def goint_simps in_int64_def go_div_pos)

lemma byteRate_0 [simp]: "byteRate 0 = 0"
  by (simp add: byteRate_def wrap64_def go_div_def)

lemma leastSet_bound:
  "0 \<le> a \<Longrightarrow> a \<le> n \<Longrightarrow> 0 \<le> b \<Longrightarrow> b \<le> n \<Longrightarrow> 0 \<le> c \<Longrightarrow> c \<le> n \<Longrightarrow>
   0 \<le> leastSet [a, b, c] \<and> leastSet [a, b, c] \<le> n"
  by (auto simp: leastSet_def min_def)

definition saneLimit :: "int \<Rightarrow> bool" where
  "saneLimit m \<longleftrightarrow> 0 \<le> m \<and> m \<le> 9223372036854"

text \<open>C18: The speed of an accepted connection.  The limit that counts is the least that is set among the
  node's, the user's own and the dynamic one, the last only until it expires.  When none is set the
  connection gets no bucket.  Otherwise it gets the bucket the user already has, whatever rate that
  was made for, and a user without one gets a bucket that is refilled every second with exactly 125000
  bytes per Mbit/s of this limit, and keeps it.  Limits are below 2^63/10^6 Mbit/s, where the int64
  product does not wrap.\<close>

theorem CheckLimit_rate:
  assumes "map_of (l_UserLimitInfo l) taguuid = Some u"
    and "saneLimit (l_SpeedLimit l)" and "saneLimit (uli_SpeedLimit u)"
    and "saneLimit (uli_DynamicSpeedLimit u)"
    and "CheckLimit nb now taguuid ip tcp noSSUDP l = ((b, False), l')"
  shows "(let m = leastSet [l_SpeedLimit l, uli_SpeedLimit u,
            if uli_ExpireTime u \<noteq> 0 \<and> uli_ExpireTime u < now then 0 else uli_DynamicSpeedLimit u]
     in b = (if m = 0 then None
             else case map_of (l_SpeedLimiter l) taguuid of
                 Some v \<Rightarrow> Some v
               | None \<Rightarrow> Some (nb second (125000 * m) (125000 * m))) \<and>
        map_of (l_SpeedLimiter l') taguuid = (if m = 0 then map_of (l_SpeedLimiter l) taguuid else b))"
proof -
  define d where "d = (if uli_ExpireTime u \<noteq> 0 \<and> uli_ExpireTime u < now then 0 else uli_DynamicSpeedLimit u)"
  define m where "m = leastSet [l_SpeedLimit l, uli_SpeedLimit u, d]"
  have d: "saneLimit d"
    using assms(4) by (simp add: d_def saneLimit_def)
  have speed: "fst (userSpeed now taguuid u l) = determineSpeedLimit (uli_SpeedLimit u) d"
    using assms(3) by (auto simp: userSpeed_def d_def determineSpeedLimit_def saneLimit_def)
  have m: "0 \<le> m" "m \<le> 9223372036854"
    using assms(2,3) d leastSet_bound [of "l_SpeedLimit l" 9223372036854]
    by (simp_all add: saneLimit_def m_def)
  have rate: "byteRate (determineSpeedLimit (l_SpeedLimit l) (fst (userSpeed now taguuid u l))) = 125000 * m"
    using assms(2,3) d m by (simp add: speed m_def saneLimit_def determineSpeedLimit_leastSet byteRate_exact)
  from assms(5) show ?thesis
    using m unfolding d_def [symmetric] m_def [symmetric]
    by (auto simp: CheckLimit_known [OF assms(1)] Let_def pickBucket_def limiter_frame rate gomap_simps
        split: if_splits option.splits)
qed

text \<open>A bucket, once made, is kept: while a user has a cached bucket, an accepted connection
  with any positive limit gets that bucket, whatever the limits are by then.  In particular a
  dynamic limit set by UpdateDynamicSpeedLimit does not slow down a user who already has one.\<close>

theorem CheckLimit_sticky_bucket:
  assumes "map_of (l_SpeedLimiter l) taguuid = Some b"
    and "\<not> snd (fst (CheckLimit nb now taguuid ip tcp noSSUDP l))"
  shows "fst (fst (CheckLimit nb now taguuid ip tcp noSSUDP l)) \<in> {None, Some b}
    \<and> map_of (l_SpeedLimiter (snd (CheckLimit nb now taguuid ip tcp noSSUDP l))) taguuid = Some b"
proof (cases "map_of (l_UserLimitInfo l) taguuid")
  case None
  with assms(2) show ?thesis by (simp add: CheckLimit_unknown)
next
  case (Some u)
  with assms show ?thesis
    by (auto simp: CheckLimit_known [OF Some] Let_def pickBucket_def limiter_frame split: if_splits)
qed

text \<open>When the dynamic limit of a user without a limit of his own has expired, the next
  connection removes his entry altogether: this connection may still be accepted, every later one
  is refused until the user list brings him back.\<close>

theorem CheckLimit_expiry_locks_out:
  assumes "map_of (l_UserLimitInfo l) taguuid = Some u"
    and "uli_ExpireTime u \<noteq> 0" and "uli_ExpireTime u < now" and "uli_SpeedLimit u = 0"
  shows "snd (fst (CheckLimit nb now' taguuid ip' tcp' ns'
           (snd (CheckLimit nb now taguuid ip tcp ns l))))"
proof -
  have "map_of (l_UserLimitInfo (snd (CheckLimit nb now taguuid ip tcp ns l))) taguuid = None"
    using assms(2-4)
    by (auto simp: CheckLimit_known [OF assms(1)] Let_def userSpeed_def limiter_frame gomap_simps)
  then show ?thesis by (simp add: CheckLimit_unknown)
qed

section \<open>Lemmas: the report of online devices\<close>

lemma fold_mdelete_keys: "fold (\<lambda>e. mdelete (fst e)) es m = filter (\<lambda>e. fst e \<notin> fst ` set es) m"
  by (induction es arbitrary: m)
     (auto simp: mdelete_def AList.delete_eq intro: filter_cong)

lemma fold_mdelete_self: "fold (\<lambda>e. mdelete (fst e)) m m = []"
  by (auto simp: fold_mdelete_keys filter_empty_conv)

lemma dom_fold_mstore: "map_of (fold (\<lambda>w. mstore (f w) (g w)) ws m) k = None \<longleftrightarrow>
    k \<notin> f ` set ws \<and> map_of m k = None"
  by (induction ws arbitrary: m) (auto simp: gomap_simps)

lemma set_onlineOf: "set (concat (map onlineOf es)) =
    {w. \<exists>t m. (t, m) \<in> set es \<and> (ou_IP w, ou_UID w) \<in> set m}"
  by (force simp: onlineOf_def image_iff)

lemma fold_mstore_from: "map_of (fold (\<lambda>w. mstore (f w) (g w)) ws m) k = Some v \<Longrightarrow>
    (\<exists>w\<in>set ws. f w = k \<and> g w = v) \<or> map_of m k = Some v"
  by (induction ws arbitrary: m) (fastforce simp: gomap_simps split: if_splits)+

text \<open>C19: The report lists exactly the recorded pairs of address and uid, over all users; the
  online addresses are empty afterwards, and the addresses carried over to the next period are
  exactly the reported ones, each with a uid it was reported for (one of them, when users share
  the address).  The entries of the users are not touched.\<close>

theorem GetOnlineDevice_spec:
  "set (fst (GetOnlineDevice l)) =
       {w. \<exists>t m. (t, m) \<in> set (l_UserOnlineIP l) \<and> (ou_IP w, ou_UID w) \<in> set m}
   \<and> l_UserOnlineIP (snd (GetOnlineDevice l)) = []
   \<and> (\<forall>ip. case map_of (l_OldUserOnline (snd (GetOnlineDevice l))) ip of
           None \<Rightarrow> ip \<notin> ou_IP ` set (fst (GetOnlineDevice l))
         | Some uid \<Rightarrow> \<lparr>ou_UID = uid, ou_IP = ip\<rparr> \<in> set (fst (GetOnlineDevice l)))
   \<and> l_UserLimitInfo (snd (GetOnlineDevice l)) = l_UserLimitInfo l"
proof -
  let ?old = "map_of (l_OldUserOnline (snd (GetOnlineDevice l)))" and ?rep = "fst (GetOnlineDevice l)"
  have old: "l_OldUserOnline (snd (GetOnlineDevice l)) = fold (\<lambda>w. mstore (ou_IP w) (ou_UID w)) ?rep []"
    by (simp add: GetOnlineDevice_def Let_def)
  have "\<lparr>ou_UID = uid, ou_IP = ip\<rparr> \<in> set ?rep" if at: "?old ip = Some uid" for ip uid
  proof -
    obtain w where w: "w \<in> set ?rep" "ou_IP w = ip" "ou_UID w = uid"
      using fold_mstore_from [OF at [unfolded old]] by auto
    have "w = \<lparr>ou_UID = uid, ou_IP = ip\<rparr>"
      using w(2,3) by simp
    then show ?thesis using w(1) by blast
  qed
  moreover have "?old ip = None \<longleftrightarrow> ip \<notin> ou_IP ` set ?rep" for ip
    unfolding old dom_fold_mstore by simp
  ultimately have "case ?old ip of None \<Rightarrow> ip \<notin> ou_IP ` set ?rep
      | Some uid \<Rightarrow> \<lparr>ou_UID = uid, ou_IP = ip\<rparr> \<in> set ?rep" for ip
    by (simp split: option.split)
  then show ?thesis
    by (simp add: GetOnlineDevice_def Let_def set_onlineOf fold_mdelete_self del: set_concat)
qed

lemma GetOnlineDevice_carries:
  assumes "map_of (l_UserOnlineIP l) t = Some m" and "map_of m ip \<noteq> None"
  shows "map_of (l_OldUserOnline (snd (GetOnlineDevice l))) ip \<noteq> None"
proof -
  from assms obtain uid where "(t, m) \<in> set (l_UserOnlineIP l)" and "(ip, uid) \<in> set m"
    by (auto dest: map_of_SomeD)
  then have "\<lparr>ou_UID = uid, ou_IP = ip\<rparr> \<in> set (concat (map onlineOf (l_UserOnlineIP l)))"
    unfolding set_onlineOf by auto
  then have "ip \<in> ou_IP ` set (concat (map onlineOf (l_UserOnlineIP l)))"
    by (metis OnlineUser.select_convs(2) imageI)
  then show ?thesis
    by (simp add: GetOnlineDevice_def Let_def dom_fold_mstore del: set_concat not_None_eq)
qed


section \<open>Lemmas: the user set\<close>

lemma fold_deleteUser:
  "l_UserLimitInfo (fold (deleteUser tag) us l)
     = fold (\<lambda>u. mdelete (UserTag tag (ui_Uuid u))) us (l_UserLimitInfo l)"
  "l_UserOnlineIP (fold (deleteUser tag) us l)
     = fold (\<lambda>u. mdelete (UserTag tag (ui_Uuid u))) us (l_UserOnlineIP l)"
  "l_SpeedLimiter (fold (deleteUser tag) us l)
     = fold (\<lambda>u. mdelete (UserTag tag (ui_Uuid u))) us (l_SpeedLimiter l)"
  "l_UUIDtoUID (fold (deleteUser tag) us l)
     = fold (\<lambda>u. mdelete (ui_Uuid u)) us (l_UUIDtoUID l)"
  "l_AliveList (fold (deleteUser tag) us l) = fold (\<lambda>u. mdelete (ui_Id u)) us (l_AliveList l)"
  "l_OldUserOnline (fold (deleteUser tag) us l) = l_OldUserOnline l"
  by (induction us arbitrary: l) (simp_all add: deleteUser_def)

lemma fold_addUser:
  "l_UserLimitInfo (fold (addUser tag) us l)
     = fold (\<lambda>u. mstore (UserTag tag (ui_Uuid u)) (newUserLimit u)) us (l_UserLimitInfo l)"
  "l_UserOnlineIP (fold (addUser tag) us l) = l_UserOnlineIP l"
  "l_SpeedLimiter (fold (addUser tag) us l) = l_SpeedLimiter l"
  "l_UUIDtoUID (fold (addUser tag) us l)
     = fold (\<lambda>u. mstore (ui_Uuid u) (ui_Id u)) us (l_UUIDtoUID l)"
  "l_AliveList (fold (addUser tag) us l) = l_AliveList l"
  "l_OldUserOnline (fold (addUser tag) us l) = l_OldUserOnline l"
  by (induction us arbitrary: l) (simp_all add: addUser_def)

lemma image_UserTag: "UserTag tag uuid \<in> (\<lambda>u. UserTag tag (ui_Uuid u)) ` A \<longleftrightarrow> uuid \<in> ui_Uuid ` A"
  by auto

lemmas userset_simps = UpdateUser_def fold_deleteUser fold_addUser image_UserTag
  gm.load_del_all gm.load_put_all_other gm.load_put_all_in

lemma UpdateUser_added:
  assumes "inj_on ui_Uuid (set added)" and "u \<in> set added"
  shows "map_of (l_UserLimitInfo (UpdateUser tag added deleted l)) (UserTag tag (ui_Uuid u))
           = Some (newUserLimit u)"
    and "map_of (l_UUIDtoUID (UpdateUser tag added deleted l)) (ui_Uuid u) = Some (ui_Id u)"
  using assms gm.load_put_all_in [OF assms(2), where f = "\<lambda>u. UserTag tag (ui_Uuid u)"]
    gm.load_put_all_in [OF assms(2) assms(1)]
  by (simp_all add: UpdateUser_def fold_deleteUser fold_addUser inj_UserTag)

lemma UpdateUser_deleted:
  assumes "uuid \<in> ui_Uuid ` set deleted"
  shows "map_of (l_UserOnlineIP (UpdateUser tag added deleted l)) (UserTag tag uuid) = None"
    and "map_of (l_SpeedLimiter (UpdateUser tag added deleted l)) (UserTag tag uuid) = None"
    and "uuid \<notin> ui_Uuid ` set added \<Longrightarrow>
      map_of (l_UserLimitInfo (UpdateUser tag added deleted l)) (UserTag tag uuid) = None"
  using assms by (simp_all add: userset_simps)

lemma UpdateUser_kept:
  assumes "uuid \<notin> ui_Uuid ` set deleted"
  shows "map_of (l_UserOnlineIP (UpdateUser tag added deleted l)) (UserTag tag uuid)
           = map_of (l_UserOnlineIP l) (UserTag tag uuid)"
    and "map_of (l_SpeedLimiter (UpdateUser tag added deleted l)) (UserTag tag uuid)
           = map_of (l_SpeedLimiter l) (UserTag tag uuid)"
    and "uuid \<notin> ui_Uuid ` set added \<Longrightarrow>
      map_of (l_UserLimitInfo (UpdateUser tag added deleted l)) (UserTag tag uuid)
           = map_of (l_UserLimitInfo l) (UserTag tag uuid)"
  using assms by (simp_all add: userset_simps)

lemma UpdateUser_others:
  "uuid \<notin> ui_Uuid ` set added \<Longrightarrow> map_of (l_UUIDtoUID (UpdateUser tag added deleted l)) uuid =
     (if uuid \<in> ui_Uuid ` set deleted then None else map_of (l_UUIDtoUID l) uuid)"
  "map_of (l_AliveList (UpdateUser tag added deleted l)) n =
     (if n \<in> ui_Id ` set deleted then None else map_of (l_AliveList l) n)"
  "l_OldUserOnline (UpdateUser tag added deleted l) = l_OldUserOnline l"
  by (simp_all add: userset_simps)

text \<open>C17: What a change of the user list does.  Added users have exactly their new limits; deleted
  users who are not added back have no entry, no recorded address, no bucket and no id (and a user who
  is deleted and added back starts with no address and no bucket); the panel's count of devices is
  forgotten for exactly the deleted ids; everybody else's entry, addresses, bucket, id and count are
  untouched.  The addresses carried over from the last report stay, those of deleted users included.\<close>

theorem UpdateUser_spec:
  assumes "inj_on ui_Uuid (set added)" and "l' = UpdateUser tag added deleted l"
  shows "(\<forall>u \<in> set added.
            map_of (l_UserLimitInfo l') (UserTag tag (ui_Uuid u)) = Some (newUserLimit u)
          \<and> map_of (l_UUIDtoUID l') (ui_Uuid u) = Some (ui_Id u))
    \<and> (\<forall>uuid \<in> ui_Uuid ` set deleted.
            map_of (l_UserOnlineIP l') (UserTag tag uuid) = None
          \<and> map_of (l_SpeedLimiter l') (UserTag tag uuid) = None
          \<and> (uuid \<notin> ui_Uuid ` set added \<longrightarrow> map_of (l_UserLimitInfo l') (UserTag tag uuid) = None
                \<and> map_of (l_UUIDtoUID l') uuid = None))
    \<and> (\<forall>uuid. uuid \<notin> ui_Uuid ` set deleted \<longrightarrow>
            map_of (l_UserOnlineIP l') (UserTag tag uuid) = map_of (l_UserOnlineIP l) (UserTag tag uuid)
          \<and> map_of (l_SpeedLimiter l') (UserTag tag uuid) = map_of (l_SpeedLimiter l) (UserTag tag uuid)
          \<and> (uuid \<notin> ui_Uuid ` set added \<longrightarrow>
              map_of (l_UserLimitInfo l') (UserTag tag uuid) = map_of (l_UserLimitInfo l) (UserTag tag uuid)
            \<and> map_of (l_UUIDtoUID l') uuid = map_of (l_UUIDtoUID l) uuid))
    \<and> (\<forall>n. map_of (l_AliveList l') n = (if n \<in> ui_Id ` set deleted then None else map_of (l_AliveList l) n))
    \<and> l_OldUserOnline l' = l_OldUserOnline l"
  unfolding assms(2)
  by (intro conjI ballI allI impI)
     (simp_all add: UpdateUser_added [OF assms(1)] UpdateUser_deleted UpdateUser_kept UpdateUser_others)

section \<open>Invariant of the reachable limiters\<close>

text \<open>
  The operations the program performs on one limiter, in any order: admissions (from any of
  the cores), the periodic report, user changes, dynamic limits, rule and alive-list updates.
\<close>

inductive limiter_step :: "(int \<Rightarrow> int \<Rightarrow> int \<Rightarrow> 'b) \<Rightarrow> 'b Limiter \<Rightarrow> 'b Limiter \<Rightarrow> bool" for nb where
  step_CheckLimit: "limiter_step nb l (snd (CheckLimit nb now taguuid ip tcp ns l))"
| step_GetOnlineDevice: "limiter_step nb l (snd (GetOnlineDevice l))"
| step_UpdateUser: "limiter_step nb l (UpdateUser tag added deleted l)"
| step_UpdateDynamicSpeedLimit: "limiter_step nb l (snd (UpdateDynamicSpeedLimit tag uuid lim expire l))"
| step_AddDynamicSpeedLimit: "limiter_step nb l (snd (AddDynamicSpeedLimit now tag u lim expire l))"
| step_UpdateRule: "UpdateRule compile rule l = Ret (e, l') \<Longrightarrow> limiter_step nb l l'"
| step_AliveList: "limiter_step nb l (l\<lparr>l_AliveList := alive\<rparr>)"

inductive limiter_reach :: "(int \<Rightarrow> int \<Rightarrow> int \<Rightarrow> 'b) \<Rightarrow> 'b Limiter \<Rightarrow> bool" for nb where
  reach_init: "limiter_reach nb (makeLimiter tag speed users alive)"
| reach_step: "limiter_reach nb l \<Longrightarrow> limiter_step nb l l' \<Longrightarrow> limiter_reach nb l'"

inductive_cases limiter_stepE: "limiter_step nb l l'"

text \<open>Every user with recorded addresses has at least one, and every cached bucket was made for a
  positive rate, with its quantum equal to its capacity.\<close>

definition lim_inv :: "(int \<Rightarrow> int \<Rightarrow> int \<Rightarrow> 'b) \<Rightarrow> 'b Limiter \<Rightarrow> bool" where
  "lim_inv nb l \<longleftrightarrow>
     (\<forall>t m. map_of (l_UserOnlineIP l) t = Some m \<longrightarrow> (\<exists>ip. map_of m ip \<noteq> None)) \<and>
     (\<forall>t b. map_of (l_SpeedLimiter l) t = Some b \<longrightarrow> (\<exists>r>0. b = nb second r r))"

definition online_nonempty :: "'b Limiter \<Rightarrow> bool" where
  "online_nonempty l \<longleftrightarrow>
     (\<forall>t m. map_of (l_UserOnlineIP l) t = Some m \<longrightarrow> (\<exists>ip. map_of m ip \<noteq> None))"

definition buckets_positive :: "(int \<Rightarrow> int \<Rightarrow> int \<Rightarrow> 'b) \<Rightarrow> 'b Limiter \<Rightarrow> bool" where
  "buckets_positive nb l \<longleftrightarrow>
     (\<forall>t b. map_of (l_SpeedLimiter l) t = Some b \<longrightarrow> (\<exists>r>0. b = nb second r r))"

lemma lim_inv_split: "lim_inv nb l \<longleftrightarrow> online_nonempty l \<and> buckets_positive nb l"
  by (simp add: lim_inv_def online_nonempty_def buckets_positive_def)

lemma online_nonempty_cong: "l_UserOnlineIP l' = l_UserOnlineIP l \<Longrightarrow> online_nonempty l' = online_nonempty l"
  by (simp add: online_nonempty_def)

lemma buckets_positive_cong: "l_SpeedLimiter l' = l_SpeedLimiter l \<Longrightarrow> buckets_positive nb l' = buckets_positive nb l"
  by (simp add: buckets_positive_def)

lemma checkDevice_online_nonempty:
  assumes "online_nonempty l"
  shows "online_nonempty (snd (checkDevice t ip uid d l))"
proof (cases "fst (checkDevice t ip uid d l)")
  case True
  then have same: "map_option map_of (map_of (l_UserOnlineIP (snd (checkDevice t ip uid d l))) t')
      = map_option map_of (map_of (l_UserOnlineIP l) t')" for t'
    using checkDevice_reject_same sameOnline_def by blast
  show ?thesis
    unfolding online_nonempty_def
  proof (intro allI impI)
    fix t' m
    assume "map_of (l_UserOnlineIP (snd (checkDevice t ip uid d l))) t' = Some m"
    with same [of t'] obtain m0 where "map_of (l_UserOnlineIP l) t' = Some m0" "map_of m0 = map_of m"
      by (auto simp: map_option_case split: option.splits)
    with assms show "\<exists>ip. map_of m ip \<noteq> None"
      unfolding online_nonempty_def by metis
  qed
next
  case False
  with assms show ?thesis
    by (auto simp: checkDevice_def online_nonempty_def consumeOld_frame Let_def gomap_simps
        split: option.splits if_splits)
qed

lemma pickBucket_positive:
  "buckets_positive nb l \<Longrightarrow> buckets_positive nb (snd (pickBucket nb t s l))"
  by (auto simp: pickBucket_def buckets_positive_def Let_def gomap_simps split: option.splits)

lemma pickBucket_online: "online_nonempty (snd (pickBucket nb t s l)) = online_nonempty l"
  by (rule online_nonempty_cong) (simp add: limiter_frame)

lemma CheckLimit_inv: "lim_inv nb l \<Longrightarrow> lim_inv nb (snd (CheckLimit nb now t ip tcp ns l))"
proof (cases "map_of (l_UserLimitInfo l) t")
  case None
  assume "lim_inv nb l"
  with None show ?thesis by (simp add: CheckLimit_unknown)
next
  case (Some u)
  assume inv: "lim_inv nb l"
  let ?l1 = "snd (userSpeed now t u l)"
  let ?l2 = "snd (checkDevice t (trim_prefix ip ''::ffff:'') (uli_UID u) (uli_DeviceLimit u) ?l1)"
  have l1: "online_nonempty ?l1" "buckets_positive nb ?l1"
    using inv by (simp_all add: lim_inv_def online_nonempty_def buckets_positive_def limiter_frame)
  then have l2: "online_nonempty ?l2" "buckets_positive nb ?l2"
    by (auto intro: checkDevice_online_nonempty simp: buckets_positive_def limiter_frame)
  show ?thesis
    using l1 l2 pickBucket_positive [OF l1(2)] pickBucket_positive [OF l2(2)]
    by (simp add: CheckLimit_known [OF Some] lim_inv_split Let_def pickBucket_online)
qed

lemma UpdateUser_inv: "lim_inv nb l \<Longrightarrow> lim_inv nb (UpdateUser tag added deleted l)"
  by (auto simp: lim_inv_def UpdateUser_def fold_addUser fold_deleteUser gm.load_del_all)

lemma limiter_step_inv: "limiter_step nb l l' \<Longrightarrow> lim_inv nb l \<Longrightarrow> lim_inv nb l'"
proof (induction rule: limiter_step.induct)
  case (step_CheckLimit l now taguuid ip tcp ns)
  then show ?case by (rule CheckLimit_inv)
next
  case (step_UpdateUser l tag added deleted)
  then show ?case by (rule UpdateUser_inv)
next
  case (step_GetOnlineDevice l)
  then show ?case
    by (simp add: lim_inv_def GetOnlineDevice_def Let_def fold_mdelete_self)
next
  case (step_UpdateDynamicSpeedLimit l tag uuid lim expire)
  then show ?case
    by (auto simp: lim_inv_def UpdateDynamicSpeedLimit_def split: option.splits)
next
  case (step_UpdateRule compile rule l e l')
  then show ?case by (auto simp: lim_inv_def UpdateRule_def split: option.splits)
qed (simp_all add: lim_inv_def AddDynamicSpeedLimit_def)

text \<open>C21: Whatever sequence of operations is performed on a limiter that AddLimiter made, no user
  is left with an empty set of online addresses, and every bucket it hands out was made for a
  positive rate with quantum equal to capacity.\<close>

theorem limiter_reach_inv:
  assumes "limiter_reach nb l"
  shows "lim_inv nb l"
  using assms
proof (induction rule: limiter_reach.induct)
  case (reach_init tag speed users alive)
  show ?case by (simp add: lim_inv_def makeLimiter_def)
next
  case (reach_step l l')
  then show ?case by (blast intro: limiter_step_inv)
qed

section \<open>Lemmas: registry and rules\<close>

text \<open>The registry keeps one limiter per node tag: right after AddLimiter its tag finds the
  new limiter, which knows every listed user with his limits and nobody else; after DeleteLimiter
  the tag finds nothing; other tags are not affected by either.\<close>

theorem registry_spec:
  assumes "inj_on ui_Uuid (set users)"
    and "AddLimiter tag speed users alive reg = (info, reg')"
  shows "GetLimiter tag reg' = Inr info
    \<and> (\<forall>u \<in> set users. map_of (l_UserLimitInfo info) (UserTag tag (ui_Uuid u)) = Some (newUserLimit u))
    \<and> (\<forall>t. t \<notin> (\<lambda>u. UserTag tag (ui_Uuid u)) ` set users \<longrightarrow> map_of (l_UserLimitInfo info) t = None)
    \<and> GetLimiter tag (DeleteLimiter tag reg') = Inl ''not found''
    \<and> (\<forall>tag'. tag' \<noteq> tag \<longrightarrow> GetLimiter tag' reg' = GetLimiter tag' reg
          \<and> GetLimiter tag' (DeleteLimiter tag reg) = GetLimiter tag' reg)"
proof -
  have info: "info = makeLimiter tag speed users alive" "reg' = mstore tag info reg"
    using assms(2) by (auto simp: AddLimiter_def Let_def)
  have inj: "inj_on (\<lambda>u. UserTag tag (ui_Uuid u)) (set users)"
    using assms(1) by (simp add: inj_UserTag)
  have known: "\<forall>u \<in> set users.
      map_of (l_UserLimitInfo info) (UserTag tag (ui_Uuid u)) = Some (newUserLimit u)"
    by (simp add: info makeLimiter_def gm.load_put_all_in [OF _ inj])
  have unknown: "map_of (l_UserLimitInfo info) t = None"
    if "t \<notin> (\<lambda>u. UserTag tag (ui_Uuid u)) ` set users" for t
    using that by (simp add: info makeLimiter_def gm.load_put_all_other)
  show ?thesis
    using known unknown by (simp add: GetLimiter_def DeleteLimiter_def info(2) gomap_simps)
qed

lemma CheckDomainRule_iff: "CheckDomainRule l d \<longleftrightarrow> (\<exists>r \<in> set (l_DomainRules l). r d)"
proof -
  have "CheckDomainRule_loop rs d \<longleftrightarrow> (\<exists>r \<in> set rs. r d)" for rs
    by (induction rs) auto
  then show ?thesis by (simp add: CheckDomainRule_def)
qed

lemma CheckProtocolRule_iff: "CheckProtocolRule l p \<longleftrightarrow> p \<in> set (l_ProtocolRules l)"
proof -
  have "CheckProtocolRule_loop rs p \<longleftrightarrow> p \<in> set rs" for rs
    by (induction rs) auto
  then show ?thesis by (simp add: CheckProtocolRule_def)
qed

lemma compileAll_Some:
  "compileAll compile ps = Some rs \<Longrightarrow> list_all2 (\<lambda>p r. compile p = Some r) ps rs"
  by (induction ps arbitrary: rs) (auto split: option.splits)

lemma compileAll_None: "compileAll compile ps = None \<longleftrightarrow> (\<exists>p \<in> set ps. compile p = None)"
  by (induction ps) (auto split: option.splits)

lemma UpdateRule_domain:
  assumes "UpdateRule compile rule l = Ret (e, l')"
  shows "CheckDomainRule l' d \<longleftrightarrow> (\<exists>p \<in> set (r_Regexp rule). \<exists>r. compile p = Some r \<and> r d)"
proof -
  from assms have "compileAll compile (r_Regexp rule) = Some (l_DomainRules l')"
    by (auto simp: UpdateRule_def split: option.splits)
  then have all2: "list_all2 (\<lambda>p r. compile p = Some r) (r_Regexp rule) (l_DomainRules l')"
    by (rule compileAll_Some)
  show ?thesis
  proof
    assume "CheckDomainRule l' d"
    then obtain r where "r \<in> set (l_DomainRules l')" "r d"
      unfolding CheckDomainRule_iff by blast
    then obtain i where i: "i < length (l_DomainRules l')" "(l_DomainRules l' ! i) d"
      by (metis in_set_conv_nth)
    with all2 have "compile (r_Regexp rule ! i) = Some (l_DomainRules l' ! i)"
      "i < length (r_Regexp rule)" by (auto simp: list_all2_conv_all_nth)
    with i show "\<exists>p \<in> set (r_Regexp rule). \<exists>r. compile p = Some r \<and> r d"
      by (metis nth_mem)
  next
    assume "\<exists>p \<in> set (r_Regexp rule). \<exists>r. compile p = Some r \<and> r d"
    then obtain i r where i: "i < length (r_Regexp rule)" "compile (r_Regexp rule ! i) = Some r" "r d"
      by (metis in_set_conv_nth)
    with all2 have "l_DomainRules l' ! i = r" "i < length (l_DomainRules l')"
      by (auto simp: list_all2_conv_all_nth)
    then have "r \<in> set (l_DomainRules l')" by (metis nth_mem)
    with i(3) show "CheckDomainRule l' d"
      unfolding CheckDomainRule_iff by blast
  qed
qed

section \<open>Witnesses\<close>

definition wit_user :: UserInfo where
  "wit_user = \<lparr>ui_Id = 7, ui_Uuid = ''u'', ui_SpeedLimit = 10, ui_DeviceLimit = 1\<rparr>"

definition wit_bucket :: "int \<Rightarrow> int \<Rightarrow> int \<Rightarrow> int \<times> int \<times> int" where
  "wit_bucket i c q = (i, c, q)"

definition wit_limiter :: "(int, int) gomap \<Rightarrow> (int \<times> int \<times> int) Limiter" where
  "wit_limiter alive = makeLimiter ''n'' 100 [wit_user] alive"

definition wit_dynamic :: "(int \<times> int \<times> int) Limiter" where
  "wit_dynamic = snd (UpdateDynamicSpeedLimit ''n'' ''u'' 5 50
     (makeLimiter ''n'' 0 [wit_user\<lparr>ui_SpeedLimit := 0\<rparr>] []))"

lemmas wit_simps = wit_user_def wit_bucket_def wit_limiter_def wit_dynamic_def makeLimiter_def
  UserTag_def newUserLimit_def zero_UserLimitInfo_def mstore_def UpdateDynamicSpeedLimit_def

text \<open>The concrete runs the witnesses use: a first connection that is accepted, one that is refused.\<close>

lemma wit_accepted: "\<not> snd (fst (CheckLimit wit_bucket 0 ''n|u'' ''1.2.3.4'' True True (wit_limiter [])))"
  by (simp add: CheckLimit_rejects wit_simps overDevices_def mget0_def)

lemma wit_refused: "snd (fst (CheckLimit wit_bucket 0 ''n|u'' ''1.2.3.4'' True True (wit_limiter [(7, 1)])))"
  by (simp add: CheckLimit_rejects wit_simps overDevices_def knownIP_def mget0_def)

theorem CheckLimit_reject_no_trace_witness:
  "sameOnline (wit_limiter [(7, 1)])
     (snd (CheckLimit wit_bucket 0 ''n|u'' ''1.2.3.4'' True True (wit_limiter [(7, 1)])))"
  by (rule CheckLimit_reject_no_trace [OF wit_refused])

theorem CheckLimit_accept_records_witness:
  "\<exists>m. map_of (l_UserOnlineIP (snd (CheckLimit wit_bucket 0 ''n|u'' ''1.2.3.4'' True True (wit_limiter []))))
         ''n|u'' = Some m \<and> map_of m ''1.2.3.4'' \<noteq> None"
  using CheckLimit_accept_records [OF wit_accepted] by (simp add: trim_prefix_def)

theorem CheckLimit_rate_witness:
  "\<exists>l'. CheckLimit wit_bucket 0 ''n|u'' ''1.2.3.4'' True True (wit_limiter []) = ((Some (1000000000, 1250000, 1250000), False), l') \<and>
     map_of (l_SpeedLimiter l') ''n|u'' = Some (1000000000, 1250000, 1250000)"
proof -
  have u: "map_of (l_UserLimitInfo (wit_limiter [])) ''n|u'' = Some (newUserLimit wit_user)"
    by (simp add: wit_simps)
  obtain b l' where c: "CheckLimit wit_bucket 0 ''n|u'' ''1.2.3.4'' True True (wit_limiter []) = ((b, False), l')"
    using wit_accepted by (metis prod.collapse)
  from CheckLimit_rate [OF u _ _ _ c] show ?thesis
    using c by (simp add: wit_simps saneLimit_def leastSet_def Let_def second_def)
qed

theorem CheckLimit_sticky_bucket_witness:
  "fst (fst (CheckLimit wit_bucket 0 ''n|u'' ''1.2.3.4'' True True
      ((wit_limiter [])\<lparr>l_SpeedLimiter := [(''n|u'', (1, 2, 3))]\<rparr>))) \<in> {None, Some (1, 2, 3)}"
proof -
  let ?l = "(wit_limiter [])\<lparr>l_SpeedLimiter := [(''n|u'', (1, 2, 3))]\<rparr>"
  have "map_of (l_SpeedLimiter ?l) ''n|u'' = Some (1, 2, 3)" by simp
  moreover have "\<not> snd (fst (CheckLimit wit_bucket 0 ''n|u'' ''1.2.3.4'' True True ?l))"
    by (simp add: CheckLimit_rejects wit_simps overDevices_def mget0_def)
  ultimately show ?thesis by (rule CheckLimit_sticky_bucket [THEN conjunct1])
qed

theorem CheckLimit_expiry_locks_out_witness:
  "\<not> snd (fst (CheckLimit wit_bucket 60 ''n|u'' ''1.2.3.4'' True True wit_dynamic))
   \<and> snd (fst (CheckLimit wit_bucket 61 ''n|u'' ''1.2.3.4'' True True
       (snd (CheckLimit wit_bucket 60 ''n|u'' ''1.2.3.4'' True True wit_dynamic))))"
proof -
  have u: "map_of (l_UserLimitInfo wit_dynamic) ''n|u'' =
     Some ((newUserLimit (wit_user\<lparr>ui_SpeedLimit := 0\<rparr>))\<lparr>uli_DynamicSpeedLimit := 5, uli_ExpireTime := 50\<rparr>)"
    by (simp add: wit_simps)
  have "\<not> snd (fst (CheckLimit wit_bucket 60 ''n|u'' ''1.2.3.4'' True True wit_dynamic))"
    by (simp add: CheckLimit_rejects u overDevices_def mget0_def wit_simps)
  with CheckLimit_expiry_locks_out [OF u, of 60 wit_bucket 61] show ?thesis
    by (simp add: wit_simps)
qed


theorem UpdateUser_spec_witness:
  "map_of (l_UserLimitInfo (UpdateUser ''n'' [wit_user] [wit_user] (wit_limiter []))) ''n|u''
     = Some (newUserLimit wit_user)"
proof -
  have "inj_on ui_Uuid (set [wit_user])" by simp
  from UpdateUser_spec [OF this refl, of "''n''" "[wit_user]" "wit_limiter []"] show ?thesis
    by (simp add: UserTag_def wit_user_def)
qed

theorem limiter_reach_inv_witness:
  "lim_inv wit_bucket (snd (CheckLimit wit_bucket 0 ''n|u'' ''1.2.3.4'' True True (wit_limiter [])))"
proof -
  have "limiter_reach wit_bucket (wit_limiter [])"
    unfolding wit_limiter_def by (rule reach_init)
  then have "limiter_reach wit_bucket
      (snd (CheckLimit wit_bucket 0 ''n|u'' ''1.2.3.4'' True True (wit_limiter [])))"
    by (rule reach_step) (rule step_CheckLimit)
  then show ?thesis by (rule limiter_reach_inv)
qed

theorem registry_spec_witness:
  "GetLimiter ''n'' (snd (AddLimiter ''n'' 100 [wit_user] [] [])) = Inr (wit_limiter [])"
proof -
  have "AddLimiter ''n'' 100 [wit_user] [] [] = (wit_limiter [], snd (AddLimiter ''n'' 100 [wit_user] [] []))"
    by (simp add: AddLimiter_def wit_limiter_def Let_def)
  from registry_spec [OF _ this] show ?thesis by simp
qed

end
