(* ===== verification/Panel.thy ===== *)
theory Panel
  imports User_Tag Conf Limiter Complex_Main
begin

text \<open>
  The panel client of api/panel: the node and user records, the conditional polling of the node
  configuration and the user list, and the reports.

  The HTTP client is the parameter \<open>server\<close>: a request gives a response (or nil) and an error (or
  nil).  Decoding bytes into a struct by its tags, and SHA-256, are parameters of the operations.
\<close>

section \<open>Records of the panel\<close>

text \<open>A value that encoding/json decodes into an interface; numbers are its float64s.\<close>

datatype jval =
    JNull
  | JBool bool
  | JNum rat
  | JStr string
  | JArr "jval list"
  | JObj "(string \<times> jval) list"

record Route =
  rt_Id :: int
  rt_Match :: jval
  rt_Action :: string
  rt_ActionValue :: string

record BaseConfig =
  bc_PushInterval :: jval
  bc_PullInterval :: jval

record CommonNode =
  cn_Host :: string
  cn_ServerPort :: int
  cn_ServerName :: string
  cn_Routes :: "Route list"
  cn_BaseConfig :: "BaseConfig option"

record TlsSettings =
  ts_ServerName :: string
  ts_Dest :: string
  ts_ServerPort :: string
  ts_ShortId :: string
  ts_PrivateKey :: string
  ts_Mldsa65Seed :: string
  ts_Xver :: int

record EncSettings =
  es_Mode :: string
  es_Ticket :: string
  es_ServerPadding :: string
  es_PrivateKey :: string

record RealityConfig =
  rl_Xver :: int
  rl_MinClientVer :: string
  rl_MaxClientVer :: string
  rl_MaxTimeDiff :: string

record VAllssNode =
  va_CommonNode :: CommonNode
  va_Tls :: int
  va_TlsSettings :: TlsSettings
  va_TlsSettingsBack :: "TlsSettings option"
  va_Network :: string
  va_NetworkSettings :: string
  va_NetworkSettingsBack :: string
  va_Encryption :: string
  va_EncryptionSettings :: EncSettings
  va_ServerName :: string
  va_Flow :: string
  va_RealityConfig :: RealityConfig

record ShadowsocksNode =
  sh_CommonNode :: CommonNode
  sh_Cipher :: string
  sh_ServerKey :: string

record TrojanNode =
  tj_CommonNode :: CommonNode
  tj_Network :: string
  tj_NetworkSettings :: string

record TuicNode =
  tu_CommonNode :: CommonNode
  tu_CongestionControl :: string
  tu_ZeroRTTHandshake :: bool

record AnyTlsNode =
  an_CommonNode :: CommonNode
  an_PaddingScheme :: "string list"

record HysteriaNode =
  h1_CommonNode :: CommonNode
  h1_UpMbps :: int
  h1_DownMbps :: int
  h1_Obfs :: string

record Hysteria2Node =
  h2_CommonNode :: CommonNode
  h2_Ignore_Client_Bandwidth :: bool
  h2_UpMbps :: int
  h2_DownMbps :: int
  h2_ObfsType :: string
  h2_ObfsPassword :: string

text \<open>A DNS entry of a node: the server's address and the domains it answers.\<close>

record dnsEntry =
  de_address :: string
  de_domains :: "string list"

record RawDNS =
  dn_DNSMap :: "(string, dnsEntry) gomap"
  dn_DNSJson :: string

record NodeInfo =
  ni_Id :: int
  ni_Type :: string
  ni_Security :: int
  ni_PushInterval :: int
  ni_PullInterval :: int
  ni_RawDNS :: RawDNS
  ni_Rules :: Rules
  ni_VAllss :: "VAllssNode option"
  ni_Shadowsocks :: "ShadowsocksNode option"
  ni_Trojan :: "TrojanNode option"
  ni_Tuic :: "TuicNode option"
  ni_AnyTls :: "AnyTlsNode option"
  ni_Hysteria :: "HysteriaNode option"
  ni_Hysteria2 :: "Hysteria2Node option"
  ni_Common :: "CommonNode option"

definition secNone :: int where "secNone = 0"

definition secTls :: int where "secTls = 1"

definition secReality :: int where "secReality = 2"

section \<open>The client\<close>

record Resty =
  rs_LocalIP :: "string option"
  rs_RetryCount :: int
  rs_Timeout :: int
  rs_BaseURL :: string
  rs_QueryParams :: "(string, string) gomap"

record Client =
  cl_client :: Resty
  cl_APIHost :: string
  cl_APISendIP :: string
  cl_Token :: string
  cl_NodeType :: string
  cl_NodeId :: int
  cl_nodeEtag :: string
  cl_userEtag :: string
  cl_responseBodyHash :: string
  cl_UserList :: "UserInfo list"
  cl_AliveMap :: "(int, int) gomap option"

definition nodeTypes :: "string list" where
  "nodeTypes = [''vmess'', ''trojan'', ''shadowsocks'', ''hysteria'', ''hysteria2'', ''tuic'',
     ''anytls'', ''vless'']"

text \<open>The switch of New over the lowered node type: the type used from then on.\<close>

definition checkNodeType :: "string \<Rightarrow> string res" where
  "checkNodeType t =
     (let t = to_lower t in
      if t = ''v2ray'' then Inr ''vmess''
      else if t \<in> set nodeTypes then Inr t
      else Inl (''unsupported Node type: '' @ t))"

definition newClient :: "(string \<Rightarrow> string) \<Rightarrow> ApiConfig \<Rightarrow> Client res" where
  "newClient parseIP c =
     (case checkNodeType (ac_NodeType c) of
        Inl e \<Rightarrow> Inl e
      | Inr t \<Rightarrow> Inr \<lparr>
          cl_client = \<lparr>
            rs_LocalIP = (if ac_APISendIP c \<noteq> [] then Some (parseIP (ac_APISendIP c)) else None),
            rs_RetryCount = 3,
            rs_Timeout = (if ac_Timeout c > 0 then wrap64 (ac_Timeout c * 1000000000) else 5000000000),
            rs_BaseURL = ac_APIHost c,
            rs_QueryParams = [(''node_type'', t), (''node_id'', itoa (ac_NodeID c)), (''token'', ac_Key c)]\<rparr>,
          cl_APIHost = ac_APIHost c, cl_APISendIP = ac_APISendIP c, cl_Token = ac_Key c,
          cl_NodeType = t, cl_NodeId = ac_NodeID c, cl_nodeEtag = [], cl_userEtag = [],
          cl_responseBodyHash = [], cl_UserList = [], cl_AliveMap = None\<rparr>)"

section \<open>Requests and responses\<close>

record 'b Request =
  rq_post :: bool
  rq_path :: string
  rq_headers :: "(string, string) gomap"
  rq_body :: "'b option"

text \<open>\<open>rp_raw\<close> is False when the response has no raw response; then the status is 0 and the body and
  the headers are empty.\<close>

record Response =
  rp_raw :: bool
  rp_status :: int
  rp_body :: string
  rp_etag :: string
  rp_ctype :: string

text \<open>path.Clean: the segments of a slash-separated path, with empty and dot segments dropped and a
  dot-dot segment removing the one before it.\<close>

definition cleanSegment :: "bool \<Rightarrow> string list \<Rightarrow> string \<Rightarrow> string list" where
  "cleanSegment rooted acc w =
     (if w = [] \<or> w = ''.'' then acc
      else if w = ''..'' then
        (case acc of
           [] \<Rightarrow> if rooted then [] else [''..'']
         | v # vs \<Rightarrow> if v = ''..'' then w # acc else vs)
      else w # acc)"

definition pathClean :: "string \<Rightarrow> string" where
  "pathClean p =
     (if p = [] then ''.''
      else let rooted = has_prefix p ''/'';
               q = (if rooted then ''/'' else []) @
                   join_with ''/'' (rev (foldl (cleanSegment rooted) [] (split_on CHR ''/'' p)))
           in if q = [] then ''.'' else q)"

text \<open>path.Join of one element is Clean, except for the empty element.\<close>

definition assembleURL :: "Client \<Rightarrow> string \<Rightarrow> string" where
  "assembleURL c path =
     (if cl_APIHost c @ path = [] then [] else pathClean (cl_APIHost c @ path))"

text \<open>A nil response without an error panics at its status code.\<close>

definition checkResponse :: "Client \<Rightarrow> Response option \<Rightarrow> string \<Rightarrow> err \<Rightarrow> err outcome" where
  "checkResponse c res path e =
     (case e of
        Some x \<Rightarrow> Ret (Some (''request '' @ assembleURL c path @ '' failed: '' @ x))
      | None \<Rightarrow> (case res of
          None \<Rightarrow> Panic
        | Some r \<Rightarrow> if rp_status r \<ge> 400
            then Ret (Some (''request '' @ assembleURL c path @ '' failed: '' @ rp_body r))
            else Ret None))"

section \<open>The node configuration\<close>

record node_env =
  ne_hash :: "string \<Rightarrow> string"
  ne_vallss :: "string \<Rightarrow> VAllssNode res"
  ne_shadowsocks :: "string \<Rightarrow> ShadowsocksNode res"
  ne_trojan :: "string \<Rightarrow> TrojanNode res"
  ne_tuic :: "string \<Rightarrow> TuicNode res"
  ne_anytls :: "string \<Rightarrow> AnyTlsNode res"
  ne_hysteria :: "string \<Rightarrow> HysteriaNode res"
  ne_hysteria2 :: "string \<Rightarrow> Hysteria2Node res"

definition emptyNode :: "int \<Rightarrow> string \<Rightarrow> NodeInfo" where
  "emptyNode i t = \<lparr>ni_Id = i, ni_Type = t, ni_Security = 0, ni_PushInterval = 0, ni_PullInterval = 0,
     ni_RawDNS = \<lparr>dn_DNSMap = [], dn_DNSJson = []\<rparr>, ni_Rules = \<lparr>r_Regexp = [], r_Protocol = []\<rparr>,
     ni_VAllss = None, ni_Shadowsocks = None, ni_Trojan = None, ni_Tuic = None, ni_AnyTls = None,
     ni_Hysteria = None, ni_Hysteria2 = None, ni_Common = None\<rparr>"

text \<open>The fields with an older spelling replace the newer ones when they are set.\<close>

definition fixVAllss :: "VAllssNode \<Rightarrow> VAllssNode" where
  "fixVAllss v =
     (let v = (if va_NetworkSettingsBack v \<noteq> []
               then v\<lparr>va_NetworkSettings := va_NetworkSettingsBack v, va_NetworkSettingsBack := []\<rparr> else v)
      in case va_TlsSettingsBack v of
           None \<Rightarrow> v
         | Some b \<Rightarrow> v\<lparr>va_TlsSettings := b, va_TlsSettingsBack := None\<rparr>)"

text \<open>The switch over the node type: the node with its protocol record, and the common part.  An
  unknown type leaves the pointer to the common part nil, which panics when it is used.\<close>

definition decodeNode ::
  "node_env \<Rightarrow> string \<Rightarrow> string \<Rightarrow> NodeInfo \<Rightarrow> (NodeInfo \<times> CommonNode) res outcome" where
  "decodeNode E t body n =
     (let fail = (\<lambda>k e. Ret (Inl (''decode '' @ k @ '' params error: '' @ e))) in
      if t = ''vmess'' \<or> t = ''vless'' then
        (case ne_vallss E body of Inl e \<Rightarrow> fail ''v2ray'' e
         | Inr v \<Rightarrow> Ret (Inr (n\<lparr>ni_VAllss := Some (fixVAllss v), ni_Security := va_Tls (fixVAllss v)\<rparr>,
             va_CommonNode (fixVAllss v))))
      else if t = ''shadowsocks'' then
        (case ne_shadowsocks E body of Inl e \<Rightarrow> fail ''shadowsocks'' e
         | Inr v \<Rightarrow> Ret (Inr (n\<lparr>ni_Shadowsocks := Some v, ni_Security := secNone\<rparr>, sh_CommonNode v)))
      else if t = ''trojan'' then
        (case ne_trojan E body of Inl e \<Rightarrow> fail ''trojan'' e
         | Inr v \<Rightarrow> Ret (Inr (n\<lparr>ni_Trojan := Some v, ni_Security := secTls\<rparr>, tj_CommonNode v)))
      else if t = ''tuic'' then
        (case ne_tuic E body of Inl e \<Rightarrow> fail ''tuic'' e
         | Inr v \<Rightarrow> Ret (Inr (n\<lparr>ni_Tuic := Some v, ni_Security := secTls\<rparr>, tu_CommonNode v)))
      else if t = ''anytls'' then
        (case ne_anytls E body of Inl e \<Rightarrow> fail ''anytls'' e
         | Inr v \<Rightarrow> Ret (Inr (n\<lparr>ni_AnyTls := Some v, ni_Security := secTls\<rparr>, an_CommonNode v)))
      else if t = ''hysteria'' then
        (case ne_hysteria E body of Inl e \<Rightarrow> fail ''hysteria'' e
         | Inr v \<Rightarrow> Ret (Inr (n\<lparr>ni_Hysteria := Some v, ni_Security := secTls\<rparr>, h1_CommonNode v)))
      else if t = ''hysteria2'' then
        (case ne_hysteria2 E body of Inl e \<Rightarrow> fail ''hysteria2'' e
         | Inr v \<Rightarrow> Ret (Inr (n\<lparr>ni_Hysteria2 := Some v, ni_Security := secTls\<rparr>, h2_CommonNode v)))
      else Panic)"

text \<open>The match of a route: a comma-separated string or an array of strings; anything else fails a
  type assertion.\<close>

fun jstrings :: "jval list \<Rightarrow> string list outcome" where
  "jstrings [] = Ret []"
| "jstrings (JStr s # vs) = (case jstrings vs of Panic \<Rightarrow> Panic | Ret ws \<Rightarrow> Ret (s # ws))"
| "jstrings (_ # vs) = Panic"

fun routeMatches :: "jval \<Rightarrow> string list outcome" where
  "routeMatches (JStr s) = Ret (split_on CHR '','' s)"
| "routeMatches (JArr vs) = jstrings vs"
| "routeMatches _ = Panic"

definition blockRule :: "string \<Rightarrow> Rules \<Rightarrow> Rules" where
  "blockRule v r =
     (if has_prefix v ''protocol:'' then r\<lparr>r_Protocol := r_Protocol r @ [trim_prefix v ''protocol:'']\<rparr>
      else r\<lparr>r_Regexp := r_Regexp r @ [trim_prefix v ''regexp:'']\<rparr>)"

definition dnsRoute :: "int \<Rightarrow> string list \<Rightarrow> string \<Rightarrow> RawDNS \<Rightarrow> RawDNS outcome" where
  "dnsRoute i matchs value d =
     (case matchs of
        [] \<Rightarrow> Panic
      | m # ms \<Rightarrow> Ret (if m \<noteq> ''main''
          then d\<lparr>dn_DNSMap := mstore (itoa i) \<lparr>de_address = value, de_domains = matchs\<rparr> (dn_DNSMap d)\<rparr>
          else d\<lparr>dn_DNSJson := concat ms\<rparr>))"

fun addRoutes :: "int \<Rightarrow> Route list \<Rightarrow> Rules \<Rightarrow> RawDNS \<Rightarrow> (Rules \<times> RawDNS) outcome" where
  "addRoutes i [] r d = Ret (r, d)"
| "addRoutes i (rt # rts) r d =
     (case routeMatches (rt_Match rt) of
        Panic \<Rightarrow> Panic
      | Ret ms \<Rightarrow>
          if rt_Action rt = ''block'' then addRoutes (i + 1) rts (fold blockRule ms r) d
          else if rt_Action rt = ''dns'' then
            (case dnsRoute i ms (rt_ActionValue rt) d of
               Panic \<Rightarrow> Panic
             | Ret d \<Rightarrow> addRoutes (i + 1) rts r d)
          else addRoutes (i + 1) rts r d)"

text \<open>Seconds to nanoseconds.  A float64 is truncated (within the int64 range, where the conversion
  is defined); reflection on nil, or an Int of a value that is none, panics.\<close>

definition truncRat :: "rat \<Rightarrow> int" where
  "truncRat r = (if 0 \<le> r then \<lfloor>r\<rfloor> else \<lceil>r\<rceil>)"

fun intervalToTime :: "jval \<Rightarrow> int outcome" where
  "intervalToTime (JNum r) = Ret (wrap64 (truncRat r * 1000000000))"
| "intervalToTime (JStr s) = Ret (wrap64 (fst (atoi s) * 1000000000))"
| "intervalToTime _ = Panic"

text \<open>The common part is shared by the protocol record and the node: clearing its routes and base
  configuration clears them in both.\<close>

definition clearCommon :: "CommonNode \<Rightarrow> CommonNode" where
  "clearCommon cm = cm\<lparr>cn_Routes := [], cn_BaseConfig := None\<rparr>"

definition clearNode :: "NodeInfo \<Rightarrow> NodeInfo" where
  "clearNode n = n\<lparr>
     ni_VAllss := map_option (\<lambda>v. v\<lparr>va_CommonNode := clearCommon (va_CommonNode v)\<rparr>) (ni_VAllss n),
     ni_Shadowsocks := map_option (\<lambda>v. v\<lparr>sh_CommonNode := clearCommon (sh_CommonNode v)\<rparr>) (ni_Shadowsocks n),
     ni_Trojan := map_option (\<lambda>v. v\<lparr>tj_CommonNode := clearCommon (tj_CommonNode v)\<rparr>) (ni_Trojan n),
     ni_Tuic := map_option (\<lambda>v. v\<lparr>tu_CommonNode := clearCommon (tu_CommonNode v)\<rparr>) (ni_Tuic n),
     ni_AnyTls := map_option (\<lambda>v. v\<lparr>an_CommonNode := clearCommon (an_CommonNode v)\<rparr>) (ni_AnyTls n),
     ni_Hysteria := map_option (\<lambda>v. v\<lparr>h1_CommonNode := clearCommon (h1_CommonNode v)\<rparr>) (ni_Hysteria n),
     ni_Hysteria2 := map_option (\<lambda>v. v\<lparr>h2_CommonNode := clearCommon (h2_CommonNode v)\<rparr>) (ni_Hysteria2 n)\<rparr>"

definition finishNode :: "NodeInfo \<Rightarrow> CommonNode \<Rightarrow> NodeInfo outcome" where
  "finishNode n cm =
     (case addRoutes 0 (cn_Routes cm) (ni_Rules n) (ni_RawDNS n) of
        Panic \<Rightarrow> Panic
      | Ret (r, d) \<Rightarrow> (case cn_BaseConfig cm of
          None \<Rightarrow> Panic
        | Some bc \<Rightarrow> (case intervalToTime (bc_PushInterval bc) of
            Panic \<Rightarrow> Panic
          | Ret push \<Rightarrow> (case intervalToTime (bc_PullInterval bc) of
              Panic \<Rightarrow> Panic
            | Ret pull \<Rightarrow> Ret (clearNode (n\<lparr>ni_Rules := r, ni_RawDNS := d, ni_PushInterval := push,
                ni_PullInterval := pull, ni_Common := Some (clearCommon cm)\<rparr>))))))"

text \<open>GetNodeInfo.  A nil response panics at its status code.\<close>

definition nodeRequest :: "Client \<Rightarrow> 'b Request" where
  "nodeRequest c = \<lparr>rq_post = False, rq_path = ''/api/v1/server/UniProxy/config'',
     rq_headers = [(''If-None-Match'', cl_nodeEtag c)], rq_body = None\<rparr>"

definition GetNodeInfo ::
  "node_env \<Rightarrow> ('b Request \<Rightarrow> Response option \<times> err) \<Rightarrow> Client \<Rightarrow>
   ((NodeInfo option \<times> err) \<times> Client) outcome" where
  "GetNodeInfo E server c =
     (case server (nodeRequest c) of
        (None, e) \<Rightarrow> Panic
      | (Some r, e) \<Rightarrow>
          if rp_status r = 304 then Ret ((None, None), c)
          else if cl_responseBodyHash c = ne_hash E (rp_body r) then Ret ((None, None), c)
          else let c = c\<lparr>cl_responseBodyHash := ne_hash E (rp_body r), cl_nodeEtag := rp_etag r\<rparr> in
            (case checkResponse c (Some r) ''/api/v1/server/UniProxy/config'' e of
               Panic \<Rightarrow> Panic
             | Ret (Some x) \<Rightarrow> Ret ((None, Some x), c)
             | Ret None \<Rightarrow>
                 (case decodeNode E (cl_NodeType c) (rp_body r) (emptyNode (cl_NodeId c) (cl_NodeType c)) of
                    Panic \<Rightarrow> Panic
                  | Ret (Inl x) \<Rightarrow> Ret ((None, Some x), c)
                  | Ret (Inr (n, cm)) \<Rightarrow>
                      (case finishNode n cm of Panic \<Rightarrow> Panic | Ret n \<Rightarrow> Ret ((Some n, None), c)))))"

section \<open>The user list\<close>

text \<open>The tokens of a JSON text.  A decoder is the rest of the tokens and the error it gives when it
  runs into the end or an invalid token.\<close>

datatype jtok = TBeginObj | TEndObj | TBeginArr | TEndArr | TStr string | TLit string

fun seekUsers :: "jtok list \<Rightarrow> jtok list option" where
  "seekUsers [] = None"
| "seekUsers (t # ts) = (if t = TStr ''users'' then Some ts else seekUsers ts)"

text \<open>ReadValue: one complete value.\<close>

fun takeDepth :: "nat \<Rightarrow> jtok list \<Rightarrow> (jtok list \<times> jtok list) option" where
  "takeDepth 0 ts = Some ([], ts)"
| "takeDepth (Suc d) [] = None"
| "takeDepth (Suc d) (t # ts) =
     map_option (apfst ((#) t))
       (takeDepth (if t = TBeginObj \<or> t = TBeginArr then Suc (Suc d)
                   else if t = TEndObj \<or> t = TEndArr then d else Suc d) ts)"

definition readValue :: "jtok list \<Rightarrow> (jtok list \<times> jtok list) option" where
  "readValue ts =
     (case ts of
        [] \<Rightarrow> None
      | t # us \<Rightarrow>
          if t = TBeginObj \<or> t = TBeginArr then map_option (apfst ((#) t)) (takeDepth 1 us)
          else if t = TEndObj \<or> t = TEndArr then None
          else Some ([t], us))"

lemma takeDepth_length: "takeDepth d ts = Some (v, us) \<Longrightarrow> length us + length v = length ts"
  by (induction d ts arbitrary: v us rule: takeDepth.induct) (auto simp: apfst_def map_prod_def)

lemma readValue_length: "readValue ts = Some (v, us) \<Longrightarrow> length us < length ts"
  by (auto simp: readValue_def split: list.splits if_splits dest!: takeDepth_length)

function readUsers ::
  "(jtok list \<Rightarrow> UserInfo res) \<Rightarrow> goerr \<Rightarrow> jtok list \<Rightarrow> UserInfo list \<Rightarrow> UserInfo list res" where
  "readUsers unm e ts us =
     (if take 1 ts = [TEndArr] then Inr us
      else case readValue ts of
          None \<Rightarrow> Inl (''decode user list error: read user object: '' @ e)
        | Some (v, rest) \<Rightarrow>
            (case unm v of
               Inl x \<Rightarrow> Inl (''decode user list error: unmarshal user error: '' @ x)
             | Inr u \<Rightarrow> readUsers unm e rest (us @ [u])))"
  by pat_completeness auto
termination
  by (relation "measure (\<lambda>(unm, e, ts, us). length ts)") (auto dest: readValue_length)

declare readUsers.simps [simp del]

definition decodeUsersJson :: "(jtok list \<Rightarrow> UserInfo res) \<Rightarrow> jtok list \<times> goerr \<Rightarrow> UserInfo list res" where
  "decodeUsersJson unm d =
     (case seekUsers (fst d) of
        None \<Rightarrow> Inl (''decode user list error: '' @ snd d)
      | Some ts \<Rightarrow> (case ts of
          [] \<Rightarrow> Inl (''decode user list error: '' @ snd d)
        | t # us \<Rightarrow>
            if t \<noteq> TBeginArr then Inl ''decode user list error: expected \"users\" array''
            else readUsers unm (snd d) us []))"

record user_env =
  ue_msgpack :: "string \<Rightarrow> UserInfo list option res"
  ue_tokens :: "string \<Rightarrow> jtok list \<times> goerr"
  ue_unmarshal :: "jtok list \<Rightarrow> UserInfo res"
  ue_alive :: "string \<Rightarrow> (int, int) gomap option res"

definition usersRequest :: "Client \<Rightarrow> 'b Request" where
  "usersRequest c = \<lparr>rq_post = False, rq_path = ''/api/v1/server/UniProxy/user'',
     rq_headers = [(''If-None-Match'', cl_userEtag c), (''X-Response-Format'', ''msgpack'')],
     rq_body = None\<rparr>"

text \<open>GetUserList streams the raw body: resty leaves the parsed body of its response empty, which is
  what an error message then shows.  A list is None where the code's slice is nil: the JSON loop
  leaves it nil when no user came, msgpack may decode an empty one.\<close>

definition GetUserList ::
  "user_env \<Rightarrow> ('b Request \<Rightarrow> Response option \<times> err) \<Rightarrow> Client \<Rightarrow>
   ((UserInfo list option \<times> err) \<times> Client) outcome" where
  "GetUserList E server c =
     (case server (usersRequest c) of
        (None, e) \<Rightarrow> Ret ((None, Some ''received nil response or raw response''), c)
      | (Some r, e) \<Rightarrow>
          if \<not> rp_raw r then Ret ((None, Some ''received nil response or raw response''), c)
          else if rp_status r = 304 then Ret ((None, None), c)
          else (case checkResponse c (Some (r\<lparr>rp_body := []\<rparr>)) ''/api/v1/server/UniProxy/user'' e of
              Panic \<Rightarrow> Panic
            | Ret (Some x) \<Rightarrow> Ret ((None, Some x), c)
            | Ret None \<Rightarrow>
                (case (if contains (rp_ctype r) ''application/x-msgpack''
                       then (case ue_msgpack E (rp_body r) of
                           Inl x \<Rightarrow> Inl (''decode user list error: '' @ x)
                         | Inr us \<Rightarrow> Inr us)
                       else (case decodeUsersJson (ue_unmarshal E) (ue_tokens E (rp_body r)) of
                           Inl x \<Rightarrow> Inl x
                         | Inr us \<Rightarrow> Inr (if us = [] then None else Some us))) of
                   Inl x \<Rightarrow> Ret ((None, Some x), c)
                 | Inr us \<Rightarrow> Ret ((us, None), c\<lparr>cl_userEtag := rp_etag r\<rparr>))))"

definition GetUserAlive ::
  "user_env \<Rightarrow> ('b Request \<Rightarrow> Response option \<times> err) \<Rightarrow> Client \<Rightarrow>
   (((int, int) gomap option \<times> err) \<times> Client) outcome" where
  "GetUserAlive E server c =
     (let none = Ret ((Some [], None), c\<lparr>cl_AliveMap := Some []\<rparr>) in
      case server \<lparr>rq_post = False, rq_path = ''/api/v1/server/UniProxy/alivelist'', rq_headers = [],
             rq_body = None\<rparr> of
        (r, Some e) \<Rightarrow> none
      | (None, None) \<Rightarrow> Panic
      | (Some r, None) \<Rightarrow>
          if rp_status r \<ge> 399 then none
          else if \<not> rp_raw r then none
          else (case ue_alive E (rp_body r) of
              Inl x \<Rightarrow> none
            | Inr m \<Rightarrow> Ret ((m, None), c\<lparr>cl_AliveMap := m\<rparr>)))"

section \<open>Reports\<close>

datatype report_body =
    Push "(int, int \<times> int) gomap"
  | Alive "(int, string list) gomap"

definition pushData :: "UserTraffic list \<Rightarrow> (int, int \<times> int) gomap" where
  "pushData ts = fold (\<lambda>t. mstore (ut_UID t) (ut_Upload t, ut_Download t)) ts []"

definition ReportUserTraffic ::
  "(report_body Request \<Rightarrow> Response option \<times> err) \<Rightarrow> Client \<Rightarrow> UserTraffic list \<Rightarrow> err outcome" where
  "ReportUserTraffic server c ts =
     (case server \<lparr>rq_post = True, rq_path = ''/api/v1/server/UniProxy/push'', rq_headers = [],
             rq_body = Some (Push (pushData ts))\<rparr> of
        (r, e) \<Rightarrow> checkResponse c r ''/api/v1/server/UniProxy/push'' e)"

text \<open>Errors of the online report are dropped.\<close>

definition ReportNodeOnlineUsers ::
  "(report_body Request \<Rightarrow> Response option \<times> err) \<Rightarrow> Client \<Rightarrow> (int, string list) gomap \<Rightarrow> err outcome" where
  "ReportNodeOnlineUsers server c data =
     (case server \<lparr>rq_post = True, rq_path = ''/api/v1/server/UniProxy/alive'', rq_headers = [],
             rq_body = Some (Alive data)\<rparr> of
        (r, e) \<Rightarrow> (case checkResponse c r ''/api/v1/server/UniProxy/alive'' e of
            Panic \<Rightarrow> Panic
          | Ret e \<Rightarrow> Ret None))"

section \<open>Polling the node configuration\<close>

text \<open>What a body means: the node it decodes to.\<close>

definition parseNode :: "node_env \<Rightarrow> Client \<Rightarrow> string \<Rightarrow> NodeInfo option" where
  "parseNode E c b =
     (case decodeNode E (cl_NodeType c) b (emptyNode (cl_NodeId c) (cl_NodeType c)) of
        Ret (Inr (n, cm)) \<Rightarrow> (case finishNode n cm of Ret n \<Rightarrow> Some n | Panic \<Rightarrow> None)
      | _ \<Rightarrow> None)"

text \<open>A panel whose configuration is the body \<open>b\<close>: it answers 304 to a matching tag that is not
  empty (a panel without tags has \<open>etag b = []\<close>).\<close>

definition configServer :: "(string \<Rightarrow> string) \<Rightarrow> string \<Rightarrow> 'b Request \<Rightarrow> Response option \<times> err" where
  "configServer etag b rq =
     (if etag b \<noteq> [] \<and> map_of (rq_headers rq) ''If-None-Match'' = Some (etag b)
      then (Some \<lparr>rp_raw = True, rp_status = 304, rp_body = [], rp_etag = etag b, rp_ctype = []\<rparr>, None)
      else (Some \<lparr>rp_raw = True, rp_status = 200, rp_body = b, rp_etag = etag b, rp_ctype = []\<rparr>, None))"

text \<open>A run of polls, the configuration being \<open>b\<close> at each; None when a poll panics or fails.\<close>

fun polls :: "node_env \<Rightarrow> (string \<Rightarrow> string) \<Rightarrow> string list \<Rightarrow> Client \<Rightarrow> NodeInfo option list option" where
  "polls E etag [] c = Some []"
| "polls E etag (b # bs) c =
     (case GetNodeInfo E (configServer etag b :: unit Request \<Rightarrow> _) c of
        Ret ((n, None), c') \<Rightarrow> map_option ((#) n) (polls E etag bs c')
      | _ \<Rightarrow> None)"

text \<open>What the controller should see: a node at each change, nothing otherwise.\<close>

fun changes :: "(string \<Rightarrow> NodeInfo option) \<Rightarrow> string option \<Rightarrow> string list \<Rightarrow> NodeInfo option list" where
  "changes parse prev [] = []"
| "changes parse prev (b # bs) =
     (if prev = Some b then None else parse b) # changes parse (Some b) bs"

text \<open>The client remembers the configuration it saw last.\<close>

definition synced :: "node_env \<Rightarrow> (string \<Rightarrow> string) \<Rightarrow> string option \<Rightarrow> Client \<Rightarrow> bool" where
  "synced E etag prev c \<longleftrightarrow>
     (case prev of
        None \<Rightarrow> cl_nodeEtag c = [] \<and> cl_responseBodyHash c = []
      | Some b \<Rightarrow> cl_nodeEtag c = etag b \<and> cl_responseBodyHash c = ne_hash E b)"

text \<open>Tags and hashes tell the bodies of the run apart; a hash is never the empty string.\<close>

definition tells_apart :: "node_env \<Rightarrow> (string \<Rightarrow> string) \<Rightarrow> string set \<Rightarrow> bool" where
  "tells_apart E etag B \<longleftrightarrow>
     (\<forall>b\<in>B. \<forall>b'\<in>B. ne_hash E b = ne_hash E b' \<longrightarrow> b = b') \<and>
     (\<forall>b\<in>B. \<forall>b'\<in>B. etag b = etag b' \<longrightarrow> etag b \<noteq> [] \<longrightarrow> b = b') \<and>
     (\<forall>b\<in>B. ne_hash E b \<noteq> [])"

lemma tells_apart_mono: "tells_apart E etag B \<Longrightarrow> A \<subseteq> B \<Longrightarrow> tells_apart E etag A"
  unfolding tells_apart_def by (meson subset_iff)

lemma parseNode_cong [simp]:
  "parseNode E (c\<lparr>cl_responseBodyHash := h, cl_nodeEtag := t\<rparr>) b = parseNode E c b"
  by (simp add: parseNode_def)

lemma GetNodeInfo_same:
  assumes "synced E etag (Some b) c"
  shows "GetNodeInfo E (configServer etag b) c = Ret ((None, None), c)"
  using assms by (simp add: GetNodeInfo_def configServer_def nodeRequest_def synced_def)

lemma GetNodeInfo_changed:
  assumes "synced E etag prev c" "prev \<noteq> Some b" "parseNode E c b = Some n"
    and "tells_apart E etag (insert b (set_option prev))"
  shows "GetNodeInfo E (configServer etag b :: 'b Request \<Rightarrow> _) c
    = Ret ((Some n, None), c\<lparr>cl_responseBodyHash := ne_hash E b, cl_nodeEtag := etag b\<rparr>)"
proof -
  have h: "cl_responseBodyHash c \<noteq> ne_hash E b" and t: "etag b = [] \<or> cl_nodeEtag c \<noteq> etag b"
    using assms(1,2,4) by (cases prev; auto simp: synced_def tells_apart_def)+
  have "configServer etag b (nodeRequest c :: 'b Request)
      = (Some \<lparr>rp_raw = True, rp_status = 200, rp_body = b, rp_etag = etag b, rp_ctype = []\<rparr>, None)"
    using t by (auto simp: configServer_def nodeRequest_def)
  moreover obtain m cm where
    "decodeNode E (cl_NodeType c) b (emptyNode (cl_NodeId c) (cl_NodeType c)) = Ret (Inr (m, cm))"
    "finishNode m cm = Ret n"
    using assms(3) by (auto simp: parseNode_def split: outcome.splits sum.splits)
  ultimately show ?thesis
    using h by (simp add: GetNodeInfo_def checkResponse_def)
qed

lemma polls_changes:
  assumes "synced E etag prev c" "tells_apart E etag (set bs \<union> set_option prev)"
    and "list_all (\<lambda>b. parseNode E c b \<noteq> None) bs"
  shows "polls E etag bs c = Some (changes (parseNode E c) prev bs)"
  using assms
proof (induction bs arbitrary: prev c)
  case Nil
  show ?case by simp
next
  case (Cons b bs)
  have rest: "tells_apart E etag (set bs \<union> set_option (Some b))"
    by (rule tells_apart_mono [OF Cons.prems(2)]) auto
  show ?case
  proof (cases "prev = Some b")
    case True
    have "GetNodeInfo E (configServer etag b :: unit Request \<Rightarrow> _) c = Ret ((None, None), c)"
      using Cons.prems(1) True by (simp add: GetNodeInfo_same)
    then show ?thesis
      using Cons.IH [of "Some b" c] Cons.prems rest True by simp
  next
    case False
    obtain n where n: "parseNode E c b = Some n"
      using Cons.prems(3) by auto
    let ?c = "c\<lparr>cl_responseBodyHash := ne_hash E b, cl_nodeEtag := etag b\<rparr>"
    have "tells_apart E etag (insert b (set_option prev))"
      by (rule tells_apart_mono [OF Cons.prems(2)]) auto
    then have "GetNodeInfo E (configServer etag b :: unit Request \<Rightarrow> _) c = Ret ((Some n, None), ?c)"
      by (rule GetNodeInfo_changed [OF Cons.prems(1) False n])
    moreover have "polls E etag bs ?c = Some (changes (parseNode E ?c) (Some b) bs)"
    proof (rule Cons.IH [OF _ rest])
      show "synced E etag (Some b) ?c" by (simp add: synced_def)
      show "list_all (\<lambda>b. parseNode E ?c b \<noteq> None) bs"
        using Cons.prems(3) by simp
    qed
    moreover have "parseNode E ?c = parseNode E c"
      by (rule ext) simp
    ultimately show ?thesis
      using False n by simp
  qed
qed

section \<open>Rules and DNS of a node\<close>

text \<open>The matches of a route that decodes, and the routes that do not.\<close>

definition matchesOf :: "Route \<Rightarrow> string list" where
  "matchesOf rt = (case routeMatches (rt_Match rt) of Panic \<Rightarrow> [] | Ret ms \<Rightarrow> ms)"

definition badRoute :: "Route \<Rightarrow> bool" where
  "badRoute rt \<longleftrightarrow> routeMatches (rt_Match rt) = Panic \<or>
     (rt_Action rt = ''dns'' \<and> routeMatches (rt_Match rt) = Ret [])"

definition blocked :: "Route list \<Rightarrow> string list" where
  "blocked rts = concat (map (\<lambda>rt. if rt_Action rt = ''block'' then matchesOf rt else []) rts)"

text \<open>The route at position \<open>i\<close> as a DNS entry, and the last main entry.\<close>

definition isDnsEntry :: "Route \<Rightarrow> bool" where
  "isDnsEntry rt \<longleftrightarrow> rt_Action rt = ''dns'' \<and> hd (matchesOf rt) \<noteq> ''main''"

fun dnsEntries :: "int \<Rightarrow> Route list \<Rightarrow> (string \<times> dnsEntry) list" where
  "dnsEntries i [] = []"
| "dnsEntries i (rt # rts) =
     (if isDnsEntry rt
      then [(itoa i, \<lparr>de_address = rt_ActionValue rt, de_domains = matchesOf rt\<rparr>)] else [])
     @ dnsEntries (i + 1) rts"

definition dnsMain :: "Route list \<Rightarrow> string \<Rightarrow> string" where
  "dnsMain rts d = foldl (\<lambda>d rt. if rt_Action rt = ''dns'' \<and> hd (matchesOf rt) = ''main''
     then concat (tl (matchesOf rt)) else d) d rts"

lemma blockRules:
  "fold blockRule vs r = r\<lparr>
     r_Protocol := r_Protocol r @ [trim_prefix v ''protocol:''. v \<leftarrow> vs, has_prefix v ''protocol:''],
     r_Regexp := r_Regexp r @ [trim_prefix v ''regexp:''. v \<leftarrow> vs, \<not> has_prefix v ''protocol:'']\<rparr>"
  by (induction vs arbitrary: r) (simp_all add: blockRule_def)

lemma addRoutes_Panic: "addRoutes i rts r d = Panic \<longleftrightarrow> list_ex badRoute rts"
  by (induction rts arbitrary: i r d)
     (auto simp: badRoute_def dnsRoute_def split: outcome.splits list.splits)

lemma AList_update_fresh: "k \<notin> fst ` set m \<Longrightarrow> AList.update k v m = m @ [(k, v)]"
  by (induction m) auto

lemma addRoutes_rules:
  "addRoutes i rts r d = Ret (r', d') \<Longrightarrow>
   r_Protocol r' = r_Protocol r @ [trim_prefix v ''protocol:''. v \<leftarrow> blocked rts, has_prefix v ''protocol:''] \<and>
   r_Regexp r' = r_Regexp r @ [trim_prefix v ''regexp:''. v \<leftarrow> blocked rts, \<not> has_prefix v ''protocol:'']"
  by (induction rts arbitrary: i r d)
     (auto simp: blocked_def matchesOf_def blockRules split: outcome.splits if_splits)

lemma addRoutes_dns:
  "addRoutes i rts r d = Ret (r', d') \<Longrightarrow> fst ` set (dn_DNSMap d) \<subseteq> itoa ` {..<i} \<Longrightarrow>
   dn_DNSMap d' = dn_DNSMap d @ dnsEntries i rts \<and> dn_DNSJson d' = dnsMain rts (dn_DNSJson d)"
proof (induction rts arbitrary: i r d)
  case Nil
  then show ?case by (simp add: dnsMain_def)
next
  case (Cons rt rts)
  have mono: "fst ` set (dn_DNSMap d) \<subseteq> itoa ` {..<i + 1}"
    using Cons.prems(2) by (rule order_trans) auto
  obtain ms where ms: "routeMatches (rt_Match rt) = Ret ms"
    using Cons.prems(1) by (auto split: outcome.splits)
  show ?case
  proof (cases "rt_Action rt = ''dns''")
    case False
    then show ?thesis
      using Cons.prems Cons.IH [OF _ mono] ms
      by (auto simp: isDnsEntry_def dnsMain_def split: if_splits)
  next
    case dns: True
    then obtain d1 where d1: "dnsRoute i ms (rt_ActionValue rt) d = Ret d1"
      and go: "addRoutes (i + 1) rts r d1 = Ret (r', d')"
      using Cons.prems(1) ms by (auto split: outcome.splits)
    have m: "matchesOf rt = ms"
      using ms by (simp add: matchesOf_def)
    obtain w ws where w: "ms = w # ws"
      using d1 by (cases ms) (auto simp: dnsRoute_def)
    show ?thesis
    proof (cases "w = ''main''")
      case True
      then have d: "d1 = d\<lparr>dn_DNSJson := concat ws\<rparr>"
        using d1 w by (simp add: dnsRoute_def)
      then have "fst ` set (dn_DNSMap d1) \<subseteq> itoa ` {..<i + 1}"
        using mono by simp
      from Cons.IH [OF go this] show ?thesis
        using dns True m w d by (simp add: isDnsEntry_def dnsMain_def)
    next
      case False
      let ?e = "\<lparr>de_address = rt_ActionValue rt, de_domains = ms\<rparr>"
      have "itoa i \<notin> fst ` set (dn_DNSMap d)"
      proof
        assume "itoa i \<in> fst ` set (dn_DNSMap d)"
        then obtain j where "j < i" "itoa i = itoa j"
          using Cons.prems(2) by blast
        then show False using itoa_inj [of i j] by simp
      qed
      then have d: "d1 = d\<lparr>dn_DNSMap := dn_DNSMap d @ [(itoa i, ?e)]\<rparr>"
        using d1 w False by (simp add: dnsRoute_def mstore_def AList_update_fresh)
      then have "fst ` set (dn_DNSMap d1) \<subseteq> itoa ` {..<i + 1}"
        using mono by auto
      from Cons.IH [OF go this] show ?thesis
        using dns False m w d by (simp add: isDnsEntry_def dnsMain_def)
    qed
  qed
qed

section \<open>Decoding the user list\<close>

text \<open>JSON values and their tokens.\<close>

datatype jvalue = VLit string | VStr string | VArr "jvalue list" | VObj "(string \<times> jvalue) list"

fun valueTokens :: "jvalue \<Rightarrow> jtok list" where
  "valueTokens (VLit x) = [TLit x]"
| "valueTokens (VStr x) = [TStr x]"
| "valueTokens (VArr vs) = TBeginArr # concat (map valueTokens vs) @ [TEndArr]"
| "valueTokens (VObj ms) = TBeginObj # concat (map (\<lambda>(k, v). TStr k # valueTokens v) ms) @ [TEndObj]"

lemma takeDepth_each:
  assumes "\<And>x d rest. x \<in> set xs \<Longrightarrow>
      takeDepth (Suc d) (f x @ rest) = map_option (apfst ((@) (f x))) (takeDepth (Suc d) rest)"
  shows "takeDepth (Suc d) (concat (map f xs) @ rest) = map_option (apfst ((@) (concat (map f xs)))) (takeDepth (Suc d) rest)"
  using assms
proof (induction xs)
  case Nil
  then show ?case by (cases "takeDepth (Suc d) rest") (auto simp: apfst_def map_prod_def)
next
  case (Cons x xs)
  then show ?case
    by (cases "takeDepth (Suc d) rest") (auto simp: apfst_def map_prod_def)
qed

lemma takeDepth_value:
  "takeDepth (Suc d) (valueTokens v @ rest) = map_option (apfst ((@) (valueTokens v))) (takeDepth (Suc d) rest)"
proof (induction v arbitrary: d rest)
  case (VArr vs)
  show ?case
    using takeDepth_each [of vs valueTokens "Suc d" "TEndArr # rest"] VArr
    by (cases "takeDepth (Suc d) rest") (simp_all add: apfst_def map_prod_def split: prod.split)
next
  case (VObj ms)
  let ?f = "\<lambda>(k, v). TStr k # valueTokens v"
  have "takeDepth (Suc d) (?f x @ rest) = map_option (apfst ((@) (?f x))) (takeDepth (Suc d) rest)"
    if "x \<in> set ms" for x d rest
  proof -
    obtain k v where x: "x = (k, v)"
      by (cases x)
    have "takeDepth (Suc d) (valueTokens v @ rest) = map_option (apfst ((@) (valueTokens v))) (takeDepth (Suc d) rest)"
      by (rule VObj [OF that]) (simp add: x)
    then show ?thesis
      by (cases "takeDepth (Suc d) rest") (simp_all add: x apfst_def map_prod_def split: prod.split)
  qed
  from takeDepth_each [of ms ?f "Suc d" "TEndObj # rest", OF this] show ?case
    by (cases "takeDepth (Suc d) rest") (simp_all add: apfst_def map_prod_def split: prod.split)
qed (simp_all add: apfst_def map_prod_def split: prod.split)

lemma readValue_value: "readValue (valueTokens v @ rest) = Some (valueTokens v, rest)"
proof (cases v)
  case (VArr vs)
  then show ?thesis
    using takeDepth_each [of vs valueTokens 0 "TEndArr # rest"] takeDepth_value
    by (simp add: readValue_def apfst_def map_prod_def)
next
  case (VObj ms)
  let ?f = "\<lambda>(k, v). TStr k # valueTokens v"
  have "takeDepth (Suc d) (?f x @ rest) = map_option (apfst ((@) (?f x))) (takeDepth (Suc d) rest)" for x d rest
    using takeDepth_value [of d "snd x" rest]
    by (cases x; cases "takeDepth (Suc d) rest") (simp_all add: apfst_def map_prod_def split: prod.split)
  from takeDepth_each [of ms ?f 0 "TEndObj # rest", OF this] show ?thesis
    using VObj by (simp add: readValue_def apfst_def map_prod_def)
qed (simp_all add: readValue_def)

lemma valueTokens_start: "take 1 (valueTokens v @ rest) \<noteq> [TEndArr]"
  by (cases v) simp_all

lemma readUsers_tokens:
  assumes "map (\<lambda>v. unm (valueTokens v)) us = map Inr infos"
  shows "readUsers unm e (concat (map valueTokens us) @ TEndArr # post) acc = Inr (acc @ infos)"
  using assms
proof (induction us arbitrary: acc infos)
  case Nil
  then show ?case by (subst readUsers.simps) simp
next
  case (Cons v us)
  then obtain j js where infos: "infos = j # js"
    by (cases infos) auto
  let ?rest = "concat (map valueTokens us) @ TEndArr # post"
  have "readUsers unm e (valueTokens v @ ?rest) acc = readUsers unm e ?rest (acc @ [j])"
    using Cons.prems infos by (subst readUsers.simps) (simp only: valueTokens_start readValue_value, simp)
  then show ?case
    using Cons.IH [of js "acc @ [j]"] Cons.prems infos by simp
qed

lemma seekUsers_append:
  "TStr ''users'' \<notin> set pre \<Longrightarrow> seekUsers (pre @ TStr ''users'' # ts) = Some ts"
  by (induction pre) auto

section \<open>Reports\<close>

lemma pushData_lookup:
  "map_of (pushData ts) = map_of (rev (map (\<lambda>t. (ut_UID t, ut_Upload t, ut_Download t)) ts))"
  using gm.load_put_all [of ut_UID "\<lambda>t. (ut_Upload t, ut_Download t)" ts "[]"]
  by (simp add: pushData_def)

lemma pushData_wf: "wf_map (pushData ts)"
proof -
  have "wf_map m \<Longrightarrow> wf_map (fold (\<lambda>t. mstore (ut_UID t) (ut_Upload t, ut_Download t)) ts m)" for m
    by (induction ts arbitrary: m) (auto simp: gomap_simps)
  then show ?thesis by (simp add: pushData_def gomap_simps)
qed

section \<open>Properties\<close>

text \<open>C16: Polling the node configuration. Against a panel that serves one body after another, with
  or without entity tags, a client made by New delivers a node exactly when the body differs from
  the one served at the previous poll, and then the node of the new body; otherwise it delivers
  nothing, so no change is missed and none is reported twice.\<close>

theorem node_polling:
  assumes "newClient parseIP a = Inr c"
    and "tells_apart E etag (set bs)"
    and "list_all (\<lambda>b. parseNode E c b \<noteq> None) bs"
  shows "polls E etag bs c = Some (changes (parseNode E c) None bs)"
proof (rule polls_changes)
  show "synced E etag None c"
    using assms(1) by (auto simp: newClient_def synced_def split: sum.splits)
  show "tells_apart E etag (set bs \<union> set_option None)"
    using assms(2) by simp
qed (rule assms(3))

text \<open>C23: The rules and the DNS table of a delivered node are those of the routes the panel sent, in
  their order: every protocol match of a block route without its prefix, every other match as a
  regular expression, one table entry for each DNS route that is not the main one, filed under the
  route's position (so none overwrites another), and the text of the last main DNS route.\<close>

theorem node_rules:
  assumes "finishNode (emptyNode i t) cm = Ret n"
  shows "r_Protocol (ni_Rules n)
       = [trim_prefix v ''protocol:''. v \<leftarrow> blocked (cn_Routes cm), has_prefix v ''protocol:''] \<and>
    r_Regexp (ni_Rules n)
       = [trim_prefix v ''regexp:''. v \<leftarrow> blocked (cn_Routes cm), \<not> has_prefix v ''protocol:''] \<and>
    dn_DNSMap (ni_RawDNS n) = dnsEntries 0 (cn_Routes cm) \<and>
    dn_DNSJson (ni_RawDNS n) = dnsMain (cn_Routes cm) []"
proof -
  obtain r d where a: "addRoutes 0 (cn_Routes cm) (ni_Rules (emptyNode i t)) (ni_RawDNS (emptyNode i t)) = Ret (r, d)"
    and n: "ni_Rules n = r" "ni_RawDNS n = d"
    using assms by (auto simp: finishNode_def clearNode_def split: outcome.splits option.splits)
  show ?thesis
    using addRoutes_rules [OF a] addRoutes_dns [OF a] n by (simp add: emptyNode_def)
qed

definition badInterval :: "jval \<Rightarrow> bool" where
  "badInterval v = (case v of JNum _ \<Rightarrow> False | JStr _ \<Rightarrow> False | _ \<Rightarrow> True)"

lemma intervalToTime_Panic: "intervalToTime v = Panic \<longleftrightarrow> badInterval v"
  by (cases v) (simp_all add: badInterval_def)

text \<open>Decoding a node panics exactly if a route's match is neither a string nor an array of
  strings, a DNS route has no match, the base configuration is missing, or an interval is neither a
  number nor a string: the panel's body can crash the server in these ways and no other.\<close>

theorem finishNode_panics:
  "finishNode n cm = Panic \<longleftrightarrow>
     list_ex badRoute (cn_Routes cm) \<or>
     (case cn_BaseConfig cm of
        None \<Rightarrow> True
      | Some bc \<Rightarrow> badInterval (bc_PushInterval bc) \<or> badInterval (bc_PullInterval bc))"
  using addRoutes_Panic [of 0 "cn_Routes cm" "ni_Rules n" "ni_RawDNS n"]
  by (auto simp: finishNode_def simp flip: intervalToTime_Panic split: outcome.splits option.splits)

text \<open>An interval may be sent as a number or as its decimal text; a whole number of seconds gives the
  same duration either way.\<close>

lemma interval_text_or_number:
  "in_int64 n \<Longrightarrow> intervalToTime (JStr (itoa n)) = intervalToTime (JNum (of_int n))"
  by (simp add: atoi_itoa truncRat_def)

text \<open>C24: The streaming decoder of the user list reads the array behind the first string \<open>users\<close> of a JSON
  document, whatever comes before and behind: its elements, any JSON values, give the users they unmarshal
  to, in order.  When something else than an array follows that string, as when an earlier member has the
  value \<open>users\<close>, the decoder fails, whatever the rest of the document holds.\<close>

theorem decodeUsersJson_list:
  assumes "TStr ''users'' \<notin> set pre"
  shows "(map (\<lambda>v. unm (valueTokens v)) us = map Inr infos \<longrightarrow>
      decodeUsersJson unm (pre @ TStr ''users'' # valueTokens (VArr us) @ post, e) = Inr infos) \<and>
    (t \<noteq> TBeginArr \<longrightarrow>
      decodeUsersJson unm (pre @ TStr ''users'' # t # post, e) = Inl ''decode user list error: expected \"users\" array'')"
  using seekUsers_append [OF assms, of "TBeginArr # concat (map valueTokens us) @ TEndArr # post"]
    seekUsers_append [OF assms, of "t # post"] readUsers_tokens [of unm us infos e post "[]"]
  by (simp add: decodeUsersJson_def)

text \<open>So a document whose users member comes first in it, or behind members that do not spell its name, is read
  back whole.\<close>

lemma decodeUsersJson_document:
  assumes "TStr ''users'' \<notin> set (concat (map (\<lambda>(k, v). TStr k # valueTokens v) ms))"
    and "map (\<lambda>v. unm (valueTokens v)) us = map Inr infos"
  shows "decodeUsersJson unm (valueTokens (VObj (ms @ (''users'', VArr us) # ns)), e) = Inr infos"
  using assms(2) seekUsers_append [of "TBeginObj # concat (map (\<lambda>(k, v). TStr k # valueTokens v) ms)"] assms(1)
    readUsers_tokens [OF assms(2), of e _ "[]"]
  by (simp add: decodeUsersJson_def)

text \<open>A user poll moves the remembered tag only when it delivers the list that tag belongs to:
  after an error, a 304 or an undecodable body the client is unchanged, so the next poll asks for
  the same list again.\<close>

theorem user_poll_tag:
  assumes "GetUserList E server c = Ret ((us, e), c')"
  shows "c' = c \<or> (e = None \<and> (\<exists>r. server (usersRequest c) = (Some r, None) \<and> rp_status r < 400 \<and>
    rp_status r \<noteq> 304 \<and> c' = c\<lparr>cl_userEtag := rp_etag r\<rparr>))"
proof -
  obtain r x where s: "server (usersRequest c) = (r, x)"
    by (metis surj_pair)
  show ?thesis
    using assms s
    by (auto simp: GetUserList_def checkResponse_def split: option.splits if_splits outcome.splits sum.splits)
qed

text \<open>The traffic report posts each user's own entry: for a list without repeated user ids the
  posted map holds exactly the entries of the list, and the call returns an error exactly when the
  request failed or was answered with a status of 400 or more.\<close>

theorem traffic_report:
  assumes "distinct (map ut_UID ts)"
  shows "ReportUserTraffic server c ts =
      (case server \<lparr>rq_post = True, rq_path = ''/api/v1/server/UniProxy/push'', rq_headers = [],
             rq_body = Some (Push (map (\<lambda>t. (ut_UID t, ut_Upload t, ut_Download t)) ts))\<rparr> of
        (r, e) \<Rightarrow> checkResponse c r ''/api/v1/server/UniProxy/push'' e)"
proof -
  have "distinct (map ut_UID ts) \<Longrightarrow> fst ` set m \<inter> ut_UID ` set ts = {} \<Longrightarrow>
      fold (\<lambda>t. mstore (ut_UID t) (ut_Upload t, ut_Download t)) ts m
      = m @ map (\<lambda>t. (ut_UID t, ut_Upload t, ut_Download t)) ts" for m
  proof (induction ts arbitrary: m)
    case (Cons t ts)
    then have "ut_UID t \<notin> fst ` set m" by auto
    then have "mstore (ut_UID t) (ut_Upload t, ut_Download t) m
        = m @ [(ut_UID t, ut_Upload t, ut_Download t)]"
      by (simp add: mstore_def AList_update_fresh)
    then show ?case
      using Cons.prems Cons.IH [of "m @ [(ut_UID t, ut_Upload t, ut_Download t)]"] by auto
  qed simp
  from this [of "[]"] assms show ?thesis
    by (simp add: ReportUserTraffic_def pushData_def)
qed

text \<open>With repeated ids the last entry is posted and the others are lost.\<close>

lemma traffic_report_duplicates:
  "pushData [\<lparr>ut_UID = 1, ut_Upload = 5, ut_Download = 6\<rparr>, \<lparr>ut_UID = 1, ut_Upload = 7, ut_Download = 8\<rparr>]
   = [(1, 7, 8)]"
  by code_simp

text \<open>A body that was refused is remembered like a good one: answered with the same error page again,
  the next poll reports no error and no change.\<close>

lemma repeated_error_is_silent:
  assumes "GetNodeInfo E server c = Ret ((None, Some x), c')"
    and "server (nodeRequest c') = server (nodeRequest c)"
  shows "GetNodeInfo E server c' = Ret ((None, None), c')"
  using assms
  by (auto simp: GetNodeInfo_def Let_def split: prod.splits option.splits outcome.splits sum.splits if_splits)

section \<open>Witnesses\<close>

definition wit_common :: CommonNode where
  "wit_common = \<lparr>cn_Host = ''h'', cn_ServerPort = 443, cn_ServerName = ''s'',
     cn_Routes = [
       \<lparr>rt_Id = 1, rt_Match = JStr ''protocol:bittorrent,regexp:ads'', rt_Action = ''block'', rt_ActionValue = []\<rparr>,
       \<lparr>rt_Id = 2, rt_Match = JArr [JStr ''main'', JStr ''{}''], rt_Action = ''dns'', rt_ActionValue = []\<rparr>,
       \<lparr>rt_Id = 3, rt_Match = JStr ''domain:x'', rt_Action = ''dns'', rt_ActionValue = ''1.1.1.1''\<rparr>],
     cn_BaseConfig = Some \<lparr>bc_PushInterval = JStr ''60'', bc_PullInterval = JStr ''30''\<rparr>\<rparr>"

definition wit_nodes :: node_env where
  "wit_nodes = \<lparr>ne_hash = (\<lambda>b. ''h'' @ b), ne_vallss = (\<lambda>b. Inl b), ne_shadowsocks = (\<lambda>b. Inl b),
     ne_trojan = (\<lambda>b. Inr \<lparr>tj_CommonNode = wit_common\<lparr>cn_Host := b\<rparr>, tj_Network = ''tcp'', tj_NetworkSettings = []\<rparr>),
     ne_tuic = (\<lambda>b. Inl b), ne_anytls = (\<lambda>b. Inl b), ne_hysteria = (\<lambda>b. Inl b), ne_hysteria2 = (\<lambda>b. Inl b)\<rparr>"

definition wit_client :: Client where
  "wit_client = \<lparr>cl_client = \<lparr>rs_LocalIP = None, rs_RetryCount = 3, rs_Timeout = 30000000000,
       rs_BaseURL = ''u'', rs_QueryParams = [(''node_type'', ''trojan''), (''node_id'', ''7''), (''token'', ''k'')]\<rparr>,
     cl_APIHost = ''u'', cl_APISendIP = [], cl_Token = ''k'', cl_NodeType = ''trojan'', cl_NodeId = 7,
     cl_nodeEtag = [], cl_userEtag = [], cl_responseBodyHash = [], cl_UserList = [], cl_AliveMap = None\<rparr>"

lemma wit_client_new:
  "newClient id \<lparr>ac_APIHost = ''u'', ac_APISendIP = [], ac_NodeID = 7, ac_Key = ''k'', ac_NodeType = ''Trojan'',
     ac_Timeout = 30, ac_RuleListPath = []\<rparr> = Inr wit_client"
  by code_simp

theorem node_polling_witness:
  "polls wit_nodes id [''a'', ''a'', ''b''] wit_client
     = Some (changes (parseNode wit_nodes wit_client) None [''a'', ''a'', ''b''])"
proof (rule node_polling [OF wit_client_new])
  show "tells_apart wit_nodes id (set [''a'', ''a'', ''b''])"
    by (simp add: tells_apart_def wit_nodes_def)
  show "list_all (\<lambda>b. parseNode wit_nodes wit_client b \<noteq> None) [''a'', ''a'', ''b'']"
    by code_simp
qed

theorem node_rules_witness:
  "\<exists>n. finishNode (emptyNode 7 ''trojan'') wit_common = Ret n \<and> r_Protocol (ni_Rules n) = [''bittorrent'']"
proof -
  have "(case finishNode (emptyNode 7 ''trojan'') wit_common of Ret n \<Rightarrow> True | Panic \<Rightarrow> False)"
    by code_simp
  then obtain n where n: "finishNode (emptyNode 7 ''trojan'') wit_common = Ret n"
    by (auto split: outcome.splits)
  have "[trim_prefix v ''protocol:''. v \<leftarrow> blocked (cn_Routes wit_common), has_prefix v ''protocol:''] = [''bittorrent'']"
    by code_simp
  then show ?thesis
    using node_rules [OF n] n by simp
qed

definition wit_unmarshal :: "jtok list \<Rightarrow> UserInfo res" where
  "wit_unmarshal ts =
     (case ts of
        [TBeginObj, TStr k, TStr u, TEndObj] \<Rightarrow>
          Inr \<lparr>ui_Id = 1, ui_Uuid = u, ui_SpeedLimit = 0, ui_DeviceLimit = 0\<rparr>
      | _ \<Rightarrow> Inl ''bad'')"

theorem decodeUsersJson_list_witness:
  "decodeUsersJson wit_unmarshal (valueTokens (VObj [(''n'', VLit ''3''), (''users'', VArr [VObj [(''uuid'', VStr ''a'')],
     VObj [(''uuid'', VStr ''b'')]])]), ''eof'')
   = Inr [\<lparr>ui_Id = 1, ui_Uuid = ''a'', ui_SpeedLimit = 0, ui_DeviceLimit = 0\<rparr>,
          \<lparr>ui_Id = 1, ui_Uuid = ''b'', ui_SpeedLimit = 0, ui_DeviceLimit = 0\<rparr>] \<and>
   decodeUsersJson wit_unmarshal (valueTokens (VObj [(''m'', VStr ''users''), (''users'', VArr [])]), ''eof'')
   = Inl ''decode user list error: expected \"users\" array''"
proof -
  let ?us = "[VObj [(''uuid'', VStr ''a'')], VObj [(''uuid'', VStr ''b'')]]"
    and ?infos = "[\<lparr>ui_Id = 1, ui_Uuid = ''a'', ui_SpeedLimit = 0, ui_DeviceLimit = 0\<rparr>,
      \<lparr>ui_Id = 1, ui_Uuid = ''b'', ui_SpeedLimit = 0, ui_DeviceLimit = 0\<rparr>]"
  have u: "map (\<lambda>v. wit_unmarshal (valueTokens v)) ?us = map Inr ?infos"
    by (simp add: wit_unmarshal_def)
  have p: "TStr ''users'' \<notin> set [TBeginObj, TStr ''n'', TLit ''3'']" "TStr ''users'' \<notin> set [TBeginObj, TStr ''m'']"
    by simp_all
  have "decodeUsersJson wit_unmarshal ([TBeginObj, TStr ''n'', TLit ''3''] @ TStr ''users'' # valueTokens (VArr ?us) @ [TEndObj], ''eof'')
      = Inr ?infos"
    using decodeUsersJson_list [OF p(1), of wit_unmarshal ?us ?infos] u by blast
  moreover have "decodeUsersJson wit_unmarshal ([TBeginObj, TStr ''m''] @ TStr ''users'' # TStr ''users'' # [TBeginArr, TEndArr, TEndObj], ''eof'')
      = Inl ''decode user list error: expected \"users\" array''"
    using decodeUsersJson_list [OF p(2), of wit_unmarshal _ _ _ _ "TStr ''users''"] by blast
  ultimately show ?thesis
    by simp
qed

definition wit_users :: user_env where
  "wit_users = \<lparr>ue_msgpack = (\<lambda>b. Inr (Some [])), ue_tokens = (\<lambda>b. ([], ''eof'')), ue_unmarshal = wit_unmarshal,
     ue_alive = (\<lambda>b. Inr (Some []))\<rparr>"

definition wit_server :: "'b Request \<Rightarrow> Response option \<times> err" where
  "wit_server rq = (Some \<lparr>rp_raw = True, rp_status = 200, rp_body = [], rp_etag = ''v1'',
     rp_ctype = ''application/x-msgpack''\<rparr>, None)"

theorem user_poll_tag_witness:
  "\<exists>c'. GetUserList wit_users wit_server wit_client = Ret ((Some [], None), c') \<and> cl_userEtag c' = ''v1'' \<and>
     c' = wit_client\<lparr>cl_userEtag := ''v1''\<rparr>"
proof -
  have g: "GetUserList wit_users wit_server wit_client = Ret ((Some [], None), wit_client\<lparr>cl_userEtag := ''v1''\<rparr>)"
    by code_simp
  have "wit_client\<lparr>cl_userEtag := ''v1''\<rparr> \<noteq> wit_client"
    by (simp add: wit_client_def)
  with user_poll_tag [OF g] g show ?thesis
    by auto
qed

theorem traffic_report_witness:
  "ReportUserTraffic wit_server wit_client [\<lparr>ut_UID = 1, ut_Upload = 5, ut_Download = 6\<rparr>] = Ret None"
  using traffic_report [of "[\<lparr>ut_UID = 1, ut_Upload = 5, ut_Download = 6\<rparr>]" wit_server wit_client]
  by (simp add: wit_server_def checkResponse_def)

end
