(* ===== verification/User_Sync.thy ===== *)
theory User_Sync
  imports Panel
begin

text \<open>
  Keeping the users of a core in step with the panel: the list comparison of node/user.go, and the
  contract of the user operations of the interface core.Core (core/interface.go), under which the
  comparison is enough: a locale that each core's theory interprets.
\<close>

section \<open>Comparing user lists\<close>

definition userKey :: "UserInfo \<Rightarrow> string" where
  "userKey u = ui_Uuid u @ itoa (ui_SpeedLimit u)"

fun indexUsers :: "nat \<Rightarrow> UserInfo list \<Rightarrow> (string, nat) gomap \<Rightarrow> (string, nat) gomap" where
  "indexUsers i [] m = m"
| "indexUsers i (u # us) m = indexUsers (i + 1) us (mstore (userKey u) i m)"

fun matchUsers :: "UserInfo list \<Rightarrow> (string, nat) gomap \<Rightarrow> UserInfo list \<times> (string, nat) gomap" where
  "matchUsers [] m = ([], m)"
| "matchUsers (u # us) m =
     (if map_of m (userKey u) = None then (case matchUsers us m of (a, m) \<Rightarrow> (u # a, m))
      else matchUsers us (mdelete (userKey u) m))"

definition compareUserList :: "UserInfo list \<Rightarrow> UserInfo list \<Rightarrow> UserInfo list \<times> UserInfo list" where
  "compareUserList old new =
     (case matchUsers new (indexUsers 0 old []) of
        (added, m) \<Rightarrow> (map (\<lambda>(k, i). old ! i) m, added))"

text \<open>The index maps a key to the last position that holds it.\<close>

lemma indexUsers_lookup:
  "map_of (indexUsers i us m) = map_of m ++ map_of (rev (zip (map userKey us) [i..<i + length us]))"
proof (induction us arbitrary: i m)
  case Nil
  show ?case by simp
next
  case (Cons u us)
  have "[i..<i + length (u # us)] = i # [i + 1..<(i + 1) + length us]"
    by (subst upt_conv_Cons) (simp_all del: upt_Suc)
  then show ?case
    by (simp only: indexUsers.simps Cons.IH map_of_mstore list.map zip_Cons_Cons rev.simps map_of_append)
       (rule ext, simp add: map_add_def split: option.splits)
qed

lemma indexUsers_wf: "wf_map m \<Longrightarrow> wf_map (indexUsers i us m)"
  by (induction i us m rule: indexUsers.induct) (simp_all add: gomap_simps)

lemma indexUsers_distinct:
  assumes "distinct (map userKey old)"
  shows "map_of (indexUsers 0 old []) k = Some i \<longleftrightarrow> i < length old \<and> userKey (old ! i) = k"
proof -
  have d: "distinct (map fst (rev (zip (map userKey old) [0..<length old])))"
    using assms by (simp add: rev_map [symmetric])
  have "map_of (indexUsers 0 old []) k = Some i
      \<longleftrightarrow> (k, i) \<in> set (rev (zip (map userKey old) [0..<length old]))"
    using map_of_eq_Some_iff [OF d [folded wf_map_def]]
    by (simp add: indexUsers_lookup)
  also have "\<dots> \<longleftrightarrow> i < length old \<and> userKey (old ! i) = k"
    by (auto simp: in_set_zip intro!: exI [of _ i])
  finally show ?thesis .
qed

lemma matchUsers_spec:
  assumes "matchUsers us m = (a, m')" "distinct (map userKey us)"
  shows "a = filter (\<lambda>u. map_of m (userKey u) = None) us \<and>
    map_of m' = (\<lambda>k. if k \<in> userKey ` set us then None else map_of m k) \<and> (wf_map m \<longrightarrow> wf_map m')"
  using assms
proof (induction us arbitrary: m a m')
  case Nil
  then show ?case by auto
next
  case (Cons u us)
  show ?case
  proof (cases "map_of m (userKey u)")
    case None
    obtain a1 m1 where r: "matchUsers us m = (a1, m1)"
      by (metis surj_pair)
    then show ?thesis
      using Cons.prems Cons.IH [OF r] None by (auto simp: fun_eq_iff)
  next
    case (Some i)
    have r: "matchUsers us (mdelete (userKey u) m) = (a, m')"
      using Cons.prems(1) Some by simp
    have "filter (\<lambda>v. map_of (mdelete (userKey u) m) (userKey v) = None) us
        = filter (\<lambda>v. map_of m (userKey v) = None) us"
      using Cons.prems(2) by (intro filter_cong) (auto simp: map_of_mdelete image_iff)
    then show ?thesis
      using Cons.prems(2) Cons.IH [OF r] Some
      by (auto simp: map_of_mdelete wf_map_mdelete fun_eq_iff)
  qed
qed

lemma compareUserList_sets:
  assumes "distinct (map userKey old)" "distinct (map userKey new)"
    and "compareUserList old new = (deleted, added)"
  shows "set deleted = {u \<in> set old. userKey u \<notin> userKey ` set new}"
    and "added = filter (\<lambda>u. userKey u \<notin> userKey ` set old) new"
proof -
  obtain m where m: "matchUsers new (indexUsers 0 old []) = (added, m)"
    and d: "deleted = map (\<lambda>(k, i). old ! i) m"
    using assms(3) by (auto simp: compareUserList_def split: prod.splits)
  note s = matchUsers_spec [OF m assms(2)]
  have w: "wf_map m"
    using s indexUsers_wf [of "[]" 0 old] by (simp add: gomap_simps)
  have look: "map_of (indexUsers 0 old []) k = None \<longleftrightarrow> k \<notin> userKey ` set old" for k
  proof -
    have "k \<in> userKey ` set old \<longleftrightarrow> (\<exists>i. map_of (indexUsers 0 old []) k = Some i)"
      unfolding indexUsers_distinct [OF assms(1)] by (metis image_iff in_set_conv_nth)
    then show ?thesis by (metis not_None_eq)
  qed
  show "added = filter (\<lambda>u. userKey u \<notin> userKey ` set old) new"
    using s look by simp
  have "(k, i) \<in> set m \<longleftrightarrow> i < length old \<and> userKey (old ! i) = k \<and> k \<notin> userKey ` set new" for k i
    using s indexUsers_distinct [OF assms(1), of k i] map_of_eq_Some_iff [OF w, of k i]
    by (auto split: if_splits)
  then show "set deleted = {u \<in> set old. userKey u \<notin> userKey ` set new}"
    unfolding d by (force simp: in_set_conv_nth image_iff)
qed

section \<open>The contract of a core's user operations\<close>

text \<open>
  \<open>uid c tag x\<close> is the id under which the core \<open>c\<close> accounts the user with uuid \<open>x\<close> on the node \<open>tag\<close>,
  0 when it knows none.  The contract speaks of one node: AddUsers files every user given, when their
  uuids are distinct, and leaves the others alone, DelUsers forgets exactly the users given.
\<close>

definition idsOf :: "UserInfo list \<Rightarrow> string \<Rightarrow> int" where
  "idsOf us x = (case map_of (rev (map (\<lambda>u. (ui_Uuid u, ui_Id u)) us)) x of None \<Rightarrow> 0 | Some i \<Rightarrow> i)"

definition uuids :: "UserInfo list \<Rightarrow> string set" where
  "uuids us = ui_Uuid ` set us"

lemma idsOf_in:
  assumes "u \<in> set us" "distinct (map ui_Uuid us)"
  shows "idsOf us (ui_Uuid u) = ui_Id u"
proof -
  have "distinct (map fst (rev (map (\<lambda>u. (ui_Uuid u, ui_Id u)) us)))"
    using assms(2) by (simp add: rev_map [symmetric] comp_def)
  moreover have "(ui_Uuid u, ui_Id u) \<in> set (rev (map (\<lambda>u. (ui_Uuid u, ui_Id u)) us))"
    using assms(1) by auto
  ultimately show ?thesis
    by (simp add: idsOf_def)
qed

lemma idsOf_notin: "x \<notin> uuids us \<Longrightarrow> idsOf us x = 0"
  by (auto simp: idsOf_def uuids_def split: option.splits dest!: map_of_SomeD)

text \<open>The loops over a user map: filing users under a key made of the uuid, and deleting them.\<close>

lemma idsOf_put:
  assumes "inj f"
  shows "mget0 (fold (\<lambda>u. mstore (f (ui_Uuid u)) (ui_Id u)) us m) (f x)
    = (if x \<in> uuids us then idsOf us x else mget0 m (f x))"
proof -
  have "map_of (rev (map (\<lambda>u. (f (ui_Uuid u), ui_Id u)) us)) (f x)
      = map_of (rev (map (\<lambda>u. (ui_Uuid u, ui_Id u)) us)) x"
  proof -
    have "map_of (map (\<lambda>(k, v). (f k, v)) es) (f x) = map_of es x" for es :: "(string \<times> int) list"
      using assms by (induction es) (auto dest: injD)
    from this [of "rev (map (\<lambda>u. (ui_Uuid u, ui_Id u)) us)"] show ?thesis
      by (simp add: rev_map comp_def)
  qed
  moreover have "map_of (rev (map (\<lambda>u. (ui_Uuid u, ui_Id u)) us)) x = None \<longleftrightarrow> x \<notin> uuids us"
    by (auto simp: map_of_eq_None_iff uuids_def image_image)
  ultimately show ?thesis
    by (cases "x \<in> uuids us")
       (auto simp: mget0_def gm.load_put_all idsOf_def map_add_def split: option.splits)
qed

lemma idsOf_delete:
  assumes "inj f"
  shows "mget0 (fold (\<lambda>u. mdelete (f (ui_Uuid u))) us m) (f x) = (if x \<in> uuids us then 0 else mget0 m (f x))"
  using assms by (auto simp: mget0_def gm.load_del_all [of "\<lambda>u. f (ui_Uuid u)"] uuids_def dest: injD)

text \<open>Two lists of the panel: uuids are distinct and of one length, a uuid keeps its id.\<close>

definition user_lists :: "UserInfo list \<Rightarrow> UserInfo list \<Rightarrow> bool" where
  "user_lists old new \<longleftrightarrow> distinct (map ui_Uuid old) \<and> distinct (map ui_Uuid new) \<and>
     (\<forall>u\<in>set old \<union> set new. \<forall>v\<in>set old \<union> set new. length (ui_Uuid u) = length (ui_Uuid v)) \<and>
     (\<forall>u\<in>set old. \<forall>v\<in>set new. ui_Uuid u = ui_Uuid v \<longrightarrow> ui_Id u = ui_Id v)"

lemma userKey_uuid: "length (ui_Uuid u) = length (ui_Uuid v) \<Longrightarrow> userKey u = userKey v \<Longrightarrow> ui_Uuid u = ui_Uuid v"
  by (simp add: userKey_def)

lemma distinct_keys:
  assumes "distinct (map ui_Uuid us)" "\<forall>u\<in>set us. \<forall>v\<in>set us. length (ui_Uuid u) = length (ui_Uuid v)"
  shows "distinct (map userKey us)"
  using assms unfolding distinct_map inj_on_def by (metis userKey_uuid)

lemma user_lists_keys:
  assumes "user_lists old new"
  shows "distinct (map userKey old)" "distinct (map userKey new)"
  using assms by (auto simp: user_lists_def intro!: distinct_keys)

text \<open>The calls the controller makes; an empty list is not sent.\<close>

definition deleteAll ::
  "(UserInfo list \<Rightarrow> string \<Rightarrow> NodeInfo \<Rightarrow> 'c \<Rightarrow> (err \<times> 'c) outcome) \<Rightarrow>
   UserInfo list \<Rightarrow> string \<Rightarrow> NodeInfo \<Rightarrow> 'c \<Rightarrow> (err \<times> 'c) outcome" where
  "deleteAll del us tag n c = (if us = [] then Ret (None, c) else del us tag n c)"

definition addAll ::
  "(string \<Rightarrow> UserInfo list \<Rightarrow> NodeInfo \<Rightarrow> 'c \<Rightarrow> ((int \<times> err) \<times> 'c) outcome) \<Rightarrow>
   string \<Rightarrow> UserInfo list \<Rightarrow> NodeInfo \<Rightarrow> 'c \<Rightarrow> ((int \<times> err) \<times> 'c) outcome" where
  "addAll add tag us n c = (if us = [] then Ret ((0, None), c) else add tag us n c)"

locale core_users =
  fixes uid :: "'c \<Rightarrow> string \<Rightarrow> string \<Rightarrow> int"
    and add :: "string \<Rightarrow> UserInfo list \<Rightarrow> NodeInfo \<Rightarrow> 'c \<Rightarrow> ((int \<times> err) \<times> 'c) outcome"
    and del :: "UserInfo list \<Rightarrow> string \<Rightarrow> NodeInfo \<Rightarrow> 'c \<Rightarrow> (err \<times> 'c) outcome"
  assumes add_uid: "add tag us n c = Ret ((k, None), c') \<Longrightarrow> distinct (map ui_Uuid us) \<Longrightarrow>
      uid c' tag x = (if x \<in> uuids us then idsOf us x else uid c tag x)"
    and add_count: "add tag us n c = Ret ((k, None), c') \<Longrightarrow> k = int (length us)"
    and del_uid: "del us tag n c = Ret (None, c') \<Longrightarrow>
      uid c' tag x = (if x \<in> uuids us then 0 else uid c tag x)"
begin

lemma delete_all_uid:
  "deleteAll del us tag n c = Ret (None, c') \<Longrightarrow> uid c' tag x = (if x \<in> uuids us then 0 else uid c tag x)"
  by (auto simp: deleteAll_def uuids_def del_uid split: if_splits)

lemma add_all_uid:
  "addAll add tag us n c = Ret ((k, None), c') \<Longrightarrow> distinct (map ui_Uuid us) \<Longrightarrow>
   uid c' tag x = (if x \<in> uuids us then idsOf us x else uid c tag x)"
  by (auto simp: addAll_def uuids_def add_uid split: if_splits)

text \<open>A core that knows nobody on a node knows the users of the list after AddUsers.\<close>

lemma fresh_add:
  assumes "\<And>x. uid c tag x = 0" "add tag us n c = Ret ((k, None), c')" "distinct (map ui_Uuid us)"
  shows "uid c' tag = idsOf us"
  by (rule ext) (use add_uid [OF assms(2,3)] assms(1) idsOf_notin in auto)

text \<open>Sending the difference of two lists takes a core from the one to the other.\<close>

lemma sync:
  assumes lists: "user_lists old new"
    and cmp: "compareUserList old new = (deleted, added)"
    and before: "\<And>x. uid c tag x = idsOf old x"
    and d: "deleteAll del deleted tag n c = Ret (None, c1)"
    and a: "addAll add tag added n' c1 = Ret ((k, None), c2)"
  shows "uid c2 tag x = idsOf new x"
proof -
  note keys = user_lists_keys [OF lists]
  note del_set = compareUserList_sets(1) [OF keys cmp]
  note add_list = compareUserList_sets(2) [OF keys cmp]
  have same: "userKey u = userKey v \<Longrightarrow> ui_Uuid u = ui_Uuid v"
    if "u \<in> set old \<union> set new" "v \<in> set old \<union> set new" for u v
    using lists that unfolding user_lists_def by (metis userKey_uuid)
  have old_inj: "ui_Uuid u = ui_Uuid v \<Longrightarrow> u = v" if "u \<in> set old" "v \<in> set old" for u v
    using lists that unfolding user_lists_def distinct_map by (metis inj_onD)
  have new_inj: "ui_Uuid u = ui_Uuid v \<Longrightarrow> u = v" if "u \<in> set new" "v \<in> set new" for u v
    using lists that unfolding user_lists_def distinct_map by (metis inj_onD)
  have dn: "distinct (map ui_Uuid new)" and do: "distinct (map ui_Uuid old)"
    using lists by (auto simp: user_lists_def)
  have da: "distinct (map ui_Uuid added)"
    using dn unfolding add_list by (rule distinct_map_filter)
  have c2: "uid c2 tag x = (if x \<in> uuids added then idsOf added x
      else if x \<in> uuids deleted then 0 else idsOf old x)"
    using add_all_uid [OF a da, of x] delete_all_uid [OF d, of x] before [of x] by simp
  show ?thesis
  proof (cases "x \<in> uuids new")
    case False
    have "x \<notin> uuids added"
      using False by (auto simp: uuids_def add_list)
    moreover have "x \<in> uuids deleted" if xo: "x \<in> uuids old"
    proof -
      obtain u where u: "u \<in> set old" "x = ui_Uuid u"
        using xo by (auto simp: uuids_def)
      have "userKey u \<notin> userKey ` set new"
      proof
        assume "userKey u \<in> userKey ` set new"
        then obtain v where v: "v \<in> set new" "userKey u = userKey v"
          by blast
        then have "ui_Uuid u = ui_Uuid v"
          using same u(1) by simp
        then show False
          using False u(2) v(1) by (simp add: uuids_def)
      qed
      then show ?thesis
        using u by (auto simp: uuids_def del_set)
    qed
    ultimately show ?thesis
      using c2 False by (cases "x \<in> uuids old") (auto simp: idsOf_notin)
  next
    case True
    then obtain v where v: "v \<in> set new" "x = ui_Uuid v"
      by (auto simp: uuids_def)
    show ?thesis
    proof (cases "userKey v \<in> userKey ` set old")
      case False
      then have "v \<in> set added"
        using v by (simp add: add_list)
      then show ?thesis
        using c2 v idsOf_in [of v added] idsOf_in [of v new] da dn by (auto simp: uuids_def)
    next
      case in_old: True
      then obtain u where u: "u \<in> set old" "userKey u = userKey v"
        by (metis image_iff)
      have ux: "ui_Uuid u = x"
        using same [of u v] u v by simp
      have "x \<notin> uuids added"
      proof
        assume "x \<in> uuids added"
        then obtain w where w: "w \<in> set new" "x = ui_Uuid w" "userKey w \<notin> userKey ` set old"
          by (auto simp: uuids_def add_list)
        have "w = v"
          by (rule new_inj [OF w(1) v(1)]) (use w(2) v(2) in simp)
        then show False
          using w(3) in_old by simp
      qed
      moreover have "x \<notin> uuids deleted"
      proof
        assume "x \<in> uuids deleted"
        then obtain w where w: "w \<in> set old" "x = ui_Uuid w" "userKey w \<notin> userKey ` set new"
          by (auto simp: uuids_def del_set)
        have "w = u"
          by (rule old_inj [OF w(1) u(1)]) (use w(2) ux in simp)
        then show False
          using w(3) u(2) v(1) by simp
      qed
      moreover have "ui_Id u = ui_Id v"
        using lists u(1) v ux unfolding user_lists_def by metis
      ultimately show ?thesis
        using c2 u v ux idsOf_in [OF u(1) do] idsOf_in [OF v(1) dn] by simp
    qed
  qed
qed

end

section \<open>Properties\<close>

text \<open>C22: Comparing the panel's list with the one in use: the deleted users are exactly the old ones
  whose uuid and speed limit are not in the new list, the added ones exactly the new ones whose uuid
  and speed limit are not in the old list, in the new list's order; a user with a new speed limit is
  in both.\<close>

theorem compareUserList_spec:
  assumes "distinct (map userKey old)" "distinct (map userKey new)"
    and "compareUserList old new = (deleted, added)"
  shows "set deleted = {u \<in> set old. userKey u \<notin> userKey ` set new} \<and>
    added = filter (\<lambda>u. userKey u \<notin> userKey ` set old) new"
  using compareUserList_sets [OF assms] by simp

definition wit_u :: "int \<Rightarrow> string \<Rightarrow> int \<Rightarrow> UserInfo" where
  "wit_u i x s = \<lparr>ui_Id = i, ui_Uuid = x, ui_SpeedLimit = s, ui_DeviceLimit = 0\<rparr>"

theorem compareUserList_spec_witness:
  "compareUserList [wit_u 1 ''a'' 0, wit_u 2 ''b'' 0] [wit_u 2 ''b'' 5, wit_u 1 ''a'' 0]
     = ([wit_u 2 ''b'' 0], [wit_u 2 ''b'' 5]) \<and>
   [wit_u 2 ''b'' 5] = filter (\<lambda>u. userKey u \<notin> userKey ` set [wit_u 1 ''a'' 0, wit_u 2 ''b'' 0])
     [wit_u 2 ''b'' 5, wit_u 1 ''a'' 0]"
proof -
  have c: "compareUserList [wit_u 1 ''a'' 0, wit_u 2 ''b'' 0] [wit_u 2 ''b'' 5, wit_u 1 ''a'' 0]
     = ([wit_u 2 ''b'' 0], [wit_u 2 ''b'' 5])"
    by code_simp
  have d: "distinct (map userKey [wit_u 1 ''a'' 0, wit_u 2 ''b'' 0])"
    "distinct (map userKey [wit_u 2 ''b'' 5, wit_u 1 ''a'' 0])"
    by code_simp+
  show ?thesis
    by (rule conjI [OF c conjunct2 [OF compareUserList_spec [OF d c]]])
qed

text \<open>A changed device limit or id is not a difference.\<close>

lemma device_limit_not_compared:
  "compareUserList [wit_u 1 ''a'' 0] [(wit_u 9 ''a'' 0)\<lparr>ui_DeviceLimit := 3\<rparr>] = ([], [])"
  by code_simp

text \<open>Without a fixed length of the uuids two users can share a key.\<close>

lemma key_not_injective: "compareUserList [wit_u 1 ''a'' 12] [wit_u 2 ''a1'' 2] = ([], [])"
  by code_simp

end
