(* ===== verification/Core_Selector.thy ===== *)
theory Core_Selector
  imports User_Sync
begin

text \<open>
  The interface of a proxy core and its two implementations outside the cores themselves:
  core/interface.go, the registry of core/core.go and the selector of core/selector.go.

  A value of the Go interface \<open>Core\<close> is a state \<open>'c\<close> with a table of methods, the record \<open>Core\<close>; the
  dynamic type of the value is part of the state.  A selector holds its cores by name; a node refers
  to its core by that name, which never changes, so the name stands for the pointer.
\<close>

section \<open>The interface\<close>

record 'c Core =
  cr_Start :: "'c \<Rightarrow> (err \<times> 'c) outcome"
  cr_Close :: "'c \<Rightarrow> (err \<times> 'c) outcome"
  cr_AddNode :: "string \<Rightarrow> NodeInfo \<Rightarrow> Options \<Rightarrow> 'c \<Rightarrow> ((err \<times> Options) \<times> 'c) outcome"
  cr_DelNode :: "string \<Rightarrow> 'c \<Rightarrow> (err \<times> 'c) outcome"
  cr_AddUsers :: "string \<Rightarrow> UserInfo list \<Rightarrow> NodeInfo \<Rightarrow> 'c \<Rightarrow> ((int \<times> err) \<times> 'c) outcome"
  cr_GetUserTrafficSlice :: "string \<Rightarrow> bool \<Rightarrow> 'c \<Rightarrow> ((UserTraffic list \<times> err) \<times> 'c) outcome"
  cr_DelUsers :: "UserInfo list \<Rightarrow> string \<Rightarrow> NodeInfo \<Rightarrow> 'c \<Rightarrow> (err \<times> 'c) outcome"
  cr_Protocols :: "'c \<Rightarrow> string list"
  cr_Type :: "'c \<Rightarrow> string"

section \<open>The selector\<close>

record 'c Selector =
  sl_cores :: "(string, 'c) gomap"
  sl_nodes :: "(string, string) gomap"

type_synonym 'c constructors = "(string, CoreConfig \<Rightarrow> 'c res outcome) gomap"

fun newCores ::
  "'c constructors \<Rightarrow> CoreConfig list \<Rightarrow> (string, 'c) gomap \<Rightarrow> (string, 'c) gomap res outcome" where
  "newCores ctors [] cs = Ret (Inr cs)"
| "newCores ctors (t # ts) cs =
     (case map_of ctors (to_lower (co_Type t)) of
        None \<Rightarrow> Ret (Inl (''unknown core type: '' @ co_Type t))
      | Some f \<Rightarrow> (case f t of
          Panic \<Rightarrow> Panic
        | Ret (Inl e) \<Rightarrow> Ret (Inl e)
        | Ret (Inr core1) \<Rightarrow>
            newCores ctors ts (mstore (if co_Name t = [] then co_Type t else co_Name t) core1 cs)))"

definition NewSelector :: "'c constructors \<Rightarrow> CoreConfig list \<Rightarrow> 'c Selector res outcome" where
  "NewSelector ctors c =
     (case newCores ctors c [] of
        Panic \<Rightarrow> Panic
      | Ret (Inl e) \<Rightarrow> Ret (Inl e)
      | Ret (Inr cs) \<Rightarrow> Ret (Inr \<lparr>sl_cores = cs, sl_nodes = []\<rparr>))"

fun startCores :: "'c Core \<Rightarrow> (string \<times> 'c) list \<Rightarrow> (err \<times> (string \<times> 'c) list) outcome" where
  "startCores I [] = Ret (None, [])"
| "startCores I ((n, c) # cs) =
     (case cr_Start I c of
        Panic \<Rightarrow> Panic
      | Ret (Some e, c) \<Rightarrow> Ret (Some e, (n, c) # cs)
      | Ret (None, c) \<Rightarrow> (case startCores I cs of Panic \<Rightarrow> Panic | Ret (e, cs) \<Rightarrow> Ret (e, (n, c) # cs)))"

definition Selector_Start :: "'c Core \<Rightarrow> 'c Selector \<Rightarrow> (err \<times> 'c Selector) outcome" where
  "Selector_Start I s =
     (case startCores I (sl_cores s) of Panic \<Rightarrow> Panic | Ret (e, cs) \<Rightarrow> Ret (e, s\<lparr>sl_cores := cs\<rparr>))"

fun closeCores :: "'c Core \<Rightarrow> (string \<times> 'c) list \<Rightarrow> (goerr list \<times> (string \<times> 'c) list) outcome" where
  "closeCores I [] = Ret ([], [])"
| "closeCores I ((n, c) # cs) =
     (case cr_Close I c of
        Panic \<Rightarrow> Panic
      | Ret (e, c) \<Rightarrow> (case closeCores I cs of
          Panic \<Rightarrow> Panic
        | Ret (es, cs) \<Rightarrow> Ret ((case e of None \<Rightarrow> es | Some x \<Rightarrow> x # es), (n, c) # cs)))"

text \<open>errors.Join: nil for no error, else the texts on lines of their own.\<close>

definition Selector_Close :: "'c Core \<Rightarrow> 'c Selector \<Rightarrow> (err \<times> 'c Selector) outcome" where
  "Selector_Close I s =
     (case closeCores I (sl_cores s) of
        Panic \<Rightarrow> Panic
      | Ret (errs, cs) \<Rightarrow>
          Ret (if errs = [] then None else Some (join_with [CHR 0x0A] errs), s\<lparr>sl_cores := cs\<rparr>))"

definition isSupported :: "string \<Rightarrow> string list \<Rightarrow> bool" where
  "isSupported protocol protocols = list_ex (\<lambda>p. protocol = p) protocols"

text \<open>The core for a node: the one named, or the last of the map's order that fits; the order of a Go map
  is any order.\<close>

definition fits :: "'c Core \<Rightarrow> NodeInfo \<Rightarrow> Options \<Rightarrow> 'c \<Rightarrow> bool" where
  "fits I info option c =
     (if op_Core option = [] then isSupported (ni_Type info) (cr_Protocols I c)
      else op_Core option = cr_Type I c)"

definition selectCore :: "'c Core \<Rightarrow> NodeInfo \<Rightarrow> Options \<Rightarrow> (string, 'c) gomap \<Rightarrow> (string \<times> 'c) option" where
  "selectCore I info option cores =
     (if op_CoreName option \<noteq> [] then map_option (Pair (op_CoreName option)) (map_of cores (op_CoreName option))
      else fold (\<lambda>(n, c) core. if fits I info option c then Some (n, c) else core) cores None)"

text \<open>A node whose entry names no core type is decoded again for the type chosen; the options belong to
  the caller, who sees the change.\<close>

definition completeOptions :: "json_env \<Rightarrow> string \<Rightarrow> Options \<Rightarrow> Options \<times> err" where
  "completeOptions J t option =
     (if op_Core option = [] then
        (case Options_UnmarshalJSON J (op_RawOptions option) (option\<lparr>op_Core := t\<rparr>) of
           (option, Some e) \<Rightarrow> (option, Some (''unmarshal option error: '' @ e))
         | (option, None) \<Rightarrow> (option\<lparr>op_RawOptions := []\<rparr>, None))
      else (option, None))"

definition Selector_AddNode ::
  "json_env \<Rightarrow> 'c Core \<Rightarrow> string \<Rightarrow> NodeInfo \<Rightarrow> Options \<Rightarrow> 'c Selector \<Rightarrow>
   ((err \<times> Options) \<times> 'c Selector) outcome" where
  "Selector_AddNode J I tag info option s =
     (case selectCore I info option (sl_cores s) of
        None \<Rightarrow> Ret ((Some ''the node type is not support'', option), s)
      | Some (n, core) \<Rightarrow>
          (case completeOptions J (cr_Type I core) option of
             (option, Some e) \<Rightarrow> Ret ((Some e, option), s)
           | (option, None) \<Rightarrow>
               (case cr_AddNode I tag info option core of
                  Panic \<Rightarrow> Panic
                | Ret ((Some e, option), core) \<Rightarrow> Ret ((Some e, option), s\<lparr>sl_cores := mstore n core (sl_cores s)\<rparr>)
                | Ret ((None, option), core) \<Rightarrow>
                    Ret ((None, option), s\<lparr>sl_cores := mstore n core (sl_cores s), sl_nodes := mstore tag n (sl_nodes s)\<rparr>))))"

text \<open>The core of a node: Load of the node map, then the pointer.\<close>

definition nodeCore :: "'c Selector \<Rightarrow> string \<Rightarrow> (string \<times> 'c) option" where
  "nodeCore s tag =
     (case map_of (sl_nodes s) tag of
        None \<Rightarrow> None
      | Some n \<Rightarrow> map_option (Pair n) (map_of (sl_cores s) n))"

definition Selector_DelNode :: "'c Core \<Rightarrow> string \<Rightarrow> 'c Selector \<Rightarrow> (err \<times> 'c Selector) outcome" where
  "Selector_DelNode I tag s =
     (case nodeCore s tag of
        None \<Rightarrow> Ret (Some ''the node is not have'', s)
      | Some (n, t) \<Rightarrow> (case cr_DelNode I tag t of
          Panic \<Rightarrow> Panic
        | Ret (Some e, t) \<Rightarrow> Ret (Some e, s\<lparr>sl_cores := mstore n t (sl_cores s)\<rparr>)
        | Ret (None, t) \<Rightarrow>
            Ret (None, s\<lparr>sl_cores := mstore n t (sl_cores s), sl_nodes := mdelete tag (sl_nodes s)\<rparr>)))"

definition Selector_AddUsers ::
  "'c Core \<Rightarrow> string \<Rightarrow> UserInfo list \<Rightarrow> NodeInfo \<Rightarrow> 'c Selector \<Rightarrow> ((int \<times> err) \<times> 'c Selector) outcome" where
  "Selector_AddUsers I tag us info s =
     (case nodeCore s tag of
        None \<Rightarrow> Ret ((0, Some ''the node is not have''), s)
      | Some (n, t) \<Rightarrow> (case cr_AddUsers I tag us info t of
          Panic \<Rightarrow> Panic | Ret (r, t) \<Rightarrow> Ret (r, s\<lparr>sl_cores := mstore n t (sl_cores s)\<rparr>)))"

definition Selector_GetUserTrafficSlice ::
  "'c Core \<Rightarrow> string \<Rightarrow> bool \<Rightarrow> 'c Selector \<Rightarrow> ((UserTraffic list \<times> err) \<times> 'c Selector) outcome" where
  "Selector_GetUserTrafficSlice I tag reset s =
     (case nodeCore s tag of
        None \<Rightarrow> Ret (([], Some ''the node is not have''), s)
      | Some (n, t) \<Rightarrow> (case cr_GetUserTrafficSlice I tag reset t of
          Panic \<Rightarrow> Panic | Ret (r, t) \<Rightarrow> Ret (r, s\<lparr>sl_cores := mstore n t (sl_cores s)\<rparr>)))"

definition Selector_DelUsers ::
  "'c Core \<Rightarrow> UserInfo list \<Rightarrow> string \<Rightarrow> NodeInfo \<Rightarrow> 'c Selector \<Rightarrow> (err \<times> 'c Selector) outcome" where
  "Selector_DelUsers I us tag info s =
     (case nodeCore s tag of
        None \<Rightarrow> Ret (Some ''the node is not have'', s)
      | Some (n, t) \<Rightarrow> (case cr_DelUsers I us tag info t of
          Panic \<Rightarrow> Panic | Ret (e, t) \<Rightarrow> Ret (e, s\<lparr>sl_cores := mstore n t (sl_cores s)\<rparr>)))"

definition Selector_Protocols :: "'c Core \<Rightarrow> 'c Selector \<Rightarrow> string list" where
  "Selector_Protocols I s = concat (map (\<lambda>(n, c). cr_Protocols I c) (sl_cores s))"

definition Selector_Type :: "'c Core \<Rightarrow> 'c Selector \<Rightarrow> string" where
  "Selector_Type I s = ''Selector('' @
     join_with '' '' (map (\<lambda>(n, c). if n = [] then cr_Type I c else n) (sl_cores s)) @ '')''"

text \<open>The selector as a core.\<close>

definition selectorCore :: "json_env \<Rightarrow> 'c Core \<Rightarrow> 'c Selector Core" where
  "selectorCore J I = \<lparr>cr_Start = Selector_Start I, cr_Close = Selector_Close I,
     cr_AddNode = Selector_AddNode J I, cr_DelNode = Selector_DelNode I,
     cr_AddUsers = Selector_AddUsers I, cr_GetUserTrafficSlice = Selector_GetUserTrafficSlice I,
     cr_DelUsers = Selector_DelUsers I, cr_Protocols = Selector_Protocols I, cr_Type = Selector_Type I\<rparr>"

section \<open>The registry\<close>

text \<open>What NewCore makes: the one core, or a selector over several.\<close>

datatype 'c newCore = OneCore 'c | ManyCores "'c Selector"

definition RegisterCore ::
  "string \<Rightarrow> (CoreConfig \<Rightarrow> 'c res outcome) \<Rightarrow> 'c constructors \<Rightarrow> 'c constructors" where
  "RegisterCore t f cores = mstore t f cores"

definition RegisteredCore :: "'c constructors \<Rightarrow> string list" where
  "RegisteredCore cores = map fst cores"

definition NewCore :: "'c constructors \<Rightarrow> CoreConfig list \<Rightarrow> 'c newCore res outcome" where
  "NewCore cores c =
     (case c of
        [] \<Rightarrow> Ret (Inl ''no have vail core'')
      | [x] \<Rightarrow> (case map_of cores (co_Type x) of
          None \<Rightarrow> Ret (Inl ''unknown core type'')
        | Some f \<Rightarrow> (case f x of
            Panic \<Rightarrow> Panic | Ret (Inl e) \<Rightarrow> Ret (Inl e) | Ret (Inr k) \<Rightarrow> Ret (Inr (OneCore k))))
      | _ \<Rightarrow> (case NewSelector cores c of
          Panic \<Rightarrow> Panic | Ret (Inl e) \<Rightarrow> Ret (Inl e) | Ret (Inr s) \<Rightarrow> Ret (Inr (ManyCores s))))"

section \<open>Lemmas\<close>

lemma selectCore_in:
  assumes "selectCore I info option cores = Some (n, c)"
  shows "(op_CoreName option \<noteq> [] \<longrightarrow> n = op_CoreName option \<and> map_of cores n = Some c) \<and>
    (op_CoreName option = [] \<longrightarrow> (n, c) \<in> set cores \<and> fits I info option c)"
proof (cases "op_CoreName option = []")
  case False
  then show ?thesis using assms by (auto simp: selectCore_def)
next
  case True
  have "fold (\<lambda>(n, c) core. if fits I info option c then Some (n, c) else core) cores acc = Some (n, c) \<Longrightarrow>
      acc = Some (n, c) \<or> (n, c) \<in> set cores \<and> fits I info option c" for acc
    by (induction cores arbitrary: acc) (fastforce split: if_splits)+
  from this [of None] show ?thesis
    using assms True by (simp add: selectCore_def)
qed

text \<open>Some core is found exactly when the named one exists, or one fits.\<close>

lemma selectCore_None:
  "selectCore I info option cores = None \<longleftrightarrow>
     (if op_CoreName option \<noteq> [] then map_of cores (op_CoreName option) = None
      else (\<forall>e\<in>set cores. \<not> fits I info option (snd e)))"
proof -
  have "fold (\<lambda>(n, c) core. if fits I info option c then Some (n, c) else core) cores acc = None \<longleftrightarrow>
      acc = None \<and> (\<forall>e\<in>set cores. \<not> fits I info option (snd e))" for acc
    by (induction cores arbitrary: acc) (auto split: if_splits)
  then show ?thesis by (auto simp: selectCore_def)
qed

lemma nodeCore_store:
  "nodeCore s tag = Some (n, t) \<Longrightarrow> nodeCore (s\<lparr>sl_cores := mstore n t' (sl_cores s)\<rparr>) tag = Some (n, t')"
  by (auto simp: nodeCore_def map_of_mstore split: option.splits)

lemmas user_ops = Selector_AddUsers_def Selector_DelUsers_def Selector_GetUserTrafficSlice_def

text \<open>The user operations change the state of one core only, the node's.\<close>

lemma Selector_DelUsers_ok:
  assumes "Selector_DelUsers I us tag info s = Ret (None, s')"
  shows "\<exists>n t t'. nodeCore s tag = Some (n, t) \<and> cr_DelUsers I us tag info t = Ret (None, t') \<and>
    s' = s\<lparr>sl_cores := mstore n t' (sl_cores s)\<rparr>"
  using assms by (auto simp: user_ops split: option.splits outcome.splits prod.splits)

lemma Selector_AddUsers_ok:
  assumes "Selector_AddUsers I tag us info s = Ret ((k, None), s')"
  shows "\<exists>n t t'. nodeCore s tag = Some (n, t) \<and> cr_AddUsers I tag us info t = Ret ((k, None), t') \<and>
    s' = s\<lparr>sl_cores := mstore n t' (sl_cores s)\<rparr>"
  using assms by (auto simp: user_ops split: option.splits outcome.splits prod.splits)

section \<open>The contract of the user operations\<close>

definition sel_uid :: "('c \<Rightarrow> string \<Rightarrow> string \<Rightarrow> int) \<Rightarrow> 'c Selector \<Rightarrow> string \<Rightarrow> string \<Rightarrow> int" where
  "sel_uid uid s tag x = (case nodeCore s tag of None \<Rightarrow> 0 | Some (n, t) \<Rightarrow> uid t tag x)"

lemma sel_uid_store:
  "nodeCore s tag = Some (n, t) \<Longrightarrow> sel_uid uid (s\<lparr>sl_cores := mstore n t' (sl_cores s)\<rparr>) tag x = uid t' tag x"
  by (simp add: sel_uid_def nodeCore_store)

text \<open>A method table whose user operations keep the contract; then so do the selector's.\<close>

locale core_table = core_users uid "cr_AddUsers I" "cr_DelUsers I"
  for uid :: "'c \<Rightarrow> string \<Rightarrow> string \<Rightarrow> int" and I :: "'c Core"
begin

lemma selector_add:
  assumes "Selector_AddUsers I tag us n c = Ret ((k, None), c')"
  shows "(distinct (map ui_Uuid us) \<longrightarrow>
      sel_uid uid c' tag x = (if x \<in> uuids us then idsOf us x else sel_uid uid c tag x)) \<and> k = int (length us)"
proof -
  obtain m t t' where r: "nodeCore c tag = Some (m, t)" "cr_AddUsers I tag us n t = Ret ((k, None), t')"
    "c' = c\<lparr>sl_cores := mstore m t' (sl_cores c)\<rparr>"
    using Selector_AddUsers_ok [OF assms] by blast
  show ?thesis
    using add_uid [OF r(2), where x = x] add_count [OF r(2)] r(1) unfolding r(3)
    by (simp add: sel_uid_store [OF r(1)]) (simp add: sel_uid_def)
qed

lemma selector_del:
  assumes "Selector_DelUsers I us tag n c = Ret (None, c')"
  shows "sel_uid uid c' tag x = (if x \<in> uuids us then 0 else sel_uid uid c tag x)"
proof -
  obtain m t t' where r: "nodeCore c tag = Some (m, t)" "cr_DelUsers I us tag n t = Ret (None, t')"
    "c' = c\<lparr>sl_cores := mstore m t' (sl_cores c)\<rparr>"
    using Selector_DelUsers_ok [OF assms] by blast
  show ?thesis
    using del_uid [OF r(2), of x] r(1) unfolding r(3)
    by (simp add: sel_uid_store [OF r(1)]) (simp add: sel_uid_def)
qed

end

sublocale core_table \<subseteq> sel: core_users "sel_uid uid" "Selector_AddUsers I" "Selector_DelUsers I"
  by unfold_locales (use selector_add selector_del in blast)+

section \<open>Properties\<close>

text \<open>A selector in order: names are unique and every filed node has a core.\<close>

definition selector_ok :: "'c Selector \<Rightarrow> bool" where
  "selector_ok s \<longleftrightarrow> wf_map (sl_cores s) \<and> (\<forall>e\<in>set (sl_nodes s). map_of (sl_cores s) (snd e) \<noteq> None)"

lemma selector_ok_store:
  "selector_ok s \<Longrightarrow> selector_ok (s\<lparr>sl_cores := mstore n c (sl_cores s)\<rparr>)"
  by (auto simp: selector_ok_def wf_map_mstore map_of_mstore)

lemma selector_ok_file:
  "selector_ok s \<Longrightarrow> selector_ok (s\<lparr>sl_cores := mstore n c (sl_cores s), sl_nodes := mstore tag n (sl_nodes s)\<rparr>)"
  by (auto simp: selector_ok_def wf_map_mstore map_of_mstore dest!: mstore_set)

lemma selector_ok_forget:
  "selector_ok s \<Longrightarrow> selector_ok (s\<lparr>sl_cores := mstore n c (sl_cores s), sl_nodes := mdelete tag (sl_nodes s)\<rparr>)"
  by (auto simp: selector_ok_def wf_map_mstore map_of_mstore dest!: mdelete_set)

lemma Selector_AddNode_ok:
  assumes "Selector_AddNode J I tag info option s = Ret ((None, option'), s')"
  obtains n core p core' where "selectCore I info option (sl_cores s) = Some (n, core)"
    and "completeOptions J (cr_Type I core) option = (p, None)"
    and "cr_AddNode I tag info p core = Ret ((None, option'), core')"
    and "s' = s\<lparr>sl_cores := mstore n core' (sl_cores s), sl_nodes := mstore tag n (sl_nodes s)\<rparr>"
  using assms
  by (auto simp: Selector_AddNode_def split: option.split_asm prod.split_asm outcome.split_asm)

lemma Selector_AddNode_error:
  assumes "Selector_AddNode J I tag info option s = Ret ((Some e, option'), s')" "selector_ok s"
  shows "selector_ok s' \<and> sl_nodes s' = sl_nodes s"
proof -
  have "s' = s \<or> (\<exists>n core core'. selectCore I info option (sl_cores s) = Some (n, core) \<and>
      s' = s\<lparr>sl_cores := mstore n core' (sl_cores s)\<rparr>)"
    using assms(1) by (auto simp: Selector_AddNode_def split: option.split_asm prod.split_asm outcome.split_asm)
  then show ?thesis
    using assms(2) selectCore_in by (fastforce simp: selector_ok_store)
qed

text \<open>C9: Placing a node: AddNode succeeds only on a core that the entry names, or, when it names none, on
  one whose type is the entry's or that speaks the node's protocol; the node is then filed with that
  core, in the state its own AddNode left it, no other core is touched, and the selector stays in
  order.  After an error no node is filed or moved.\<close>

theorem Selector_AddNode_places:
  assumes "Selector_AddNode J I tag info option s = Ret ((e, option'), s')" "selector_ok s"
  shows "selector_ok s' \<and>
    (e \<noteq> None \<longrightarrow> sl_nodes s' = sl_nodes s) \<and>
    (e = None \<longrightarrow> (\<exists>n core core' p. map_of (sl_cores s) n = Some core \<and>
      (if op_CoreName option \<noteq> [] then n = op_CoreName option else fits I info option core) \<and>
      completeOptions J (cr_Type I core) option = (p, None) \<and>
      cr_AddNode I tag info p core = Ret ((None, option'), core') \<and>
      nodeCore s' tag = Some (n, core') \<and>
      (\<forall>n'. n' \<noteq> n \<longrightarrow> map_of (sl_cores s') n' = map_of (sl_cores s) n')))"
proof (cases e)
  case (Some x)
  then show ?thesis
    using Selector_AddNode_error assms by blast
next
  case None
  obtain n core p core' where sel: "selectCore I info option (sl_cores s) = Some (n, core)"
    and p: "completeOptions J (cr_Type I core) option = (p, None)"
    and add: "cr_AddNode I tag info p core = Ret ((None, option'), core')"
    and s': "s' = s\<lparr>sl_cores := mstore n core' (sl_cores s), sl_nodes := mstore tag n (sl_nodes s)\<rparr>"
    using Selector_AddNode_ok [OF assms(1) [unfolded None]] .
  have "map_of (sl_cores s) n = Some core"
    using selectCore_in [OF sel] assms(2) by (auto simp: selector_ok_def map_of_eq_Some_iff)
  moreover have "if op_CoreName option \<noteq> [] then n = op_CoreName option else fits I info option core"
    using selectCore_in [OF sel] by simp
  moreover have "nodeCore s' tag = Some (n, core')"
    "\<forall>n'. n' \<noteq> n \<longrightarrow> map_of (sl_cores s') n' = map_of (sl_cores s) n'"
    by (simp_all add: s' nodeCore_def map_of_mstore)
  ultimately show ?thesis
    using selector_ok_file [OF assms(2)] None p add s' by blast
qed

text \<open>An entry that names no core type gets the options of the chosen type as long as its own text does
  not spell a type that is none of the program's; then the record stays missing and the core uses a
  nil pointer.\<close>

lemma completeOptions_xray:
  assumes "op_Core option = []" "je_opt J (op_RawOptions option) (option\<lparr>op_Core := ''xray''\<rparr>) = (p, None)"
    and "je_xrayOpt J (op_RawOptions option) NewXrayOptions = (x, None)" "op_Core p = ''xray''"
  shows "completeOptions J ''xray'' option = (p\<lparr>op_XrayOptions := Some x, op_RawOptions := []\<rparr>, None)"
  using assms by (simp add: completeOptions_def Options_UnmarshalJSON_def)

lemma completeOptions_misspelt:
  assumes "op_Core option = []" "je_opt J (op_RawOptions option) (option\<lparr>op_Core := ''xray''\<rparr>) = (p, None)"
    and "op_Core p \<notin> {''xray'', ''sing'', ''hysteria2''}" "op_XrayOptions p = None"
  shows "\<exists>q. completeOptions J ''xray'' option = (q, None) \<and> op_XrayOptions q = None"
  using assms by (simp add: completeOptions_def Options_UnmarshalJSON_def)

section \<open>Witnesses\<close>

definition wit_table :: "nat Core" where
  "wit_table = \<lparr>cr_Start = (\<lambda>c. Ret (None, c)), cr_Close = (\<lambda>c. Ret (None, c)),
     cr_AddNode = (\<lambda>t i p c. Ret ((None, p), c + 1)), cr_DelNode = (\<lambda>t c. Ret (None, c)),
     cr_AddUsers = (\<lambda>t us i c. Ret ((int (length us), None), c)),
     cr_GetUserTrafficSlice = (\<lambda>t r c. Ret (([], None), c)), cr_DelUsers = (\<lambda>us t i c. Ret (None, c)),
     cr_Protocols = (\<lambda>c. [''trojan'']), cr_Type = (\<lambda>c. ''xray'')\<rparr>"

definition wit_selector :: "nat Selector" where
  "wit_selector = \<lparr>sl_cores = [(''a'', 5), (''b'', 7)], sl_nodes = []\<rparr>"

theorem Selector_AddNode_places_witness:
  "\<exists>p s'. Selector_AddNode wit_json wit_table ''n'' (emptyNode 1 ''trojan'')
      (defaultOptions\<lparr>op_Core := ''xray'', op_CoreName := ''b''\<rparr>) wit_selector = Ret ((None, p), s') \<and>
    nodeCore s' ''n'' = Some (''b'', 8) \<and> map_of (sl_cores s') ''a'' = Some 5"
proof -
  let ?p = "defaultOptions\<lparr>op_Core := ''xray'', op_CoreName := ''b''\<rparr>"
  have r: "Selector_AddNode wit_json wit_table ''n'' (emptyNode 1 ''trojan'') ?p wit_selector
      = Ret ((None, ?p), \<lparr>sl_cores = [(''a'', 5), (''b'', 8)], sl_nodes = [(''n'', ''b'')]\<rparr>)"
    by (simp add: Selector_AddNode_def selectCore_def completeOptions_def wit_table_def wit_selector_def
        mstore_def)
  have ok: "selector_ok wit_selector"
    by (simp add: selector_ok_def wit_selector_def wf_map_def)
  from Selector_AddNode_places [OF r ok] show ?thesis
    using r by (auto simp: wit_table_def wit_selector_def mstore_def)
qed

end
