(* ===== verification/Xray_Build.thy ===== *)
theory Xray_Build
  imports Panel
begin

text \<open>
  The configuration builders of core/xray: the accounts of a node's users (vmess.go, trojan.go,
  ss.go), the inbound handler (inbound.go) and the outbound handler (outbound.go).

  The configuration structs of xray-core are records with the fields the program sets; a settings
  struct that is only marshalled into the inbound is a constructor of \<open>inbound_settings\<close> (marshalling
  a struct of strings, numbers and booleans cannot fail).  A nil pointer that is used is \<open>Panic\<close>.
\<close>

section \<open>Users\<close>

datatype cipher_type = AES_128_GCM | AES_256_GCM | CHACHA20_POLY1305 | CipherNone | CipherUnknown

datatype account =
    VMessAccount string string
  | VlessAccount string string
  | TrojanAccount string
  | SSAccount string cipher_type
  | SS2022Account string

record xrayUser =
  xu_Level :: int
  xu_Email :: string
  xu_Account :: account

definition buildVmessUser :: "string \<Rightarrow> UserInfo \<Rightarrow> xrayUser" where
  "buildVmessUser tag u = \<lparr>xu_Level = 0, xu_Email = UserTag tag (ui_Uuid u),
     xu_Account = VMessAccount (ui_Uuid u) ''auto''\<rparr>"

definition buildVmessUsers :: "string \<Rightarrow> UserInfo list \<Rightarrow> xrayUser list" where
  "buildVmessUsers tag us = map (buildVmessUser tag) us"

definition buildVlessUser :: "string \<Rightarrow> string \<Rightarrow> UserInfo \<Rightarrow> xrayUser" where
  "buildVlessUser tag flow u = \<lparr>xu_Level = 0, xu_Email = UserTag tag (ui_Uuid u),
     xu_Account = VlessAccount (ui_Uuid u) flow\<rparr>"

definition buildVlessUsers :: "string \<Rightarrow> UserInfo list \<Rightarrow> string \<Rightarrow> xrayUser list" where
  "buildVlessUsers tag us flow = map (buildVlessUser tag flow) us"

definition buildTrojanUser :: "string \<Rightarrow> UserInfo \<Rightarrow> xrayUser" where
  "buildTrojanUser tag u = \<lparr>xu_Level = 0, xu_Email = UserTag tag (ui_Uuid u),
     xu_Account = TrojanAccount (ui_Uuid u)\<rparr>"

definition buildTrojanUsers :: "string \<Rightarrow> UserInfo list \<Rightarrow> xrayUser list" where
  "buildTrojanUsers tag us = map (buildTrojanUser tag) us"

definition getCipherFromString :: "string \<Rightarrow> cipher_type" where
  "getCipherFromString c =
     (let c = to_lower c in
      if c = ''aes-128-gcm'' \<or> c = ''aead_aes_128_gcm'' then AES_128_GCM
      else if c = ''aes-256-gcm'' \<or> c = ''aead_aes_256_gcm'' then AES_256_GCM
      else if c = ''chacha20-poly1305'' \<or> c = ''aead_chacha20_poly1305'' \<or> c = ''chacha20-ietf-poly1305''
        then CHACHA20_POLY1305
      else if c = ''none'' \<or> c = ''plain'' then CipherNone
      else CipherUnknown)"

definition ssKeyLength :: "string \<Rightarrow> nat" where
  "ssKeyLength c =
     (if c = ''2022-blake3-aes-128-gcm'' then 16
      else if c = ''2022-blake3-aes-256-gcm'' then 32
      else if c = ''2022-blake3-chacha20-poly1305'' then 32
      else 0)"

text \<open>Slicing a string beyond its length panics.\<close>

definition buildSSUser :: "string \<Rightarrow> string \<Rightarrow> string \<Rightarrow> UserInfo \<Rightarrow> xrayUser outcome" where
  "buildSSUser tag cypher serverKey u =
     (if serverKey = [] then
        Ret \<lparr>xu_Level = 0, xu_Email = UserTag tag (ui_Uuid u),
          xu_Account = SSAccount (ui_Uuid u) (getCipherFromString cypher)\<rparr>
      else let n = ssKeyLength cypher in
        if length (ui_Uuid u) < n then Panic
        else Ret \<lparr>xu_Level = 0, xu_Email = UserTag tag (ui_Uuid u),
          xu_Account = SS2022Account (b64encode (take n (ui_Uuid u)))\<rparr>)"

fun buildSSUsers :: "string \<Rightarrow> UserInfo list \<Rightarrow> string \<Rightarrow> string \<Rightarrow> xrayUser list outcome" where
  "buildSSUsers tag [] cypher serverKey = Ret []"
| "buildSSUsers tag (u # us) cypher serverKey =
     (case buildSSUser tag cypher serverKey u of
        Panic \<Rightarrow> Panic
      | Ret x \<Rightarrow> (case buildSSUsers tag us cypher serverKey of
          Panic \<Rightarrow> Panic
        | Ret xs \<Rightarrow> Ret (x # xs)))"

section \<open>The inbound configuration\<close>

record TCPConfig =
  tc_Raw :: string
  tc_AcceptProxyProtocol :: bool

record WebSocketConfig =
  ws_Raw :: string
  ws_AcceptProxyProtocol :: bool

record SocketConfig =
  sk_AcceptProxyProtocol :: bool
  sk_TFO :: bool

record TLSConfig =
  tl_CertFile :: string
  tl_KeyFile :: string
  tl_OcspStapling :: int
  tl_RejectUnknownSNI :: bool

record REALITYConfig =
  re_Dest :: string
  re_Xver :: int
  re_Show :: bool
  re_ServerNames :: "string list"
  re_PrivateKey :: string
  re_MinClientVer :: string
  re_MaxClientVer :: string
  re_MaxTimeDiff :: int
  re_ShortIds :: "string list"
  re_Mldsa65Seed :: string

record StreamConfig =
  sc_Network :: string
  sc_TCPSettings :: "TCPConfig option"
  sc_WSSettings :: "WebSocketConfig option"
  sc_GRPCSettings :: "string option"
  sc_HTTPUPGRADESettings :: "string option"
  sc_SplitHTTPSettings :: "string option"
  sc_SocketSettings :: "SocketConfig option"
  sc_Security :: string
  sc_TLSSettings :: "TLSConfig option"
  sc_REALITYSettings :: "REALITYConfig option"

record Fallback =
  fl_Name :: string
  fl_Alpn :: string
  fl_Path :: string
  fl_Dest :: string
  fl_Xver :: int

record ShadowsocksUserConfig =
  su_Cipher :: string
  su_Password :: string

record ShadowsocksServerConfig =
  ss_Cipher :: string
  ss_Password :: string
  ss_Users :: "ShadowsocksUserConfig list"
  ss_NetworkList :: "string list"
  ss_IVCheck :: bool

datatype inbound_settings =
    NoSettings
  | VLessSettings string "Fallback list"
  | VMessSettings
  | TrojanSettings "Fallback list"
  | EmptyObject
  | SSSettings ShadowsocksServerConfig

record 'a InboundDetourConfig =
  in_Protocol :: string
  in_Settings :: inbound_settings
  in_PortFrom :: int
  in_PortTo :: int
  in_ListenOn :: "'a option"
  in_Sniffing :: "(bool \<times> string list) option"
  in_StreamSetting :: "StreamConfig option"
  in_Tag :: string

definition emptyStream :: "string \<Rightarrow> StreamConfig" where
  "emptyStream network = \<lparr>sc_Network = network, sc_TCPSettings = None, sc_WSSettings = None,
     sc_GRPCSettings = None, sc_HTTPUPGRADESettings = None, sc_SplitHTTPSettings = None,
     sc_SocketSettings = None, sc_Security = [], sc_TLSSettings = None, sc_REALITYSettings = None\<rparr>"

definition emptyInbound :: "'a InboundDetourConfig" where
  "emptyInbound = \<lparr>in_Protocol = [], in_Settings = NoSettings, in_PortFrom = 0, in_PortTo = 0,
     in_ListenOn = None, in_Sniffing = None, in_StreamSetting = None, in_Tag = []\<rparr>"

text \<open>The decoders of the transport settings (a JSON null leaves the pointer nil), the random bytes,
  time.ParseDuration (nanoseconds, 0 on an error), net.ParseAddress, and the library's Build.\<close>

record ('a, 'h) inbound_env =
  ie_tcp :: "string \<Rightarrow> TCPConfig option res"
  ie_ws :: "string \<Rightarrow> WebSocketConfig option res"
  ie_grpc :: "string \<Rightarrow> string option res"
  ie_httpupgrade :: "string \<Rightarrow> string option res"
  ie_splithttp :: "string \<Rightarrow> string option res"
  ie_random :: "string res"
  ie_duration :: "string \<Rightarrow> int"
  ie_address :: "string \<Rightarrow> 'a"
  ie_build :: "'a InboundDetourConfig \<Rightarrow> 'h res"

fun buildFallbacks :: "FallBackConfigForXray list \<Rightarrow> Fallback list res" where
  "buildFallbacks [] = Inr []"
| "buildFallbacks (c # cs) =
     (if fx_Dest c = [] then Inl ''dest is required for fallback fialed''
      else (case buildFallbacks cs of
          Inl e \<Rightarrow> Inl e
        | Inr fs \<Rightarrow> Inr (\<lparr>fl_Name = fx_SNI c, fl_Alpn = fx_Alpn c, fl_Path = fx_Path c,
            fl_Dest = fx_Dest c, fl_Xver = fx_ProxyProtocolVer c\<rparr> # fs)))"

definition buildVlessFallbacks :: "FallBackConfigForXray list option \<Rightarrow> Fallback list res" where
  "buildVlessFallbacks cs =
     (case cs of None \<Rightarrow> Inl ''you must provide FallBackConfigs'' | Some cs \<Rightarrow> buildFallbacks cs)"

definition buildTrojanFallbacks :: "FallBackConfigForXray list option \<Rightarrow> Fallback list res" where
  "buildTrojanFallbacks cs =
     (case cs of None \<Rightarrow> Inl ''you must provide FallBackConfigs'' | Some cs \<Rightarrow> buildFallbacks cs)"

text \<open>The decryption string of a vless node.\<close>

definition vlessDecryption :: "VAllssNode \<Rightarrow> string res" where
  "vlessDecryption v =
     (if va_Encryption v = [] then Inr ''none''
      else if va_Encryption v = ''mlkem768x25519plus'' then
        let e = va_EncryptionSettings v in
        Inr (join_with ''.'' ([''mlkem768x25519plus'', es_Mode e, es_Ticket e]
          @ (if es_ServerPadding e \<noteq> [] then [es_ServerPadding e] else []) @ [es_PrivateKey e]))
      else Inl (''vless decryption method '' @ va_Encryption v @ '' is not support''))"

definition v2raySettings :: "XrayOptions \<Rightarrow> string \<Rightarrow> VAllssNode \<Rightarrow> inbound_settings res" where
  "v2raySettings xo t v =
     (if t = ''vless'' then
        (if xo_EnableFallback xo then
           (case buildVlessFallbacks (xo_FallBackConfigs xo) of
              Inl e \<Rightarrow> Inl e
            | Inr fs \<Rightarrow> Inr (VLessSettings ''none'' fs))
         else (case vlessDecryption v of Inl e \<Rightarrow> Inl e | Inr d \<Rightarrow> Inr (VLessSettings d [])))
      else Inr VMessSettings)"

text \<open>The stream settings of a v2ray network; the settings text is not empty.\<close>

definition v2rayStream :: "('a, 'h) inbound_env \<Rightarrow> string \<Rightarrow> string \<Rightarrow> StreamConfig res" where
  "v2rayStream E network raw =
     (let st = emptyStream network in
      if network = ''tcp'' then
        (case ie_tcp E raw of Inl e \<Rightarrow> Inl (''unmarshal tcp settings error: '' @ e)
         | Inr x \<Rightarrow> Inr (st\<lparr>sc_TCPSettings := x\<rparr>))
      else if network = ''ws'' then
        (case ie_ws E raw of Inl e \<Rightarrow> Inl (''unmarshal ws settings error: '' @ e)
         | Inr x \<Rightarrow> Inr (st\<lparr>sc_WSSettings := x\<rparr>))
      else if network = ''grpc'' then
        (case ie_grpc E raw of Inl e \<Rightarrow> Inl (''unmarshal grpc settings error: '' @ e)
         | Inr x \<Rightarrow> Inr (st\<lparr>sc_GRPCSettings := x\<rparr>))
      else if network = ''httpupgrade'' then
        (case ie_httpupgrade E raw of Inl e \<Rightarrow> Inl (''unmarshal httpupgrade settings error: '' @ e)
         | Inr x \<Rightarrow> Inr (st\<lparr>sc_HTTPUPGRADESettings := x\<rparr>))
      else if network = ''splithttp'' \<or> network = ''xhttp'' then
        (case ie_splithttp E raw of Inl e \<Rightarrow> Inl (''unmarshal xhttp settings error: '' @ e)
         | Inr x \<Rightarrow> Inr (st\<lparr>sc_SplitHTTPSettings := x\<rparr>))
      else Inl ''the network type is not vail'')"

text \<open>Without network settings buildV2ray returns before it makes the stream settings.\<close>

definition buildV2ray ::
  "('a, 'h) inbound_env \<Rightarrow> XrayOptions \<Rightarrow> string \<Rightarrow> VAllssNode \<Rightarrow> 'a InboundDetourConfig \<Rightarrow>
   'a InboundDetourConfig res" where
  "buildV2ray E xo t v inb =
     (case v2raySettings xo t v of
        Inl e \<Rightarrow> Inl e
      | Inr s \<Rightarrow>
          let inb = inb\<lparr>in_Protocol := (if t = ''vless'' then ''vless'' else ''vmess''), in_Settings := s\<rparr> in
          if va_NetworkSettings v = [] then Inr inb
          else (case v2rayStream E (va_Network v) (va_NetworkSettings v) of
              Inl e \<Rightarrow> Inl e
            | Inr st \<Rightarrow> Inr (inb\<lparr>in_StreamSetting := Some st\<rparr>)))"

definition trojanNetwork :: "TrojanNode \<Rightarrow> string" where
  "trojanNetwork v = (if tj_Network v = [] then ''tcp'' else tj_Network v)"

definition trojanStream :: "('a, 'h) inbound_env \<Rightarrow> string \<Rightarrow> string \<Rightarrow> StreamConfig res" where
  "trojanStream E network raw =
     (if network = ''tcp'' \<or> network = ''ws'' \<or> network = ''grpc'' then v2rayStream E network raw
      else Inl ''the network type is not vail'')"

definition buildTrojan ::
  "('a, 'h) inbound_env \<Rightarrow> XrayOptions \<Rightarrow> TrojanNode \<Rightarrow> 'a InboundDetourConfig \<Rightarrow>
   'a InboundDetourConfig res" where
  "buildTrojan E xo v inb =
     (case (if xo_EnableFallback xo
            then (case buildTrojanFallbacks (xo_FallBackConfigs xo) of
                Inl e \<Rightarrow> Inl e | Inr fs \<Rightarrow> Inr (TrojanSettings fs))
            else Inr EmptyObject) of
        Inl e \<Rightarrow> Inl e
      | Inr s \<Rightarrow> (case trojanStream E (trojanNetwork v) (tj_NetworkSettings v) of
          Inl e \<Rightarrow> Inl e
        | Inr st \<Rightarrow> Inr (inb\<lparr>in_Protocol := ''trojan'', in_Settings := s, in_StreamSetting := Some st\<rparr>)))"

definition buildShadowsocks ::
  "('a, 'h) inbound_env \<Rightarrow> XrayOptions \<Rightarrow> ShadowsocksNode \<Rightarrow> 'a InboundDetourConfig \<Rightarrow>
   'a InboundDetourConfig res" where
  "buildShadowsocks E xo v inb =
     (case ie_random E of
        Inl e \<Rightarrow> Inl (''generate random password error: '' @ e)
      | Inr p \<Rightarrow>
          let key = sh_ServerKey v \<noteq> [];
              passwd = (if key then b64encode (hexencode p) else hexencode p)
          in Inr (inb\<lparr>in_Protocol := ''shadowsocks'',
            in_StreamSetting := Some (emptyStream ''tcp''),
            in_Settings := SSSettings \<lparr>ss_Cipher = sh_Cipher v,
              ss_Password = (if key then sh_ServerKey v else []),
              ss_Users = [\<lparr>su_Cipher = (if key then [] else sh_Cipher v), su_Password = passwd\<rparr>],
              ss_NetworkList = [''tcp'', ''udp''], ss_IVCheck = \<not> xo_DisableIVCheck xo\<rparr>\<rparr>))"

text \<open>The protocol part of buildInbound: the inbound and the network, an error, or a nil pointer used.
  Only the vmess branch does not look at the xray options.\<close>

definition protocolInbound ::
  "('a, 'h) inbound_env \<Rightarrow> XrayOptions option \<Rightarrow> NodeInfo \<Rightarrow>
   ('a InboundDetourConfig \<times> string) res outcome" where
  "protocolInbound E xo n =
     (let t = ni_Type n; with_network = (\<lambda>net r. case r of Inl e \<Rightarrow> Ret (Inl e) | Inr i \<Rightarrow> Ret (Inr (i, net))) in
      if t = ''vmess'' \<or> t = ''vless'' then
        (case ni_VAllss n of
           None \<Rightarrow> Panic
         | Some v \<Rightarrow> (case xo of
             Some x \<Rightarrow> with_network (va_Network v) (buildV2ray E x t v emptyInbound)
           | None \<Rightarrow> if t = ''vless'' then Panic
               else with_network (va_Network v) (buildV2ray E NewXrayOptions t v emptyInbound)))
      else if t = ''trojan'' then
        (case (ni_Trojan n, xo) of
           (Some v, Some x) \<Rightarrow> with_network (trojanNetwork v) (buildTrojan E x v emptyInbound)
         | _ \<Rightarrow> Panic)
      else if t = ''shadowsocks'' then
        (case (ni_Shadowsocks n, xo) of
           (Some v, Some x) \<Rightarrow> with_network ''tcp'' (buildShadowsocks E x v emptyInbound)
         | (Some v, None) \<Rightarrow> (case ie_random E of
             Inl e \<Rightarrow> Ret (Inl (''generate random password error: '' @ e)) | Inr _ \<Rightarrow> Panic)
         | (None, _) \<Rightarrow> Panic)
      else Ret (Inl (''unsupported node type: '' @ t @ '', Only support: V2ray, Trojan, Shadowsocks'')))"

text \<open>Accepting the PROXY protocol, by network.\<close>

definition setProxyProtocol :: "XrayOptions \<Rightarrow> string \<Rightarrow> StreamConfig \<Rightarrow> StreamConfig" where
  "setProxyProtocol xo network st =
     (let pp = xo_EnableProxyProtocol xo in
      if network = ''tcp'' then
        st\<lparr>sc_TCPSettings := (case sc_TCPSettings st of
             Some t \<Rightarrow> Some (t\<lparr>tc_AcceptProxyProtocol := pp\<rparr>)
           | None \<Rightarrow> Some \<lparr>tc_Raw = [], tc_AcceptProxyProtocol = pp\<rparr>)\<rparr>
      else if network = ''ws'' then
        st\<lparr>sc_WSSettings := (case sc_WSSettings st of
             Some t \<Rightarrow> Some (t\<lparr>ws_AcceptProxyProtocol := pp\<rparr>)
           | None \<Rightarrow> Some \<lparr>ws_Raw = [], ws_AcceptProxyProtocol = pp\<rparr>)\<rparr>
      else st\<lparr>sc_SocketSettings := Some \<lparr>sk_AcceptProxyProtocol = pp, sk_TFO = xo_EnableTFO xo\<rparr>\<rparr>)"

text \<open>TLS or Reality, by the node's security.\<close>

definition tlsSettings :: "CertConfig option \<Rightarrow> StreamConfig \<Rightarrow> StreamConfig res" where
  "tlsSettings cert st =
     (case cert of
        None \<Rightarrow> Inl ''the CertConfig is not vail''
      | Some c \<Rightarrow> if cc_CertMode c = ''none'' \<or> cc_CertMode c = [] then Inr st
          else Inr (st\<lparr>sc_Security := ''tls'', sc_TLSSettings := Some \<lparr>tl_CertFile = cc_CertFile c,
            tl_KeyFile = cc_KeyFile c, tl_OcspStapling = 3600,
            tl_RejectUnknownSNI = cc_RejectUnknownSni c\<rparr>\<rparr>))"

definition realitySettings :: "(string \<Rightarrow> int) \<Rightarrow> VAllssNode \<Rightarrow> StreamConfig \<Rightarrow> StreamConfig" where
  "realitySettings duration v st =
     (let ts = va_TlsSettings v; rc = va_RealityConfig v;
          dest = (if ts_Dest ts = [] then ts_ServerName ts else ts_Dest ts);
          xver = (if ts_Xver ts = 0 then rl_Xver rc else ts_Xver ts)
      in st\<lparr>sc_Security := ''reality'', sc_REALITYSettings := Some \<lparr>
           re_Dest = dest @ '':'' @ ts_ServerPort ts, re_Xver = xver, re_Show = False,
           re_ServerNames = [ts_ServerName ts], re_PrivateKey = ts_PrivateKey ts,
           re_MinClientVer = rl_MinClientVer rc, re_MaxClientVer = rl_MaxClientVer rc,
           re_MaxTimeDiff = to_uint64 (go_div (duration (rl_MaxTimeDiff rc)) 1000),
           re_ShortIds = [ts_ShortId ts], re_Mldsa65Seed = ts_Mldsa65Seed ts\<rparr>\<rparr>)"

definition securityStream ::
  "(string \<Rightarrow> int) \<Rightarrow> Options \<Rightarrow> NodeInfo \<Rightarrow> StreamConfig \<Rightarrow> StreamConfig res outcome" where
  "securityStream duration option n st =
     (if ni_Security n = secTls then Ret (tlsSettings (op_CertConfig option) st)
      else if ni_Security n = secReality then
        (case ni_VAllss n of None \<Rightarrow> Panic | Some v \<Rightarrow> Ret (Inr (realitySettings duration v st)))
      else Ret (Inr st))"

definition inboundConfig ::
  "('a, 'h) inbound_env \<Rightarrow> Options \<Rightarrow> NodeInfo \<Rightarrow> string \<Rightarrow> 'a InboundDetourConfig res outcome" where
  "inboundConfig E option n tag =
     (case protocolInbound E (op_XrayOptions option) n of
        Panic \<Rightarrow> Panic
      | Ret (Inl e) \<Rightarrow> Ret (Inl e)
      | Ret (Inr (inb, network)) \<Rightarrow>
          (case (ni_Common n, op_XrayOptions option, in_StreamSetting inb) of
             (Some cm, Some xo, Some st) \<Rightarrow>
               (case securityStream (ie_duration E) option n (setProxyProtocol xo network st) of
                  Panic \<Rightarrow> Panic
                | Ret (Inl e) \<Rightarrow> Ret (Inl e)
                | Ret (Inr st) \<Rightarrow> Ret (Inr (inb\<lparr>
                    in_PortFrom := to_uint32 (cn_ServerPort cm), in_PortTo := to_uint32 (cn_ServerPort cm),
                    in_ListenOn := Some (ie_address E (op_ListenIP option)),
                    in_Sniffing := Some (\<not> xo_DisableSniffing xo, [''http'', ''tls'']),
                    in_StreamSetting := Some st, in_Tag := tag\<rparr>)))
           | _ \<Rightarrow> Panic))"

definition buildInbound ::
  "('a, 'h) inbound_env \<Rightarrow> Options \<Rightarrow> NodeInfo \<Rightarrow> string \<Rightarrow> 'h res outcome" where
  "buildInbound E option n tag =
     (case inboundConfig E option n tag of
        Panic \<Rightarrow> Panic
      | Ret (Inl e) \<Rightarrow> Ret (Inl e)
      | Ret (Inr c) \<Rightarrow> Ret (ie_build E c))"

section \<open>The outbound configuration\<close>

record OutboundDetourConfig =
  ob_Protocol :: string
  ob_Tag :: string
  ob_SendThrough :: "string option"
  ob_DomainStrategy :: string

definition resolveSendThrough :: "Options \<Rightarrow> string option" where
  "resolveSendThrough option =
     (let sendIP = trim_space (op_SendIP option) in
      if sendIP \<noteq> [] \<and> sendIP \<noteq> ''0.0.0.0'' \<and> sendIP \<noteq> ''::'' then Some sendIP
      else if (case op_XrayOptions option of None \<Rightarrow> False | Some xo \<Rightarrow> xo_AutoSendThroughOrigin xo)
        then Some ''origin''
      else if sendIP = [] then None
      else Some sendIP)"

definition outboundConfig :: "Options \<Rightarrow> string \<Rightarrow> OutboundDetourConfig outcome" where
  "outboundConfig option tag =
     (case op_XrayOptions option of
        None \<Rightarrow> Panic
      | Some xo \<Rightarrow> Ret \<lparr>ob_Protocol = ''freedom'', ob_Tag = tag, ob_SendThrough = resolveSendThrough option,
          ob_DomainStrategy = (if xo_EnableDNS xo
            then (if xo_DNSType xo \<noteq> [] then xo_DNSType xo else ''UseIP'') else ''Asis'')\<rparr>)"

definition buildOutbound ::
  "(OutboundDetourConfig \<Rightarrow> 'h res) \<Rightarrow> Options \<Rightarrow> string \<Rightarrow> 'h res outcome" where
  "buildOutbound build option tag =
     (case outboundConfig option tag of Panic \<Rightarrow> Panic | Ret c \<Rightarrow> Ret (build c))"

section \<open>Lemmas on the builders\<close>

text \<open>A stream as the protocol builders leave it: no security set.\<close>

definition plainStream :: "StreamConfig \<Rightarrow> bool" where
  "plainStream st \<longleftrightarrow> sc_Security st = [] \<and> sc_TLSSettings st = None \<and> sc_REALITYSettings st = None"

lemma plainStream_simps [simp]:
  "plainStream (emptyStream network)"
  "plainStream (st\<lparr>sc_TCPSettings := t\<rparr>) = plainStream st"
  "plainStream (st\<lparr>sc_WSSettings := w\<rparr>) = plainStream st"
  "plainStream (st\<lparr>sc_GRPCSettings := g\<rparr>) = plainStream st"
  "plainStream (st\<lparr>sc_HTTPUPGRADESettings := g\<rparr>) = plainStream st"
  "plainStream (st\<lparr>sc_SplitHTTPSettings := g\<rparr>) = plainStream st"
  "plainStream (st\<lparr>sc_SocketSettings := s\<rparr>) = plainStream st"
  by (simp_all add: plainStream_def emptyStream_def)

lemma v2rayStream_plain: "v2rayStream E network raw = Inr st \<Longrightarrow> plainStream st"
  unfolding v2rayStream_def Let_def if_Inr case_sum_Inr
  by (elim disjE exE conjE) simp_all

lemma trojanStream_plain: "trojanStream E network raw = Inr st \<Longrightarrow> plainStream st"
  by (auto simp: trojanStream_def dest: v2rayStream_plain split: if_splits)

lemma buildV2ray_stream:
  "buildV2ray E xo t v emptyInbound = Inr inb \<Longrightarrow>
   (in_StreamSetting inb = None \<longleftrightarrow> va_NetworkSettings v = []) \<and>
   (\<forall>st. in_StreamSetting inb = Some st \<longrightarrow> plainStream st)"
  by (auto simp: buildV2ray_def Let_def emptyInbound_def dest: v2rayStream_plain split: sum.splits if_splits)

lemma buildTrojan_stream:
  "buildTrojan E xo v inb0 = Inr inb \<Longrightarrow> \<exists>st. in_StreamSetting inb = Some st \<and> plainStream st"
  by (auto simp: buildTrojan_def dest: trojanStream_plain split: sum.splits if_splits)

lemma buildShadowsocks_stream:
  "buildShadowsocks E xo v inb0 = Inr inb \<Longrightarrow> \<exists>st. in_StreamSetting inb = Some st \<and> plainStream st"
  by (auto simp: buildShadowsocks_def Let_def emptyStream_def plainStream_def split: sum.splits)

lemma protocolInbound_plain:
  assumes "protocolInbound E xo n = Ret (Inr (inb, network))" "in_StreamSetting inb = Some st"
  shows "plainStream st"
  using assms
  by (auto simp: protocolInbound_def Let_def split: if_splits option.splits sum.splits
      dest!: buildV2ray_stream buildTrojan_stream buildShadowsocks_stream)

lemma setProxyProtocol_plain [simp]: "plainStream (setProxyProtocol xo network st) = plainStream st"
  by (simp add: setProxyProtocol_def plainStream_def Let_def)

text \<open>Whether the transport of a network accepts the PROXY protocol.\<close>

definition acceptsProxy :: "string \<Rightarrow> StreamConfig \<Rightarrow> bool option" where
  "acceptsProxy network st =
     (if network = ''tcp'' then map_option tc_AcceptProxyProtocol (sc_TCPSettings st)
      else if network = ''ws'' then map_option ws_AcceptProxyProtocol (sc_WSSettings st)
      else map_option sk_AcceptProxyProtocol (sc_SocketSettings st))"

lemma setProxyProtocol_accepts:
  "acceptsProxy network (setProxyProtocol xo network st) = Some (xo_EnableProxyProtocol xo)"
  by (simp add: acceptsProxy_def setProxyProtocol_def Let_def split: option.splits)

text \<open>The security a node's configuration asks for.\<close>

definition wantedSecurity :: "Options \<Rightarrow> NodeInfo \<Rightarrow> string" where
  "wantedSecurity option n =
     (if ni_Security n = secTls then
        (case op_CertConfig option of
           None \<Rightarrow> []
         | Some c \<Rightarrow> if cc_CertMode c = ''none'' \<or> cc_CertMode c = [] then [] else ''tls'')
      else if ni_Security n = secReality then ''reality''
      else [])"

lemma securityStream_wanted:
  assumes "securityStream d option n st = Ret (Inr st')" "plainStream st"
  shows "sc_Security st' = wantedSecurity option n \<and>
    (sc_TLSSettings st' \<noteq> None \<longleftrightarrow> sc_Security st' = ''tls'') \<and>
    (sc_REALITYSettings st' \<noteq> None \<longleftrightarrow> sc_Security st' = ''reality'') \<and>
    (\<forall>net. acceptsProxy net st' = acceptsProxy net st)"
  using assms
  by (auto simp: securityStream_def tlsSettings_def realitySettings_def wantedSecurity_def plainStream_def
      acceptsProxy_def secTls_def secReality_def Let_def split: if_splits option.splits)

text \<open>The network a node listens on.\<close>

definition nodeNetwork :: "NodeInfo \<Rightarrow> string" where
  "nodeNetwork n =
     (if ni_Type n = ''vmess'' \<or> ni_Type n = ''vless'' then
        (case ni_VAllss n of None \<Rightarrow> [] | Some v \<Rightarrow> va_Network v)
      else if ni_Type n = ''trojan'' then (case ni_Trojan n of None \<Rightarrow> [] | Some v \<Rightarrow> trojanNetwork v)
      else ''tcp'')"

lemma protocolInbound_network:
  "protocolInbound E xo n = Ret (Inr (inb, network)) \<Longrightarrow> network = nodeNetwork n"
  by (auto simp: protocolInbound_def nodeNetwork_def Let_def split: if_splits option.splits sum.splits)

section \<open>Properties\<close>

text \<open>C25: An inbound that is built listens on the node's port only, carries the node's tag, accepts the
  PROXY protocol on the node's transport exactly as configured, and has the security the node asks
  for: TLS with a certificate configuration whose mode is not none, Reality for a reality node, and
  nothing else, the matching settings being present exactly then.\<close>

theorem inbound_as_configured:
  assumes "inboundConfig E option n tag = Ret (Inr c)"
  shows "\<exists>st xo cm. in_StreamSetting c = Some st \<and> op_XrayOptions option = Some xo \<and> ni_Common n = Some cm \<and>
    in_Tag c = tag \<and> in_PortFrom c = to_uint32 (cn_ServerPort cm) \<and> in_PortTo c = in_PortFrom c \<and>
    acceptsProxy (nodeNetwork n) st = Some (xo_EnableProxyProtocol xo) \<and>
    sc_Security st = wantedSecurity option n \<and>
    (sc_TLSSettings st \<noteq> None \<longleftrightarrow> sc_Security st = ''tls'') \<and>
    (sc_REALITYSettings st \<noteq> None \<longleftrightarrow> sc_Security st = ''reality'')"
proof -
  from assms obtain inb network cm xo st0 st where p: "protocolInbound E (op_XrayOptions option) n = Ret (Inr (inb, network))"
    and o: "ni_Common n = Some cm" "op_XrayOptions option = Some xo" "in_StreamSetting inb = Some st0"
    and s: "securityStream (ie_duration E) option n (setProxyProtocol xo network st0) = Ret (Inr st)"
    and c: "c = inb\<lparr>in_PortFrom := to_uint32 (cn_ServerPort cm), in_PortTo := to_uint32 (cn_ServerPort cm),
        in_ListenOn := Some (ie_address E (op_ListenIP option)),
        in_Sniffing := Some (\<not> xo_DisableSniffing xo, [''http'', ''tls'']),
        in_StreamSetting := Some st, in_Tag := tag\<rparr>"
    by (auto simp: inboundConfig_def split: outcome.splits sum.splits option.splits prod.splits)
  have "plainStream (setProxyProtocol xo network st0)"
    using protocolInbound_plain [OF p o(3)] by simp
  from securityStream_wanted [OF s this]
  show ?thesis
    using o(1,2) c protocolInbound_network [OF p] setProxyProtocol_accepts [of network xo st0] by auto
qed

text \<open>What the panel client delivers: the record of the node's type and the common part are there.\<close>

definition wf_node :: "NodeInfo \<Rightarrow> bool" where
  "wf_node n \<longleftrightarrow> ni_Common n \<noteq> None \<and>
     (ni_Type n = ''vmess'' \<or> ni_Type n = ''vless'' \<longleftrightarrow> ni_VAllss n \<noteq> None) \<and>
     (ni_Type n = ''trojan'' \<longleftrightarrow> ni_Trojan n \<noteq> None) \<and>
     (ni_Type n = ''shadowsocks'' \<longleftrightarrow> ni_Shadowsocks n \<noteq> None) \<and>
     (ni_VAllss n = None \<longrightarrow> ni_Security n \<noteq> secReality)"

text \<open>The nodes of the panel client are such nodes.\<close>

lemma finishNode_fields:
  assumes "finishNode n cm = Ret m"
  shows "ni_Common m \<noteq> None \<and> ni_Type m = ni_Type n \<and> ni_Security m = ni_Security n \<and>
    (ni_VAllss m = None \<longleftrightarrow> ni_VAllss n = None) \<and> (ni_Trojan m = None \<longleftrightarrow> ni_Trojan n = None) \<and>
    (ni_Shadowsocks m = None \<longleftrightarrow> ni_Shadowsocks n = None)"
  using assms by (auto simp: finishNode_def clearNode_def split: outcome.splits option.splits)

lemma decodeNode_wf:
  assumes "decodeNode E t b (emptyNode i t) = Ret (Inr (n, cm))"
  shows "(ni_Type n = ''vmess'' \<or> ni_Type n = ''vless'' \<longleftrightarrow> ni_VAllss n \<noteq> None) \<and>
     (ni_Type n = ''trojan'' \<longleftrightarrow> ni_Trojan n \<noteq> None) \<and>
     (ni_Type n = ''shadowsocks'' \<longleftrightarrow> ni_Shadowsocks n \<noteq> None) \<and>
     (ni_VAllss n = None \<longrightarrow> ni_Security n \<noteq> secReality)"
  using assms
  by (auto simp: decodeNode_def emptyNode_def Let_def secReality_def secNone_def secTls_def
      split: if_split_asm sum.split_asm)

lemma parseNode_wf: "parseNode E c b = Some n \<Longrightarrow> wf_node n"
proof -
  assume "parseNode E c b = Some n"
  then obtain m cm where d: "decodeNode E (cl_NodeType c) b (emptyNode (cl_NodeId c) (cl_NodeType c)) = Ret (Inr (m, cm))"
    and f: "finishNode m cm = Ret n"
    by (auto simp: parseNode_def split: outcome.split_asm sum.split_asm)
  show "wf_node n"
    using decodeNode_wf [OF d] finishNode_fields [OF f] by (simp add: wf_node_def)
qed

text \<open>For a node as the panel client delivers it and options of the xray core, building the inbound
  crashes exactly when a vmess or vless node whose protocol settings are accepted comes without
  network settings: the stream settings are then a nil pointer that the builder follows.\<close>

theorem inbound_panics:
  assumes "wf_node n" "op_XrayOptions option = Some xo"
  shows "inboundConfig E option n tag = Panic \<longleftrightarrow>
    (\<exists>v s. ni_VAllss n = Some v \<and> v2raySettings xo (ni_Type n) v = Inr s \<and> va_NetworkSettings v = [])"
proof (cases "ni_VAllss n")
  case (Some v)
  then have t: "ni_Type n = ''vmess'' \<or> ni_Type n = ''vless''"
    using assms(1) by (simp add: wf_node_def)
  obtain cm where cm: "ni_Common n = Some cm"
    using assms(1) by (auto simp: wf_node_def)
  have p: "protocolInbound E (Some xo) n
      = (case buildV2ray E xo (ni_Type n) v emptyInbound of
          Inl e \<Rightarrow> Ret (Inl e) | Inr i \<Rightarrow> Ret (Inr (i, va_Network v)))"
    using Some t by (auto simp: protocolInbound_def)
  have sec: "securityStream d option n st \<noteq> Panic" for d st
    using Some by (simp add: securityStream_def)
  show ?thesis
    using Some cm assms(2) sec buildV2ray_stream [of E xo "ni_Type n" v]
    unfolding inboundConfig_def assms(2) p
    by (cases "v2raySettings xo (ni_Type n) v"; cases "va_NetworkSettings v = []";
        cases "buildV2ray E xo (ni_Type n) v emptyInbound")
       (auto simp: buildV2ray_def Let_def split: outcome.splits sum.splits option.splits)
next
  case None
  obtain cm where cm: "ni_Common n = Some cm"
    using assms(1) by (auto simp: wf_node_def)
  have t: "ni_Type n \<noteq> ''vmess''" "ni_Type n \<noteq> ''vless''"
    using assms(1) None by (auto simp: wf_node_def)
  have sec: "securityStream d option n st \<noteq> Panic" for d st
    using None assms(1) by (auto simp: securityStream_def wf_node_def)
  have np: "protocolInbound E (Some xo) n \<noteq> Panic"
    using assms(1) t by (auto simp: protocolInbound_def wf_node_def Let_def split: sum.splits)
  have st: "in_StreamSetting inb \<noteq> None"
    if "protocolInbound E (Some xo) n = Ret (Inr (inb, network))" for inb network
    using that t assms(1) buildTrojan_stream buildShadowsocks_stream
    by (fastforce simp: protocolInbound_def wf_node_def Let_def split: if_splits sum.splits)
  show ?thesis
    using None cm np st sec
    unfolding inboundConfig_def assms(2)
    by (auto split: outcome.splits sum.splits option.splits)
qed

section \<open>Witnesses\<close>

definition wit_env :: "(string, string InboundDetourConfig) inbound_env" where
  "wit_env = \<lparr>ie_tcp = (\<lambda>s. Inr None), ie_ws = (\<lambda>s. Inr None), ie_grpc = (\<lambda>s. Inr None),
     ie_httpupgrade = (\<lambda>s. Inr None), ie_splithttp = (\<lambda>s. Inr None), ie_random = Inr ''r'',
     ie_duration = (\<lambda>s. 0), ie_address = (\<lambda>s. s), ie_build = (\<lambda>c. Inr c)\<rparr>"

definition wit_options :: Options where
  "wit_options = defaultOptions\<lparr>op_XrayOptions := Some NewXrayOptions,
     op_CertConfig := Some (NewCertConfig\<lparr>cc_CertMode := ''file''\<rparr>)\<rparr>"

definition wit_trojan :: NodeInfo where
  "wit_trojan = (emptyNode 7 ''trojan'')\<lparr>ni_Security := secTls, ni_Common := Some wit_common,
     ni_Trojan := Some \<lparr>tj_CommonNode = wit_common, tj_Network = [], tj_NetworkSettings = ''{}''\<rparr>\<rparr>"

definition wit_vmess :: NodeInfo where
  "wit_vmess = (emptyNode 7 ''vmess'')\<lparr>ni_Common := Some wit_common, ni_VAllss := Some \<lparr>
     va_CommonNode = wit_common, va_Tls = 0,
     va_TlsSettings = \<lparr>ts_ServerName = [], ts_Dest = [], ts_ServerPort = [], ts_ShortId = [],
       ts_PrivateKey = [], ts_Mldsa65Seed = [], ts_Xver = 0\<rparr>, va_TlsSettingsBack = None,
     va_Network = ''tcp'', va_NetworkSettings = [], va_NetworkSettingsBack = [], va_Encryption = [],
     va_EncryptionSettings = \<lparr>es_Mode = [], es_Ticket = [], es_ServerPadding = [], es_PrivateKey = []\<rparr>,
     va_ServerName = [], va_Flow = [],
     va_RealityConfig = \<lparr>rl_Xver = 0, rl_MinClientVer = [], rl_MaxClientVer = [], rl_MaxTimeDiff = []\<rparr>\<rparr>\<rparr>"

theorem inbound_as_configured_witness:
  "\<exists>c st. inboundConfig wit_env wit_options wit_trojan ''n'' = Ret (Inr c) \<and> in_StreamSetting c = Some st \<and>
     sc_Security st = ''tls'' \<and> in_PortFrom c = 443"
proof -
  have "(case inboundConfig wit_env wit_options wit_trojan ''n'' of Ret (Inr c) \<Rightarrow> True | _ \<Rightarrow> False)"
    by code_simp
  then obtain c where c: "inboundConfig wit_env wit_options wit_trojan ''n'' = Ret (Inr c)"
    by (auto split: outcome.splits sum.splits)
  have "wantedSecurity wit_options wit_trojan = ''tls''" "ni_Common wit_trojan = Some wit_common"
    "to_uint32 (cn_ServerPort wit_common) = 443"
    by code_simp+
  then show ?thesis
    using inbound_as_configured [OF c] c by auto
qed

theorem inbound_panics_witness:
  "inboundConfig wit_env wit_options wit_vmess ''n'' = Panic"
proof -
  have "wf_node wit_vmess"
    by (simp add: wf_node_def wit_vmess_def emptyNode_def secReality_def)
  moreover have "op_XrayOptions wit_options = Some NewXrayOptions"
    by (simp add: wit_options_def)
  moreover have "ni_VAllss wit_vmess = Some (the (ni_VAllss wit_vmess))"
    "v2raySettings NewXrayOptions (ni_Type wit_vmess) (the (ni_VAllss wit_vmess)) = Inr VMessSettings"
    "va_NetworkSettings (the (ni_VAllss wit_vmess)) = []"
    by (simp_all add: wit_vmess_def emptyNode_def v2raySettings_def)
  ultimately show ?thesis
    using inbound_panics [of wit_vmess wit_options NewXrayOptions wit_env "''n''"] by blast
qed

text \<open>The origin address is used for sending unless an address is configured; an address is used
  without its surrounding white space.\<close>

lemma sendThrough_configured:
  "trim_space (op_SendIP p) \<notin> {[], ''0.0.0.0'', ''::''} \<Longrightarrow>
   resolveSendThrough p = Some (trim_space (op_SendIP p))"
  by (simp add: resolveSendThrough_def Let_def)

end
