(* ===== verification/Counter.thy ===== *)
theory Counter
  imports User_Tag
begin

text \<open>
  Traffic counters: common/counter/traffic.go, the connection wrappers of
  common/counter/conn.go, common/counter/xraytraffic.go and the counting reader of
  core/xray/app/dispatcher/countreader.go, and the collection loop that the three cores'
  GetUserTrafficSlice share.

  Connections keep a pointer to the \<open>TrafficStorage\<close> they count into, which outlives the map
  entry, so the storages live in a heap (a list, an address is an index) and a
  \<open>TrafficCounter\<close> maps a user key to an address.
\<close>

section \<open>State\<close>

record TrafficStorage =
  ts_Up :: int
  ts_Down :: int

definition zeroStorage :: TrafficStorage where
  "zeroStorage = \<lparr>ts_Up = 0, ts_Down = 0\<rparr>"

type_synonym heap = "TrafficStorage list"

type_synonym TrafficCounter = "(string, nat) gomap"

text \<open>atomic.Int64.Add and Store on one of the two cells of a storage.\<close>

definition addUp :: "nat \<Rightarrow> int \<Rightarrow> heap \<Rightarrow> heap" where
  "addUp a n h = h[a := (h ! a)\<lparr>ts_Up := wrap64 (ts_Up (h ! a) + n)\<rparr>]"

definition addDown :: "nat \<Rightarrow> int \<Rightarrow> heap \<Rightarrow> heap" where
  "addDown a n h = h[a := (h ! a)\<lparr>ts_Down := wrap64 (ts_Down (h ! a) + n)\<rparr>]"

definition storeUp :: "nat \<Rightarrow> int \<Rightarrow> heap \<Rightarrow> heap" where
  "storeUp a n h = h[a := (h ! a)\<lparr>ts_Up := n\<rparr>]"

definition storeDown :: "nat \<Rightarrow> int \<Rightarrow> heap \<Rightarrow> heap" where
  "storeDown a n h = h[a := (h ! a)\<lparr>ts_Down := n\<rparr>]"

section \<open>TrafficCounter\<close>

definition NewTrafficCounter :: TrafficCounter where
  "NewTrafficCounter = []"

definition GetCounter :: "string \<Rightarrow> heap \<times> TrafficCounter \<Rightarrow> nat \<times> heap \<times> TrafficCounter" where
  "GetCounter uuid s = (case s of (h, c) \<Rightarrow>
     (case map_of c uuid of
        Some a \<Rightarrow> (a, h, c)
      | None \<Rightarrow> (length h, h @ [zeroStorage], mstore uuid (length h) c)))"

definition GetUpCount :: "string \<Rightarrow> heap \<times> TrafficCounter \<Rightarrow> int" where
  "GetUpCount uuid s = (case map_of (snd s) uuid of Some a \<Rightarrow> ts_Up (fst s ! a) | None \<Rightarrow> 0)"

definition GetDownCount :: "string \<Rightarrow> heap \<times> TrafficCounter \<Rightarrow> int" where
  "GetDownCount uuid s = (case map_of (snd s) uuid of Some a \<Rightarrow> ts_Down (fst s ! a) | None \<Rightarrow> 0)"

definition Len :: "TrafficCounter \<Rightarrow> nat" where
  "Len c = fold (\<lambda>_ n. n + 1) c 0"

definition Reset :: "string \<Rightarrow> heap \<times> TrafficCounter \<Rightarrow> heap \<times> TrafficCounter" where
  "Reset uuid s = (case map_of (snd s) uuid of
     Some a \<Rightarrow> (storeDown a 0 (storeUp a 0 (fst s)), snd s)
   | None \<Rightarrow> s)"

definition Delete :: "string \<Rightarrow> TrafficCounter \<Rightarrow> TrafficCounter" where
  "Delete uuid c = mdelete uuid c"

definition Rx :: "string \<Rightarrow> int \<Rightarrow> heap \<times> TrafficCounter \<Rightarrow> heap \<times> TrafficCounter" where
  "Rx uuid n s = (case GetCounter uuid s of (a, h, c) \<Rightarrow> (addDown a n h, c))"

definition Tx :: "string \<Rightarrow> int \<Rightarrow> heap \<times> TrafficCounter \<Rightarrow> heap \<times> TrafficCounter" where
  "Tx uuid n s = (case GetCounter uuid s of (a, h, c) \<Rightarrow> (addUp a n h, c))"

section \<open>Counting connections\<close>

text \<open>
  A wrapper holds the address of its storage.  What the wrapped connection returns is an
  argument: \<open>n\<close> bytes and an error, or the length of the buffer and an error.
\<close>

definition ConnCounter_Read :: "nat \<Rightarrow> int \<Rightarrow> err \<Rightarrow> heap \<Rightarrow> (int \<times> err) \<times> heap" where
  "ConnCounter_Read a n e h = ((n, e), storeUp a n h)"

definition ConnCounter_Write :: "nat \<Rightarrow> int \<Rightarrow> err \<Rightarrow> heap \<Rightarrow> (int \<times> err) \<times> heap" where
  "ConnCounter_Write a n e h = ((n, e), storeDown a n h)"

definition ConnCounter_ReadBuffer :: "nat \<Rightarrow> int \<Rightarrow> err \<Rightarrow> heap \<Rightarrow> err \<times> heap" where
  "ConnCounter_ReadBuffer a n e h =
     (if e \<noteq> None then (e, h) else (None, if n > 0 then addUp a n h else h))"

definition ConnCounter_WriteBuffer :: "nat \<Rightarrow> int \<Rightarrow> err \<Rightarrow> heap \<Rightarrow> err \<times> heap" where
  "ConnCounter_WriteBuffer a n e h =
     (if e \<noteq> None then (e, h) else (None, if n > 0 then addDown a n h else h))"

text \<open>The count functions a bypassing copy loop calls with the number of bytes it moved.\<close>

definition ConnCounter_readFunc :: "nat \<Rightarrow> int \<Rightarrow> heap \<Rightarrow> heap" where
  "ConnCounter_readFunc a n h = addUp a n h"

definition ConnCounter_writeFunc :: "nat \<Rightarrow> int \<Rightarrow> heap \<Rightarrow> heap" where
  "ConnCounter_writeFunc a n h = addDown a n h"

definition PacketConnCounter_ReadPacket :: "nat \<Rightarrow> 'd \<Rightarrow> int \<Rightarrow> err \<Rightarrow> heap \<Rightarrow> ('d \<times> err) \<times> heap" where
  "PacketConnCounter_ReadPacket a dest n e h =
     (if e \<noteq> None then ((dest, e), h) else ((dest, None), addUp a n h))"

definition PacketConnCounter_WritePacket :: "nat \<Rightarrow> int \<Rightarrow> err \<Rightarrow> heap \<Rightarrow> err \<times> heap" where
  "PacketConnCounter_WritePacket a n e h =
     (if e \<noteq> None then (e, h) else (None, if n > 0 then addDown a n h else h))"

text \<open>The counters handed to xray-core: one cell, given by a reader and a writer of it.\<close>

datatype cell = UpCell nat | DownCell nat

definition cellValue :: "cell \<Rightarrow> heap \<Rightarrow> int" where
  "cellValue v h = (case v of UpCell a \<Rightarrow> ts_Up (h ! a) | DownCell a \<Rightarrow> ts_Down (h ! a))"

definition cellStore :: "cell \<Rightarrow> int \<Rightarrow> heap \<Rightarrow> heap" where
  "cellStore v n h = (case v of UpCell a \<Rightarrow> storeUp a n h | DownCell a \<Rightarrow> storeDown a n h)"

definition XrayTrafficCounter_Value :: "cell \<Rightarrow> heap \<Rightarrow> int" where
  "XrayTrafficCounter_Value v h = cellValue v h"

definition XrayTrafficCounter_Set :: "cell \<Rightarrow> int \<Rightarrow> heap \<Rightarrow> int \<times> heap" where
  "XrayTrafficCounter_Set v newValue h = (cellValue v h, cellStore v newValue h)"

definition XrayTrafficCounter_Add :: "cell \<Rightarrow> int \<Rightarrow> heap \<Rightarrow> int \<times> heap" where
  "XrayTrafficCounter_Add v delta h =
     (let s = wrap64 (cellValue v h + delta) in (s, cellStore v s h))"

definition CounterReader_ReadMultiBuffer :: "nat \<Rightarrow> 'm \<Rightarrow> int \<Rightarrow> err \<Rightarrow> heap \<Rightarrow> ('m option \<times> err) \<times> heap" where
  "CounterReader_ReadMultiBuffer a mb n e h =
     (if e \<noteq> None then ((None, e), h)
      else ((Some mb, None), if n > 0 then addUp a n h else h))"

text \<open>It waits one second, whatever timeout it is given; what comes of it is counted the same way.\<close>

definition CounterReader_ReadMultiBufferTimeout ::
  "(int \<Rightarrow> 'm \<times> int \<times> err) \<Rightarrow> int \<Rightarrow> nat \<Rightarrow> heap \<Rightarrow> ('m option \<times> err) \<times> heap" where
  "CounterReader_ReadMultiBufferTimeout read timeout a h =
     (case read 1000000000 of (mb, n, e) \<Rightarrow> CounterReader_ReadMultiBuffer a mb n e h)"

text \<open>The functions of a packet connection that gives its inner connection away.\<close>

definition PacketConnCounter_readFunc :: "nat \<Rightarrow> int \<Rightarrow> heap \<Rightarrow> heap" where
  "PacketConnCounter_readFunc a n h = addUp a n h"

definition PacketConnCounter_writeFunc :: "nat \<Rightarrow> int \<Rightarrow> heap \<Rightarrow> heap" where
  "PacketConnCounter_writeFunc a n h = addDown a n h"

section \<open>Collecting the traffic of one node\<close>

text \<open>
  The body of the Range loop of GetUserTrafficSlice, for one entry, and the loop.  \<open>minTraffic\<close>
  is the node's reporting threshold and \<open>uidMap\<close> the core's user map.
\<close>

definition collectStep ::
  "int \<Rightarrow> (string, int) gomap \<Rightarrow> bool \<Rightarrow> string \<times> nat
     \<Rightarrow> heap \<times> TrafficCounter \<times> UserTraffic list \<Rightarrow> heap \<times> TrafficCounter \<times> UserTraffic list" where
  "collectStep minTraffic uidMap reset entry s =
     (case (entry, s) of ((email, a), (h, c, trafficSlice)) \<Rightarrow>
        let up = ts_Up (h ! a); down = ts_Down (h ! a) in
        if wrap64 (up + down) > minTraffic then
          let h' = (if reset then storeDown a 0 (storeUp a 0 h) else h) in
          if mget0 uidMap email = 0 then (h', Delete email c, trafficSlice)
          else (h', c, trafficSlice @
                  [\<lparr>ut_UID = mget0 uidMap email, ut_Upload = up, ut_Download = down\<rparr>])
        else (h, c, trafficSlice))"

definition collectTraffic ::
  "int \<Rightarrow> (string, int) gomap \<Rightarrow> bool \<Rightarrow> heap \<times> TrafficCounter
     \<Rightarrow> UserTraffic list \<times> heap \<times> TrafficCounter" where
  "collectTraffic minTraffic uidMap reset s =
     (case fold (collectStep minTraffic uidMap reset) (snd s) (fst s, snd s, []) of
        (h, c, trafficSlice) \<Rightarrow> (trafficSlice, h, c))"

section \<open>Lemmas: the heap\<close>

text \<open>A counter is well formed when its addresses are allocated and not shared.\<close>

definition wf_counter :: "heap \<Rightarrow> TrafficCounter \<Rightarrow> bool" where
  "wf_counter h c \<longleftrightarrow> wf_map c \<and> distinct (map snd c) \<and> (\<forall>(k, a) \<in> set c. a < length h)"

lemmas cell_defs = addUp_def addDown_def storeUp_def storeDown_def

lemma cell_length [simp]:
  "length (addUp a n h) = length h" "length (addDown a n h) = length h"
  "length (storeUp a n h) = length h" "length (storeDown a n h) = length h"
  by (simp_all add: cell_defs)

lemma cell_other:
  "b \<noteq> a \<Longrightarrow> addUp a n h ! b = h ! b" "b \<noteq> a \<Longrightarrow> addDown a n h ! b = h ! b"
  "b \<noteq> a \<Longrightarrow> storeUp a n h ! b = h ! b" "b \<noteq> a \<Longrightarrow> storeDown a n h ! b = h ! b"
  by (simp_all add: cell_defs)

lemma cell_same:
  "a < length h \<Longrightarrow> addUp a n h ! a = (h ! a)\<lparr>ts_Up := wrap64 (ts_Up (h ! a) + n)\<rparr>"
  "a < length h \<Longrightarrow> addDown a n h ! a = (h ! a)\<lparr>ts_Down := wrap64 (ts_Down (h ! a) + n)\<rparr>"
  "a < length h \<Longrightarrow> storeUp a n h ! a = (h ! a)\<lparr>ts_Up := n\<rparr>"
  "a < length h \<Longrightarrow> storeDown a n h ! a = (h ! a)\<lparr>ts_Down := n\<rparr>"
  by (simp_all add: cell_defs)

lemma cell_cross [simp]:
  "ts_Down (addUp a n h ! b) = ts_Down (h ! b)" "ts_Up (addDown a n h ! b) = ts_Up (h ! b)"
  "ts_Down (storeUp a n h ! b) = ts_Down (h ! b)" "ts_Up (storeDown a n h ! b) = ts_Up (h ! b)"
  by (cases "a < length h"; cases "b = a"; simp add: cell_defs list_update_beyond)+

lemma wf_counter_cell [simp]:
  "wf_counter (addUp a n h) c = wf_counter h c" "wf_counter (addDown a n h) c = wf_counter h c"
  "wf_counter (storeUp a n h) c = wf_counter h c" "wf_counter (storeDown a n h) c = wf_counter h c"
  by (simp_all add: wf_counter_def)

lemma wf_counter_lookup: "wf_counter h c \<Longrightarrow> map_of c k = Some a \<Longrightarrow> a < length h"
  by (auto simp: wf_counter_def dest: map_of_SomeD)

lemma wf_counter_inj:
  assumes "wf_counter h c" and "map_of c k = Some a" and "map_of c k' = Some a"
  shows "k = k'"
proof -
  from assms have "(k, a) \<in> set c" "(k', a) \<in> set c" "distinct (map snd c)"
    by (auto simp: wf_counter_def dest: map_of_SomeD)
  then show ?thesis by (metis distinct_map inj_onD prod.inject snd_conv)
qed

lemma mdelete_filter: "mdelete k c = filter (\<lambda>(k', _). k \<noteq> k') c"
  by (simp add: mdelete_def AList.delete_eq)

lemma wf_counter_Delete [simp]: "wf_counter h c \<Longrightarrow> wf_counter h (Delete k c)"
  using wf_map_mdelete [of c k]
  by (auto simp: wf_counter_def Delete_def mdelete_filter distinct_map_filter)

lemma mstore_new: "map_of c k = None \<Longrightarrow> mstore k v c = c @ [(k, v)]"
  by (induction c) (auto simp: mstore_def split: if_splits)

lemma GetCounter_wf:
  assumes "wf_counter h c" and "GetCounter k (h, c) = (a, h', c')"
  shows "wf_counter h' c'" and "map_of c' k = Some a" and "a < length h'"
proof -
  show "map_of c' k = Some a"
    using assms(2) by (auto simp: GetCounter_def gomap_simps split: option.splits)
  show wf: "wf_counter h' c'"
  proof (cases "map_of c k")
    case None
    have "distinct (map snd (c @ [(k, length h)]))"
      using assms(1) by (force simp: wf_counter_def)
    moreover have "wf_map (c @ [(k, length h)])"
      using assms(1) wf_map_mstore [of c k "length h", unfolded mstore_new [OF None]]
      by (simp add: wf_counter_def)
    moreover have "\<forall>(k', b) \<in> set (c @ [(k, length h)]). b < Suc (length h)"
      using assms(1) by (fastforce simp: wf_counter_def)
    ultimately show ?thesis
      using None assms
      by (auto simp: GetCounter_def wf_counter_def mstore_new split_beta) (metis less_SucI snd_conv)
  next
    case (Some b)
    with assms show ?thesis by (simp add: GetCounter_def)
  qed
  with \<open>map_of c' k = Some a\<close> show "a < length h'" by (simp add: wf_counter_lookup)
qed

section \<open>Counting\<close>

text \<open>A run of packets: for each, the user, the direction (True is upload) and the size.\<close>

primrec count_all ::
  "('k \<Rightarrow> int \<Rightarrow> 's \<Rightarrow> 's) \<Rightarrow> ('k \<Rightarrow> int \<Rightarrow> 's \<Rightarrow> 's) \<Rightarrow> ('k \<times> bool \<times> int) list \<Rightarrow> 's \<Rightarrow> 's" where
  "count_all tx rx [] s = s"
| "count_all tx rx (p # ps) s =
     count_all tx rx ps (if fst (snd p) then tx (fst p) (snd (snd p)) s else rx (fst p) (snd (snd p)) s)"

definition total :: "bool \<Rightarrow> 'k \<Rightarrow> ('k \<times> bool \<times> int) list \<Rightarrow> int" where
  "total d k ps = sum_list (map (snd \<circ> snd) (filter (\<lambda>p. fst p = k \<and> fst (snd p) = d) ps))"

lemma total_simps:
  "total d k [] = 0"
  "total d k (p # ps) = (if fst p = k \<and> fst (snd p) = d then snd (snd p) else 0) + total d k ps"
  by (simp_all add: total_def)

text \<open>
  The interface the cores rely on: counting for one user is seen in his counters, modulo
  2^64, and in nobody else's.
\<close>

locale traffic_meter =
  fixes inv :: "'s \<Rightarrow> bool"
    and up down :: "'k \<Rightarrow> 's \<Rightarrow> int"
    and tx rx :: "'k \<Rightarrow> int \<Rightarrow> 's \<Rightarrow> 's"
  assumes inv_tx: "inv s \<Longrightarrow> inv (tx k n s)"
    and inv_rx: "inv s \<Longrightarrow> inv (rx k n s)"
    and up_tx: "inv s \<Longrightarrow> up j (tx k n s) = (if j = k then wrap64 (up j s + n) else up j s)"
    and up_rx: "inv s \<Longrightarrow> up j (rx k n s) = up j s"
    and down_rx: "inv s \<Longrightarrow> down j (rx k n s) = (if j = k then wrap64 (down j s + n) else down j s)"
    and down_tx: "inv s \<Longrightarrow> down j (tx k n s) = down j s"
begin

lemma count_all_up:
  "inv s \<Longrightarrow> in_int64 (up k s) \<Longrightarrow> up k (count_all tx rx ps s) = wrap64 (up k s + total True k ps)"
proof (induction ps arbitrary: s)
  case Nil
  then show ?case by (simp add: total_simps wrap64_id)
next
  case (Cons p ps)
  then show ?case
    by (auto simp: total_simps inv_tx inv_rx up_tx up_rx wrap64_range wrap64_wrap64_add add.assoc)
qed

lemma count_all_down:
  "inv s \<Longrightarrow> in_int64 (down k s) \<Longrightarrow> down k (count_all tx rx ps s) = wrap64 (down k s + total False k ps)"
proof (induction ps arbitrary: s)
  case Nil
  then show ?case by (simp add: total_simps wrap64_id)
next
  case (Cons p ps)
  then show ?case
    by (auto simp: total_simps inv_tx inv_rx down_tx down_rx wrap64_range wrap64_wrap64_add add.assoc)
qed

end

definition wf_state :: "heap \<times> TrafficCounter \<Rightarrow> bool" where
  "wf_state s \<longleftrightarrow> wf_counter (fst s) (snd s)"

text \<open>Reading a counter right after GetCounter gives what a read before it gave.\<close>

lemma GetCounter_reads:
  assumes "wf_counter h c" and "GetCounter k (h, c) = (a, h', c')"
  shows "GetUpCount j (h', c') = GetUpCount j (h, c)" "GetDownCount j (h', c') = GetDownCount j (h, c)"
proof -
  have "GetUpCount j (h', c') = GetUpCount j (h, c) \<and> GetDownCount j (h', c') = GetDownCount j (h, c)"
  proof (cases "map_of c k")
    case None
    then have hc: "h' = h @ [zeroStorage]" "c' = mstore k (length h) c"
      using assms(2) by (auto simp: GetCounter_def)
    show ?thesis
    proof (cases "map_of c j")
      case None
      then show ?thesis
        by (simp add: hc GetUpCount_def GetDownCount_def gomap_simps zeroStorage_def)
    next
      case (Some b)
      with \<open>map_of c k = None\<close> have "j \<noteq> k" "b < length h"
        using wf_counter_lookup [OF assms(1)] by auto
      with Some show ?thesis
        by (simp add: hc GetUpCount_def GetDownCount_def gomap_simps nth_append)
    qed
  next
    case (Some b)
    with assms(2) show ?thesis by (simp add: GetCounter_def)
  qed
  then show "GetUpCount j (h', c') = GetUpCount j (h, c)" "GetDownCount j (h', c') = GetDownCount j (h, c)"
    by simp_all
qed

lemma cell_read:
  assumes "wf_counter h c" and "map_of c k = Some a"
  shows "GetUpCount j (addUp a n h, c) = (if j = k then wrap64 (GetUpCount j (h, c) + n) else GetUpCount j (h, c))"
    and "GetDownCount j (addUp a n h, c) = GetDownCount j (h, c)"
    and "GetDownCount j (addDown a n h, c) = (if j = k then wrap64 (GetDownCount j (h, c) + n) else GetDownCount j (h, c))"
    and "GetUpCount j (addDown a n h, c) = GetUpCount j (h, c)"
proof -
  have a: "a < length h" using assms by (rule wf_counter_lookup)
  have ne: "b \<noteq> a" if "map_of c j = Some b" "j \<noteq> k" for b
    using wf_counter_inj [OF assms(1,2)] that by metis
  show "GetUpCount j (addUp a n h, c) = (if j = k then wrap64 (GetUpCount j (h, c) + n) else GetUpCount j (h, c))"
    and "GetDownCount j (addUp a n h, c) = GetDownCount j (h, c)"
    and "GetDownCount j (addDown a n h, c) = (if j = k then wrap64 (GetDownCount j (h, c) + n) else GetDownCount j (h, c))"
    and "GetUpCount j (addDown a n h, c) = GetUpCount j (h, c)"
    using assms a ne
    by (auto simp: GetUpCount_def GetDownCount_def cell_same cell_other split: option.splits)
qed

lemma Tx_laws:
  assumes "wf_state s"
  shows "wf_state (Tx k n s)"
    and "GetUpCount j (Tx k n s) = (if j = k then wrap64 (GetUpCount j s + n) else GetUpCount j s)"
    and "GetDownCount j (Tx k n s) = GetDownCount j s"
proof -
  obtain h c a h' c' where s: "s = (h, c)" "GetCounter k (h, c) = (a, h', c')"
    by (metis prod.exhaust)
  with assms have wf: "wf_counter h c" by (simp add: wf_state_def)
  note g = GetCounter_wf [OF wf s(2)] GetCounter_reads [OF wf s(2)]
  show "wf_state (Tx k n s)"
    and "GetUpCount j (Tx k n s) = (if j = k then wrap64 (GetUpCount j s + n) else GetUpCount j s)"
    and "GetDownCount j (Tx k n s) = GetDownCount j s"
    using g cell_read [OF g(1,2)] by (simp_all add: s wf_state_def Tx_def)
qed

lemma Rx_laws:
  assumes "wf_state s"
  shows "wf_state (Rx k n s)"
    and "GetDownCount j (Rx k n s) = (if j = k then wrap64 (GetDownCount j s + n) else GetDownCount j s)"
    and "GetUpCount j (Rx k n s) = GetUpCount j s"
proof -
  obtain h c a h' c' where s: "s = (h, c)" "GetCounter k (h, c) = (a, h', c')"
    by (metis prod.exhaust)
  with assms have wf: "wf_counter h c" by (simp add: wf_state_def)
  note g = GetCounter_wf [OF wf s(2)] GetCounter_reads [OF wf s(2)]
  show "wf_state (Rx k n s)"
    and "GetDownCount j (Rx k n s) = (if j = k then wrap64 (GetDownCount j s + n) else GetDownCount j s)"
    and "GetUpCount j (Rx k n s) = GetUpCount j s"
    using g cell_read [OF g(1,2)] by (simp_all add: s wf_state_def Rx_def)
qed

interpretation tm: traffic_meter wf_state GetUpCount GetDownCount Tx Rx
  by unfold_locales (simp_all add: Tx_laws Rx_laws)

text \<open>The counters are exact.  Starting from a new counter, after any sequence of Tx and Rx
  calls for any users, a user's upload (download) count is the sum, in int64, of the sizes passed
  to his Tx (Rx) calls.\<close>

theorem counting_exact:
  "GetUpCount uuid (count_all Tx Rx ps (h, NewTrafficCounter)) = wrap64 (total True uuid ps)
   \<and> GetDownCount uuid (count_all Tx Rx ps (h, NewTrafficCounter)) = wrap64 (total False uuid ps)"
proof -
  have "wf_state (h, NewTrafficCounter)"
    by (simp add: wf_state_def wf_counter_def NewTrafficCounter_def gomap_simps)
  moreover have "GetUpCount uuid (h, NewTrafficCounter) = 0" "GetDownCount uuid (h, NewTrafficCounter) = 0"
    by (simp_all add: GetUpCount_def GetDownCount_def NewTrafficCounter_def)
  ultimately show ?thesis
    using tm.count_all_up [of "(h, NewTrafficCounter)" uuid ps]
      tm.count_all_down [of "(h, NewTrafficCounter)" uuid ps]
    by (simp add: in_int64_def)
qed

text \<open>The plain Read and Write of a counting connection overwrite the counter instead of
  adding to it: whatever was counted before, afterwards the cell holds the size of the last
  transfer (ReadBuffer and WriteBuffer on the same connection do add).\<close>

theorem ConnCounter_Read_overwrites:
  assumes "a < length h"
  shows "ts_Up (snd (ConnCounter_Read a n e (snd (ConnCounter_Read a m e' h))) ! a) = n
    \<and> ts_Down (snd (ConnCounter_Write a n e (snd (ConnCounter_Write a m e' h))) ! a) = n
    \<and> ts_Up (snd (ConnCounter_ReadBuffer a n None (snd (ConnCounter_Read a m e' h))) ! a)
        = (if 0 < n then wrap64 (m + n) else m)"
  using assms
  by (simp add: ConnCounter_Read_def ConnCounter_Write_def ConnCounter_ReadBuffer_def cell_same)

section \<open>Lemmas: the collection loop\<close>

definition overMin :: "int \<Rightarrow> TrafficStorage \<Rightarrow> bool" where
  "overMin minTraffic t \<longleftrightarrow> wrap64 (ts_Up t + ts_Down t) > minTraffic"

definition trafficOf :: "(string, int) gomap \<Rightarrow> heap \<Rightarrow> string \<times> nat \<Rightarrow> UserTraffic" where
  "trafficOf uidMap h e =
     \<lparr>ut_UID = mget0 uidMap (fst e), ut_Upload = ts_Up (h ! snd e), ut_Download = ts_Down (h ! snd e)\<rparr>"

definition reported :: "int \<Rightarrow> (string, int) gomap \<Rightarrow> heap \<Rightarrow> string \<times> nat \<Rightarrow> bool" where
  "reported minTraffic uidMap h e \<longleftrightarrow> overMin minTraffic (h ! snd e) \<and> mget0 uidMap (fst e) \<noteq> 0"

definition dropped :: "int \<Rightarrow> (string, int) gomap \<Rightarrow> heap \<Rightarrow> string \<times> nat \<Rightarrow> bool" where
  "dropped minTraffic uidMap h e \<longleftrightarrow> overMin minTraffic (h ! snd e) \<and> mget0 uidMap (fst e) = 0"

definition resetCell :: "nat \<Rightarrow> heap \<Rightarrow> heap" where
  "resetCell a h = storeDown a 0 (storeUp a 0 h)"

lemma resetCell_simps:
  "length (resetCell a h) = length h" "b \<noteq> a \<Longrightarrow> resetCell a h ! b = h ! b"
  "a < length h \<Longrightarrow> resetCell a h ! a = zeroStorage"
  by (simp_all add: resetCell_def cell_other cell_same zeroStorage_def)

text \<open>The heap after the loop has visited the entries \<open>es\<close>.\<close>

definition resetAll :: "int \<Rightarrow> bool \<Rightarrow> (string \<times> nat) list \<Rightarrow> heap \<Rightarrow> heap" where
  "resetAll minTraffic reset es h =
     fold (\<lambda>e h. if overMin minTraffic (h ! snd e) \<and> reset then resetCell (snd e) h else h) es h"

lemma resetAll_outside:
  "b \<notin> snd ` set es \<Longrightarrow> resetAll mt reset es h ! b = h ! b"
  "length (resetAll mt reset es h) = length h"
  unfolding resetAll_def by (induction es arbitrary: h) (auto simp: resetCell_simps)

lemma resetAll_inside:
  assumes "distinct (map snd es)" and "e \<in> set es" and "\<forall>e \<in> set es. snd e < length h"
  shows "resetAll mt reset es h ! snd e
      = (if overMin mt (h ! snd e) \<and> reset then zeroStorage else h ! snd e)"
  using assms
proof (induction es arbitrary: h)
  case Nil
  then show ?case by simp
next
  case (Cons x es)
  let ?h = "if overMin mt (h ! snd x) \<and> reset then resetCell (snd x) h else h"
  have unfold: "resetAll mt reset (x # es) h = resetAll mt reset es ?h"
    by (simp add: resetAll_def)
  show ?case
  proof (cases "e = x")
    case True
    with Cons.prems show ?thesis
      by (simp add: unfold resetAll_outside) (auto simp: resetCell_simps)
  next
    case False
    then have e: "e \<in> set es" using Cons.prems by simp
    have "snd x \<notin> snd ` set es" using Cons.prems(1) by simp
    with e have "snd e \<noteq> snd x" by (metis imageI)
    note e this
    with Cons show ?thesis by (simp add: unfold resetCell_simps)
  qed
qed

lemma collectStep_alt:
  "collectStep mt um reset e (h, c, acc) =
     (if overMin mt (h ! snd e) \<and> reset then resetCell (snd e) h else h,
      if dropped mt um h e then Delete (fst e) c else c,
      acc @ (if reported mt um h e then [trafficOf um h e] else []))"
  by (cases e) (simp add: collectStep_def Let_def overMin_def dropped_def reported_def trafficOf_def resetCell_def)

lemma filter_cong_heap:
  assumes "\<forall>e \<in> set es. h' ! snd e = h ! snd e"
  shows "filter (reported mt um h') es = filter (reported mt um h) es"
    and "filter (dropped mt um h') es = filter (dropped mt um h) es"
    and "map (trafficOf um h') es = map (trafficOf um h) es"
    and "map (trafficOf um h') (filter P es) = map (trafficOf um h) (filter P es)"
  using assms
  by (auto simp: reported_def dropped_def trafficOf_def intro!: filter_cong)

lemma collect_fold:
  assumes "distinct (map snd es)"
  shows "fold (collectStep mt um reset) es (h, c, acc) =
    (resetAll mt reset es h,
     fold Delete (map fst (filter (dropped mt um h) es)) c,
     acc @ map (trafficOf um h) (filter (reported mt um h) es))"
  using assms
proof (induction es arbitrary: h c acc)
  case Nil
  then show ?case by (simp add: resetAll_def)
next
  case (Cons x es)
  let ?h = "if overMin mt (h ! snd x) \<and> reset then resetCell (snd x) h else h"
  have same: "\<forall>e \<in> set es. ?h ! snd e = h ! snd e"
    using Cons.prems by (auto simp: resetCell_simps(2) image_iff)
  have unfold: "resetAll mt reset (x # es) h = resetAll mt reset es ?h"
    by (simp add: resetAll_def)
  have "fold (collectStep mt um reset) (x # es) (h, c, acc)
      = fold (collectStep mt um reset) es (?h, if dropped mt um h x then Delete (fst x) c else c,
          acc @ (if reported mt um h x then [trafficOf um h x] else []))"
    by (simp add: collectStep_alt)
  also have "\<dots> = (resetAll mt reset es ?h,
      fold Delete (map fst (filter (dropped mt um h) es)) (if dropped mt um h x then Delete (fst x) c else c),
      (acc @ (if reported mt um h x then [trafficOf um h x] else []))
        @ map (trafficOf um h) (filter (reported mt um h) es))"
    using Cons.prems by (simp only: Cons.IH distinct.simps list.map filter_cong_heap [OF same])
  finally show ?case by (simp add: unfold)
qed

lemma fold_Delete: "map_of (fold Delete ks c) k = (if k \<in> set ks then None else map_of c k)"
  by (induction ks arbitrary: c) (auto simp: Delete_def gomap_simps)

lemma fold_Delete_wf: "wf_counter h c \<Longrightarrow> wf_counter h (fold Delete ks c)"
  by (induction ks arbitrary: c) auto

lemma collectTraffic_alt:
  assumes "wf_counter h c"
  shows "collectTraffic mt um reset (h, c) =
    (map (trafficOf um h) (filter (reported mt um h) c),
     resetAll mt reset c h,
     fold Delete (map fst (filter (dropped mt um h) c)) c)"
  using assms by (simp add: collectTraffic_def collect_fold wf_counter_def)

lemma wf_counter_resetAll: "wf_counter h c \<Longrightarrow> wf_counter (resetAll mt reset es h) c"
  by (simp add: wf_counter_def resetAll_outside)

lemma collectTraffic_wf:
  assumes "wf_counter h c" and "collectTraffic mt um reset (h, c) = (sl, h', c')"
  shows "wf_counter h' c'"
  using assms fold_Delete_wf [OF wf_counter_resetAll [OF assms(1)]]
  by (auto simp: collectTraffic_alt [OF assms(1)])

section \<open>Conservation\<close>

text \<open>What a report says of one uid.\<close>

definition upOf :: "int \<Rightarrow> UserTraffic list \<Rightarrow> int" where
  "upOf uid sl = sum_list (map ut_Upload (filter (\<lambda>t. ut_UID t = uid) sl))"

definition downOf :: "int \<Rightarrow> UserTraffic list \<Rightarrow> int" where
  "downOf uid sl = sum_list (map ut_Download (filter (\<lambda>t. ut_UID t = uid) sl))"

lemma upOf_append: "upOf uid (xs @ ys) = upOf uid xs + upOf uid ys"
  and downOf_append: "downOf uid (xs @ ys) = downOf uid xs + downOf uid ys"
  by (simp_all add: upOf_def downOf_def)

text \<open>The uid belongs to this key alone.\<close>

definition soleUid :: "(string, int) gomap \<Rightarrow> string \<Rightarrow> bool" where
  "soleUid uidMap k \<longleftrightarrow> mget0 uidMap k \<noteq> 0 \<and> (\<forall>k'. mget0 uidMap k' = mget0 uidMap k \<longrightarrow> k' = k)"

lemma filter_one_key:
  assumes "wf_map c" and "map_of c k = Some a"
  shows "filter (\<lambda>e. fst e = k \<and> P e) c = (if P (k, a) then [(k, a)] else [])"
  using assms
proof (induction c)
  case Nil
  then show ?case by simp
next
  case (Cons x c)
  show ?case
  proof (cases "fst x = k")
    case True
    with Cons.prems(2) have x: "x = (k, a)" by (cases x) auto
    have "fst x \<notin> fst ` set c" using Cons.prems(1) by (simp add: wf_map_def)
    with True have none: "\<forall>e \<in> set c. fst e \<noteq> k" by (metis imageI)
    from none have "filter (\<lambda>e. fst e = k \<and> P e) c = []" by (auto simp: filter_empty_conv)
    with x show ?thesis by simp
  next
    case False
    with Cons show ?thesis by (cases x) (auto simp: wf_map_def)
  qed
qed

lemma filter_reported_uid:
  assumes "wf_counter h c" and "soleUid um k"
  shows "filter (\<lambda>t. ut_UID t = mget0 um k) (map (trafficOf um h) (filter (reported mt um h) c))
    = (case map_of c k of
         Some a \<Rightarrow> if overMin mt (h ! a) then [trafficOf um h (k, a)] else []
       | None \<Rightarrow> [])"
proof -
  have "ut_UID (trafficOf um h e) = mget0 um k \<and> reported mt um h e
      \<longleftrightarrow> fst e = k \<and> overMin mt (h ! snd e)" for e
    using assms(2) by (auto simp: trafficOf_def reported_def soleUid_def)
  then have eq: "filter (\<lambda>t. ut_UID t = mget0 um k) (map (trafficOf um h) (filter (reported mt um h) c))
      = map (trafficOf um h) (filter (\<lambda>e. fst e = k \<and> overMin mt (h ! snd e)) c)"
    by (simp add: filter_map o_def conj_commute)
  show ?thesis
  proof (cases "map_of c k")
    case None
    then have "\<forall>e \<in> set c. fst e \<noteq> k" by (auto simp: map_of_eq_None_iff)
    then have "filter (\<lambda>e. fst e = k \<and> overMin mt (h ! snd e)) c = []"
      by (auto simp: filter_empty_conv)
    with None eq show ?thesis by simp
  next
    case (Some a)
    with eq assms(1) show ?thesis
      by (simp add: filter_one_key wf_counter_def)
  qed
qed

lemma resetAll_at:
  assumes "wf_counter h c" and "map_of c k = Some a"
  shows "resetAll mt reset c h ! a = (if overMin mt (h ! a) \<and> reset then zeroStorage else h ! a)"
proof -
  have "(k, a) \<in> set c" using assms(2) by (rule map_of_SomeD)
  then show ?thesis
    using resetAll_inside [of c "(k, a)" h mt reset] assms(1) by (simp add: wf_counter_def split_beta)
qed

lemma collectTraffic_keeps_known:
  assumes "wf_counter h c" and "mget0 um k \<noteq> 0"
    and "collectTraffic mt um reset (h, c) = (sl, h', c')"
  shows "map_of c' k = map_of c k"
proof -
  have "k \<notin> set (map fst (filter (dropped mt um h) c))"
    using assms(2) by (auto simp: dropped_def)
  with assms(3) show ?thesis
    by (auto simp: collectTraffic_alt [OF assms(1)] fold_Delete)
qed

text \<open>A collection with reset moves traffic, it neither loses nor duplicates any: for a user
  the core knows, what the report says plus what stays in his counters is what his counters held,
  and whatever stays is at most at the node's reporting threshold.\<close>

theorem collectTraffic_conserves:
  assumes "wf_counter h c" and "soleUid uidMap k"
    and "collectTraffic minTraffic uidMap True (h, c) = (report, h', c')"
  shows "upOf (mget0 uidMap k) report + GetUpCount k (h', c') = GetUpCount k (h, c)
    \<and> downOf (mget0 uidMap k) report + GetDownCount k (h', c') = GetDownCount k (h, c)
    \<and> (map_of c k \<noteq> None \<longrightarrow> 0 \<le> minTraffic \<longrightarrow>
          wrap64 (GetUpCount k (h', c') + GetDownCount k (h', c')) \<le> minTraffic)"
proof -
  have k: "mget0 uidMap k \<noteq> 0" using assms(2) by (simp add: soleUid_def)
  have eqs: "report = map (trafficOf uidMap h) (filter (reported minTraffic uidMap h) c)"
    "h' = resetAll minTraffic True c h"
    using assms(3) by (simp_all add: collectTraffic_alt [OF assms(1)])
  note kept = collectTraffic_keeps_known [OF assms(1) k assms(3)]
  show ?thesis
  proof (cases "map_of c k")
    case None
    with kept show ?thesis
      by (simp add: eqs upOf_def downOf_def filter_reported_uid [OF assms(1,2)] GetUpCount_def GetDownCount_def)
  next
    case (Some a)
    with kept have "GetUpCount k (h', c') = ts_Up (h' ! a)" "GetDownCount k (h', c') = ts_Down (h' ! a)"
      "GetUpCount k (h, c) = ts_Up (h ! a)" "GetDownCount k (h, c) = ts_Down (h ! a)"
      by (simp_all add: GetUpCount_def GetDownCount_def)
    with Some show ?thesis
      by (auto simp: eqs(1) upOf_def downOf_def filter_reported_uid [OF assms(1,2)])
         (auto simp: eqs(2) resetAll_at [OF assms(1) Some] trafficOf_def zeroStorage_def overMin_def
           wrap64_def split: if_splits)
  qed
qed

text \<open>A node's life as the counters see it: packets of users, and report periods.\<close>

datatype traffic_event = Packet string bool int | Period

fun runEvents ::
  "int \<Rightarrow> (string, int) gomap \<Rightarrow> traffic_event list \<Rightarrow> heap \<times> TrafficCounter
     \<Rightarrow> UserTraffic list \<times> heap \<times> TrafficCounter" where
  "runEvents mt um [] s = ([], s)"
| "runEvents mt um (Packet k d n # es) s = runEvents mt um es (if d then Tx k n s else Rx k n s)"
| "runEvents mt um (Period # es) s =
     (case collectTraffic mt um True s of (sl, s') \<Rightarrow>
        (case runEvents mt um es s' of (rs, s'') \<Rightarrow> (sl @ rs, s'')))"

fun packetTotal :: "bool \<Rightarrow> string \<Rightarrow> traffic_event list \<Rightarrow> int" where
  "packetTotal d k [] = 0"
| "packetTotal d k (Packet k' d' n # es) = (if k' = k \<and> d' = d then n else 0) + packetTotal d k es"
| "packetTotal d k (Period # es) = packetTotal d k es"

lemma runEvents_conserves:
  assumes "wf_state s" and "soleUid um k"
  shows "wrap64 (upOf (mget0 um k) (fst (runEvents mt um es s)) + GetUpCount k (snd (runEvents mt um es s)))
       = wrap64 (GetUpCount k s + packetTotal True k es)
    \<and> wrap64 (downOf (mget0 um k) (fst (runEvents mt um es s)) + GetDownCount k (snd (runEvents mt um es s)))
       = wrap64 (GetDownCount k s + packetTotal False k es)"
  using assms
proof (induction mt um es s rule: runEvents.induct [case_names none packet period])
  case (none mt um s)
  then show ?case by (simp add: upOf_def downOf_def)
next
  case (packet mt um k' d n es s)
  then show ?case
    by (auto simp: Tx_laws Rx_laws wrap64_wrap64_add add.assoc)
next
  case (period mt um es s)
  obtain h c where s: "s = (h, c)" by (cases s)
  obtain sl h' c' where sl: "collectTraffic mt um True (h, c) = (sl, h', c')" by (metis prod.exhaust)
  obtain rs s'' where rs: "runEvents mt um es (h', c') = (rs, s'')" by (metis prod.exhaust)
  have wf: "wf_counter h c" using period.prems(1) by (simp add: wf_state_def s)
  then have wf': "wf_state (h', c')"
    using collectTraffic_wf [OF _ sl] by (simp add: wf_state_def)
  have IH: "wrap64 (upOf (mget0 um k) rs + GetUpCount k s'') = wrap64 (GetUpCount k (h', c') + packetTotal True k es)"
    "wrap64 (downOf (mget0 um k) rs + GetDownCount k s'') = wrap64 (GetDownCount k (h', c') + packetTotal False k es)"
    using period.IH [OF sl [folded s, symmetric] wf' period.prems(2)] rs by simp_all
  have cons: "upOf (mget0 um k) sl + GetUpCount k (h', c') = GetUpCount k (h, c)"
    "downOf (mget0 um k) sl + GetDownCount k (h', c') = GetDownCount k (h, c)"
    using collectTraffic_conserves [OF wf period.prems(2) sl] by simp_all
  show ?case
    using wrap64_add_cong [OF IH(1), of "upOf (mget0 um k) sl"]
      wrap64_add_cong [OF IH(2), of "downOf (mget0 um k) sl"]
    by (simp add: s sl rs upOf_append downOf_append add.assoc cons [symmetric])
qed

text \<open>C7: Over the whole life of a node, with packets and report periods in any order, the reports
  and the counters together account for every byte: for a user the core knows, the sum of all his
  reported uploads (downloads) plus his pending count is the sum of his packets, in int64.\<close>

theorem traffic_history_conserved:
  assumes "soleUid uidMap k"
    and "runEvents minTraffic uidMap es (h, NewTrafficCounter) = (reports, s')"
  shows "wrap64 (upOf (mget0 uidMap k) reports + GetUpCount k s') = wrap64 (packetTotal True k es)
    \<and> wrap64 (downOf (mget0 uidMap k) reports + GetDownCount k s') = wrap64 (packetTotal False k es)"
proof -
  have "wf_state (h, NewTrafficCounter)"
    by (simp add: wf_state_def wf_counter_def NewTrafficCounter_def gomap_simps)
  then show ?thesis
    using runEvents_conserves [of "(h, NewTrafficCounter)" uidMap k minTraffic es] assms
    by (simp only: fst_conv snd_conv) (simp add: GetUpCount_def GetDownCount_def NewTrafficCounter_def)
qed

text \<open>The loop reads a cell and later stores zero, in two separate atomic operations: what a
  connection adds in between is in neither the report nor the counter.\<close>

lemma reset_race_loses:
  assumes "a < length h"
  shows "ts_Up (storeUp a 0 (addUp a n h) ! a) = 0"
  using assms by (simp add: cell_defs)

section \<open>Witnesses\<close>

definition wit_heap :: heap where
  "wit_heap = [\<lparr>ts_Up = 30, ts_Down = 40\<rparr>]"

definition wit_counter :: TrafficCounter where
  "wit_counter = [(''n|u'', 0)]"

lemma wit_wf: "wf_counter wit_heap wit_counter"
  by (simp add: wf_counter_def wf_map_def wit_heap_def wit_counter_def)

lemma wit_sole: "soleUid [(''n|u'', 7)] ''n|u''"
  by (auto simp: soleUid_def mget0_def)

lemma wit_collect:
  "collectTraffic 50 [(''n|u'', 7)] True (wit_heap, wit_counter)
     = ([\<lparr>ut_UID = 7, ut_Upload = 30, ut_Download = 40\<rparr>], [zeroStorage], wit_counter)"
  by (simp add: collectTraffic_def collectStep_def wit_heap_def wit_counter_def mget0_def wrap64_def
      zeroStorage_def cell_defs Let_def)

theorem ConnCounter_Read_overwrites_witness:
  "ts_Up (snd (ConnCounter_Read 0 5 None (snd (ConnCounter_Read 0 100 None [zeroStorage]))) ! 0) = 5"
  using ConnCounter_Read_overwrites [of 0 "[zeroStorage]" 5 None 100 None] by simp

theorem collectTraffic_conserves_witness:
  "upOf 7 [\<lparr>ut_UID = 7, ut_Upload = 30, ut_Download = 40\<rparr>] + GetUpCount ''n|u'' ([zeroStorage], wit_counter)
     = GetUpCount ''n|u'' (wit_heap, wit_counter)"
  using collectTraffic_conserves [OF wit_wf wit_sole wit_collect] by (simp add: mget0_def)

theorem traffic_history_conserved_witness:
  "wrap64 (upOf 7 (fst (runEvents 0 [(''n|u'', 7)] [Packet ''n|u'' True 5, Period, Packet ''n|u'' True 6] ([], NewTrafficCounter)))
     + GetUpCount ''n|u'' (snd (runEvents 0 [(''n|u'', 7)] [Packet ''n|u'' True 5, Period, Packet ''n|u'' True 6] ([], NewTrafficCounter))))
   = 11"
  using traffic_history_conserved [OF wit_sole prod.collapse [symmetric], of 0
      "[Packet ''n|u'' True 5, Period, Packet ''n|u'' True 6]" "[]"]
  by (simp add: mget0_def wrap64_def)

end
