(* ===== verification/Sniffing.thy ===== *)
theory Sniffing
  imports Prelude
begin

text \<open>
  Protocol sniffing of the xray dispatcher: sniffer.go and fakednssniffer.go of
  core/xray/app/dispatcher, and the caching reader and the function sniffer of default.go.

  A protocol sniffer is a function of the payload (None for the nil payload of a metadata pass); it
  gives a result or an error.  The sniffers of xray-core are parameters, the fake-DNS sniffers are
  the program's.  The context of a connection is fixed: its target is an argument.
\<close>

section \<open>Results\<close>

datatype sniffErr = ErrNoClue | ErrNeedMoreData | ErrUnknownContent | ErrTimeout | ErrOther string

datatype net = TCP | UDP | OtherNet

text \<open>\<open>sr_DomainProtocol\<close> is ProtocolForDomainResult of a composite result, \<open>sr_Original\<close> the name
  IsProtoSubsetOf compares with; None when the result lacks the method.\<close>

record SniffResult =
  sr_Protocol :: string
  sr_Domain :: string
  sr_DomainProtocol :: "string option"
  sr_Original :: "string option"

definition plainResult :: "string \<Rightarrow> string \<Rightarrow> SniffResult" where
  "plainResult p d = \<lparr>sr_Protocol = p, sr_Domain = d, sr_DomainProtocol = None, sr_Original = None\<rparr>"

definition fakeDNSSniffResult :: "string \<Rightarrow> SniffResult" where
  "fakeDNSSniffResult d = plainResult ''fakedns'' d"

definition DNSThenOthersSniffResult :: "string \<Rightarrow> string \<Rightarrow> SniffResult" where
  "DNSThenOthersSniffResult d p = \<lparr>sr_Protocol = ''fakedns+others'', sr_Domain = d,
     sr_DomainProtocol = None, sr_Original = Some p\<rparr>"

definition IsProtoSubsetOf :: "SniffResult \<Rightarrow> string \<Rightarrow> bool" where
  "IsProtoSubsetOf r protocolName =
     (case sr_Original r of None \<Rightarrow> False | Some p \<Rightarrow> has_prefix protocolName p)"

definition CompositeResult :: "SniffResult \<Rightarrow> SniffResult \<Rightarrow> SniffResult" where
  "CompositeResult domainResult protocolResult = \<lparr>sr_Protocol = sr_Protocol protocolResult,
     sr_Domain = sr_Domain domainResult, sr_DomainProtocol = Some (sr_Protocol domainResult),
     sr_Original = None\<rparr>"

section \<open>Sniffers\<close>

type_synonym sniffed = "sniffErr + SniffResult"

record protocolSniffer =
  ps_run :: "string option \<Rightarrow> sniffed"
  ps_metadata :: bool
  ps_network :: net

text \<open>The loops of Sniff and SniffMetadata: the first result, or the sniffers that had no clue.  A
  sniffer that gave another error is neither.\<close>

fun sniffLoop ::
  "net \<Rightarrow> string \<Rightarrow> protocolSniffer list \<Rightarrow> protocolSniffer list \<Rightarrow> SniffResult option \<times> protocolSniffer list" where
  "sniffLoop network payload [] pending = (None, pending)"
| "sniffLoop network payload (si # sis) pending =
     (if ps_metadata si \<or> ps_network si \<noteq> network then sniffLoop network payload sis pending
      else case ps_run si (Some payload) of
          Inr r \<Rightarrow> (Some r, pending)
        | Inl e \<Rightarrow> sniffLoop network payload sis (if e = ErrNoClue then pending @ [si] else pending))"

fun metadataLoop ::
  "protocolSniffer list \<Rightarrow> protocolSniffer list \<Rightarrow> SniffResult option \<times> protocolSniffer list" where
  "metadataLoop [] pending = (None, pending)"
| "metadataLoop (si # sis) pending =
     (if \<not> ps_metadata si then metadataLoop sis (pending @ [si])
      else case ps_run si None of
          Inr r \<Rightarrow> (Some r, pending)
        | Inl e \<Rightarrow> metadataLoop sis (if e = ErrNoClue then pending @ [si] else pending))"

text \<open>Both keep the pending sniffers for the next call when there are any.\<close>

definition endSniff ::
  "protocolSniffer list \<Rightarrow> SniffResult option \<times> protocolSniffer list \<Rightarrow> sniffed \<times> protocolSniffer list" where
  "endSniff s r =
     (case r of
        (Some x, pending) \<Rightarrow> (Inr x, s)
      | (None, pending) \<Rightarrow> if pending \<noteq> [] then (Inl ErrNoClue, pending) else (Inl ErrUnknownContent, s))"

definition Sniff :: "string \<Rightarrow> net \<Rightarrow> protocolSniffer list \<Rightarrow> sniffed \<times> protocolSniffer list" where
  "Sniff payload network s = endSniff s (sniffLoop network payload s [])"

definition SniffMetadata :: "protocolSniffer list \<Rightarrow> sniffed \<times> protocolSniffer list" where
  "SniffMetadata s = endSniff s (metadataLoop s [])"

section \<open>Fake DNS\<close>

text \<open>The fake-DNS engine: the domain it gave an address for (empty when none), and the pool test,
  which only some engines have.\<close>

record 'a fakeDNS =
  fd_domain :: "'a \<Rightarrow> string"
  fd_pool :: "('a \<Rightarrow> bool) option"

text \<open>The metadata sniffer: its result, and what it writes through the context's pointer when there
  is one.\<close>

definition fakeDNSSniff ::
  "'a fakeDNS \<Rightarrow> net \<Rightarrow> 'a \<Rightarrow> bool \<Rightarrow> sniffed \<times> bool option" where
  "fakeDNSSniff fd network target wantRange =
     (let d = fd_domain fd target in
      if (network = TCP \<or> network = UDP) \<and> d \<noteq> [] then (Inr (fakeDNSSniffResult d), None)
      else (Inl ErrNoClue,
        if wantRange then (case fd_pool fd of None \<Rightarrow> None | Some p \<Rightarrow> Some (p target)) else None))"

definition newFakeDNSSniffer :: "'a fakeDNS \<Rightarrow> net \<Rightarrow> 'a \<Rightarrow> protocolSniffer" where
  "newFakeDNSSniffer fd network target = \<lparr>ps_run = (\<lambda>b. fst (fakeDNSSniff fd network target False)),
     ps_metadata = True, ps_network = OtherNet\<rparr>"

fun othersLoop :: "string option \<Rightarrow> protocolSniffer list \<Rightarrow> sniffed" where
  "othersLoop b [] = Inl ErrNoClue"
| "othersLoop b (v # vs) =
     (if ps_metadata v \<or> b \<noteq> None then
        (case ps_run v b of
           Inr r \<Rightarrow> Inr (DNSThenOthersSniffResult (sr_Domain r) (sr_Protocol r))
         | Inl e \<Rightarrow> othersLoop b vs)
      else othersLoop b vs)"

definition newFakeDNSThenOthers ::
  "'a fakeDNS \<Rightarrow> net \<Rightarrow> 'a \<Rightarrow> protocolSniffer list \<Rightarrow> protocolSniffer" where
  "newFakeDNSThenOthers fd network target others = \<lparr>
     ps_run = (\<lambda>b. case fakeDNSSniff fd network target True of
         (Inr r, _) \<Rightarrow> Inr r
       | (Inl e, Some True) \<Rightarrow> othersLoop b others
       | (Inl e, _) \<Rightarrow> Inl ErrNoClue),
     ps_metadata = False, ps_network = OtherNet\<rparr>"

text \<open>The library's sniffers, in the order of NewSniffer, and the fake-DNS ones around them when an
  engine is there.\<close>

record sniffer_lib =
  sl_http :: "string option \<Rightarrow> sniffed"
  sl_tls :: "string option \<Rightarrow> sniffed"
  sl_bittorrent :: "string option \<Rightarrow> sniffed"
  sl_quic :: "string option \<Rightarrow> sniffed"
  sl_utp :: "string option \<Rightarrow> sniffed"

definition baseSniffers :: "sniffer_lib \<Rightarrow> protocolSniffer list" where
  "baseSniffers L =
     [\<lparr>ps_run = sl_http L, ps_metadata = False, ps_network = TCP\<rparr>,
      \<lparr>ps_run = sl_tls L, ps_metadata = False, ps_network = TCP\<rparr>,
      \<lparr>ps_run = sl_bittorrent L, ps_metadata = False, ps_network = TCP\<rparr>,
      \<lparr>ps_run = sl_quic L, ps_metadata = False, ps_network = UDP\<rparr>,
      \<lparr>ps_run = sl_utp L, ps_metadata = False, ps_network = UDP\<rparr>]"

definition NewSniffer :: "sniffer_lib \<Rightarrow> 'a fakeDNS option \<Rightarrow> net \<Rightarrow> 'a \<Rightarrow> protocolSniffer list" where
  "NewSniffer L fdns network target =
     (case fdns of
        None \<Rightarrow> baseSniffers L
      | Some fd \<Rightarrow> newFakeDNSThenOthers fd network target (baseSniffers L) #
          baseSniffers L @ [newFakeDNSSniffer fd network target])"

section \<open>The caching reader\<close>

text \<open>The cache holds what sniffing has read ahead.  The reader below answers each of its reads with bytes,
  or with an error such as a timeout; when the answers have run out every read is an error.\<close>

record cachedReader =
  cr_cache :: string
  cr_chunks :: "string option list"
  cr_isPipe :: bool
  cr_interrupted :: bool

definition readBelow :: "cachedReader \<Rightarrow> string option \<times> cachedReader" where
  "readBelow r = (case cr_chunks r of [] \<Rightarrow> (None, r) | mb # mbs \<Rightarrow> (mb, r\<lparr>cr_chunks := mbs\<rparr>))"

definition shown :: "nat \<Rightarrow> string \<Rightarrow> string" where
  "shown cap c = take (min (length c) cap) c"

text \<open>Cache: reads into the cache and shows at most \<open>cap\<close> bytes of it.\<close>

definition Cache :: "nat \<Rightarrow> cachedReader \<Rightarrow> string option \<times> cachedReader" where
  "Cache cap r =
     (case readBelow r of
        (None, r) \<Rightarrow> (None, r)
      | (Some mb, r) \<Rightarrow>
          let r = (if mb \<noteq> [] then r\<lparr>cr_cache := cr_cache r @ mb\<rparr> else r) in
          (Some (shown cap (cr_cache r)), r))"

definition readInternal :: "cachedReader \<Rightarrow> string option \<times> cachedReader" where
  "readInternal r = (if cr_cache r \<noteq> [] then (Some (cr_cache r), r\<lparr>cr_cache := []\<rparr>) else (None, r))"

definition ReadMultiBuffer :: "cachedReader \<Rightarrow> string option \<times> cachedReader" where
  "ReadMultiBuffer r =
     (case readInternal r of
        (Some mb, r) \<Rightarrow> (Some mb, r)
      | (None, r) \<Rightarrow> readBelow r)"

text \<open>The timeout only reaches the reader below, whose answers already take it into account.\<close>

definition ReadMultiBufferTimeout :: "cachedReader \<Rightarrow> string option \<times> cachedReader" where
  "ReadMultiBufferTimeout r =
     (case readInternal r of
        (Some mb, r) \<Rightarrow> (Some mb, r)
      | (None, r) \<Rightarrow> readBelow r)"

definition Interrupt :: "cachedReader \<Rightarrow> cachedReader" where
  "Interrupt r =
     (let r = r\<lparr>cr_cache := []\<rparr> in
      if cr_isPipe r then r\<lparr>cr_interrupted := True\<rparr> else r)"

section \<open>Sniffing a connection\<close>

text \<open>One turn of the content loop finds the context cancelled, or waits for data for the given time
  and gets an error or some bytes.\<close>

datatype attempt = Cancelled string | ReadErr string | ReadOk string int

text \<open>The content loop; None when the attempts run out, which the code's loop cannot do.\<close>

fun contentLoop ::
  "nat \<Rightarrow> net \<Rightarrow> attempt list \<Rightarrow> protocolSniffer list \<Rightarrow> string \<Rightarrow> nat \<Rightarrow> int \<Rightarrow> sniffed option" where
  "contentLoop cap network [] s cache tries deadline = None"
| "contentLoop cap network (Cancelled e # as) s cache tries deadline = Some (Inl (ErrOther e))"
| "contentLoop cap network (ReadErr e # as) s cache tries deadline = Some (Inl (ErrOther e))"
| "contentLoop cap network (ReadOk mb elapsed # as) s cache tries deadline =
     (let cache = cache @ mb; payload = shown cap cache; deadline = deadline - elapsed in
      if payload \<noteq> [] then
        (case Sniff payload network s of
           (Inl ErrNoClue, s) \<Rightarrow>
             if tries + 1 \<ge> 2 \<or> deadline \<le> 0 then Some (Inl ErrTimeout)
             else contentLoop cap network as s cache (tries + 1) deadline
         | (Inl ErrNeedMoreData, s) \<Rightarrow>
             if tries \<ge> 2 \<or> deadline \<le> 0 then Some (Inl ErrTimeout)
             else contentLoop cap network as s cache tries deadline
         | (r, s) \<Rightarrow> Some r)
      else if tries + 1 \<ge> 2 \<or> deadline \<le> 0 then Some (Inl ErrTimeout)
      else contentLoop cap network as s cache (tries + 1) deadline)"

definition sniffer ::
  "nat \<Rightarrow> attempt list \<Rightarrow> bool \<Rightarrow> net \<Rightarrow> protocolSniffer list \<Rightarrow> sniffed option" where
  "sniffer cap as metadataOnly network s =
     (case SniffMetadata s of (metaresult, s) \<Rightarrow>
        if metadataOnly then Some metaresult
        else (case contentLoop cap network as s [] 0 200000000 of
            None \<Rightarrow> None
          | Some content \<Rightarrow> Some
              (case (content, metaresult) of
                 (Inl e, Inr m) \<Rightarrow> Inr m
               | (Inr c, Inr m) \<Rightarrow> Inr (CompositeResult m c)
               | (content, Inl _) \<Rightarrow> content)))"

section \<open>Lemmas\<close>

definition applies :: "net \<Rightarrow> protocolSniffer \<Rightarrow> bool" where
  "applies network si \<longleftrightarrow> \<not> ps_metadata si \<and> ps_network si = network"

definition recognises :: "string \<Rightarrow> net \<Rightarrow> protocolSniffer \<Rightarrow> bool" where
  "recognises payload network si \<longleftrightarrow> applies network si \<and> (case ps_run si (Some payload) of Inr _ \<Rightarrow> True | Inl _ \<Rightarrow> False)"

definition clueless :: "string \<Rightarrow> net \<Rightarrow> protocolSniffer \<Rightarrow> bool" where
  "clueless payload network si \<longleftrightarrow> applies network si \<and> ps_run si (Some payload) = Inl ErrNoClue"

lemma sniffLoop_spec:
  "sniffLoop network payload s pending =
     (case find (recognises payload network) s of
        Some si \<Rightarrow> (case ps_run si (Some payload) of Inr r \<Rightarrow> Some r | Inl _ \<Rightarrow> None,
          pending @ filter (clueless payload network) (takeWhile (\<lambda>x. \<not> recognises payload network x) s))
      | None \<Rightarrow> (None, pending @ filter (clueless payload network) s))"
  by (induction s arbitrary: pending)
     (auto simp: recognises_def clueless_def applies_def split: sum.splits option.splits)

lemma find_recognised: "find (recognises payload network) s = Some si \<Longrightarrow> \<exists>r. ps_run si (Some payload) = Inr r"
  by (cases "ps_run si (Some payload)") (auto simp: find_Some_iff recognises_def)

lemma Sniff_no_NeedMore: "fst (Sniff payload network s) \<noteq> Inl ErrNeedMoreData"
  by (auto simp: Sniff_def endSniff_def split: prod.splits option.splits)

section \<open>Properties\<close>

text \<open>Sniffing a payload answers with the first sniffer of the connection's network that recognises
  it; otherwise only the sniffers that had no clue are kept for the next payload, and a sniffer that
  recognised its protocol but asked for more data is dropped like one that failed.\<close>

theorem Sniff_spec:
  "Sniff payload network s =
     (case find (recognises payload network) s of
        Some si \<Rightarrow> (ps_run si (Some payload), s)
      | None \<Rightarrow>
          (case filter (clueless payload network) s of
             [] \<Rightarrow> (Inl ErrUnknownContent, s)
           | pending \<Rightarrow> (Inl ErrNoClue, pending)))"
  using find_recognised [of payload network s]
  by (auto simp: Sniff_def endSniff_def sniffLoop_spec split: option.splits sum.splits list.splits)

text \<open>So a TLS sniffer that has seen half of a greeting is never asked about the rest.\<close>

lemma needs_more_is_dropped:
  "ps_run si (Some payload) = Inl ErrNeedMoreData \<Longrightarrow> fst (Sniff payload network s) = Inl ErrNoClue \<Longrightarrow>
   si \<notin> set (snd (Sniff payload network s))"
  by (auto simp: Sniff_def endSniff_def sniffLoop_spec clueless_def split: option.splits if_splits)

lemma contentLoop_read:
  assumes "Sniff (shown cap (c @ mb)) network s = (r, s')"
  shows "contentLoop cap network (ReadOk mb elapsed # as) s c tries deadline =
    (if shown cap (c @ mb) \<noteq> [] \<and> r \<noteq> Inl ErrNoClue then Some r
     else if tries + 1 \<ge> 2 \<or> deadline - elapsed \<le> 0 then Some (Inl ErrTimeout)
     else contentLoop cap network as (if shown cap (c @ mb) \<noteq> [] then s' else s)
       (c @ mb) (tries + 1) (deadline - elapsed))"
  using assms Sniff_no_NeedMore [of "shown cap (c @ mb)" network s]
  by (auto simp: Let_def split: sum.splits sniffErr.splits)

lemma contentLoop_last:
  "contentLoop cap network (b # bs) s c 1 deadline = contentLoop cap network [b] s c 1 deadline \<and>
   contentLoop cap network [b] s c 1 deadline \<noteq> None"
proof (cases b)
  case (ReadOk mb elapsed)
  obtain r s' where "Sniff (shown cap (c @ mb)) network s = (r, s')"
    by (metis surj_pair)
  from contentLoop_read [OF this] show ?thesis
    using ReadOk by simp
qed simp_all

text \<open>C38: The content loop always ends, at the latest after its second turn, whatever the reader and the
  sniffers do and however little time passes: later attempts are never looked at.\<close>

theorem contentLoop_ends:
  "contentLoop cap network (a # b # as) s [] 0 deadline = contentLoop cap network [a, b] s [] 0 deadline \<and>
   contentLoop cap network [a, b] s [] 0 deadline \<noteq> None"
proof (cases a)
  case (ReadOk mb elapsed)
  obtain r s' where "Sniff (shown cap ([] @ mb)) network s = (r, s')"
    by (metis surj_pair)
  from contentLoop_read [OF this] show ?thesis
    using ReadOk contentLoop_last [of cap network b as]
    by (simp del: contentLoop.simps)
qed simp_all

text \<open>A run of the reader: what its user is given, in order.\<close>

datatype reader_op = DoCache nat | DoRead | DoReadTimeout

definition given :: "string option \<Rightarrow> string" where
  "given mb = (case mb of None \<Rightarrow> [] | Some b \<Rightarrow> b)"

fun runReader :: "reader_op list \<Rightarrow> cachedReader \<Rightarrow> string \<times> cachedReader" where
  "runReader [] r = ([], r)"
| "runReader (DoCache cap # ops) r = runReader ops (snd (Cache cap r))"
| "runReader (DoRead # ops) r =
     (case ReadMultiBuffer r of (mb, r) \<Rightarrow> (case runReader ops r of (bs, r) \<Rightarrow> (given mb @ bs, r)))"
| "runReader (DoReadTimeout # ops) r =
     (case ReadMultiBufferTimeout r of (mb, r) \<Rightarrow> (case runReader ops r of (bs, r) \<Rightarrow> (given mb @ bs, r)))"

definition stream :: "cachedReader \<Rightarrow> string" where
  "stream r = cr_cache r @ concat (map given (cr_chunks r))"

lemma readBelow_parts:
  assumes "readBelow r = (mb, r')"
  shows "cr_cache r' = cr_cache r"
    and "concat (map given (cr_chunks r)) = given mb @ concat (map given (cr_chunks r'))"
  using assms by (auto simp: readBelow_def given_def split: list.split_asm)

lemma Cache_shown:
  assumes "Cache cap r = (b, r')"
  shows "stream r' = stream r" "b = None \<or> b = Some (shown cap (cr_cache r'))"
  using assms
  by (auto simp: Cache_def stream_def given_def Let_def readBelow_parts split: prod.split_asm option.split_asm if_split_asm)

lemma Read_stream:
  "ReadMultiBuffer r = (mb, r') \<Longrightarrow> given mb @ stream r' = stream r"
  by (auto simp: stream_def ReadMultiBuffer_def readInternal_def given_def [of "Some b" for b] readBelow_parts
      split: if_split_asm)

lemma ReadTimeout_same: "ReadMultiBufferTimeout = ReadMultiBuffer"
  by (simp add: fun_eq_iff ReadMultiBuffer_def ReadMultiBufferTimeout_def)

text \<open>C37: Sniffing does not disturb the connection: however calls of Cache and of the reads are mixed,
  and whichever of them run into a timeout, what the outbound reads, followed by what is still cached
  or unread, is the client's byte stream, in order and without loss or repetition.\<close>

theorem cachedReader_transparent:
  "fst (runReader ops r) @ stream (snd (runReader ops r)) = stream r"
proof (induction ops r rule: runReader.induct)
  case (2 cap ops r)
  then show ?case
    using Cache_shown(1) [of cap r "fst (Cache cap r)"] by simp
next
  case (3 ops r)
  obtain mb r1 where m: "ReadMultiBuffer r = (mb, r1)"
    by (metis surj_pair)
  show ?case
    using 3 [OF m [symmetric]] Read_stream [OF m] m by (auto split: prod.splits)
next
  case (4 ops r)
  obtain mb r1 where m: "ReadMultiBufferTimeout r = (mb, r1)"
    by (metis surj_pair)
  show ?case
    using 4 [OF m [symmetric]] Read_stream [OF m [unfolded ReadTimeout_same]] m by (auto split: prod.splits)
qed simp

text \<open>What Cache shows to the sniffers is the beginning of what the outbound will read.\<close>

lemma Cache_shows_prefix:
  assumes "Cache cap r = (Some p, r')"
  shows "\<exists>rest. stream r = p @ rest"
proof -
  let ?n = "min (length (cr_cache r')) cap"
  have "stream r = take ?n (cr_cache r') @ drop ?n (cr_cache r') @ concat (map given (cr_chunks r'))"
    using Cache_shown(1) [OF assms] by (metis append.assoc append_take_drop_id stream_def)
  then show ?thesis
    using Cache_shown(2) [OF assms] by (auto simp: shown_def)
qed

text \<open>An interrupted connection loses what was read ahead.\<close>

lemma Interrupt_drops_cache: "stream (Interrupt r) = concat (map given (cr_chunks r))"
  by (simp add: stream_def Interrupt_def Let_def)

end
