(* ===== verification/Dispatcher.thy ===== *)
theory Dispatcher
  imports Limiter Counter Sniffing
begin

text \<open>
  The dispatcher of the xray core: core/xray/app/dispatcher/default.go and linkmanager.go, and the
  rate-limited writer of common/rate.

  Pipes and the links handed in by callers are numbered.  A writer is the stack of wrappers the code
  builds; \<open>SizeStat\<close> stands for the counting writer of xray-core, which hands a Close on to the writer it
  wraps.  Closing or interrupting an end that belongs to xray-core is recorded in the log \<open>dp_log\<close>.  Link managers are shared by reference, so
  they live in a list and are named by their position.
\<close>

section \<open>Links\<close>

datatype 'b writer =
    PipeWriter nat
  | ExtWriter nat
  | ManagedWriter nat nat "'b writer"
  | RateWriter 'b "'b writer"
  | SizeStat cell "'b writer"

text \<open>A reader handed in by a caller that is no pipe may or may not be able to read with a timeout.\<close>

datatype reader =
    PipeReader nat
  | ExtReader nat bool
  | CountingReader nat reader
  | CachingReader reader

record 'b Link =
  lk_Reader :: reader
  lk_Writer :: "'b writer"

datatype 'b effect = Closed "'b writer" | Interrupted reader

type_synonym 'b LinkManager = "('b writer, reader) gomap"

record 'b DefaultDispatcher =
  dp_Counter :: "(string, TrafficCounter) gomap"
  dp_heap :: heap
  dp_SameTagOutbound :: "(string, bool) gomap"
  dp_LinkManagers :: "(string, nat) gomap"
  dp_managers :: "'b LinkManager list"
  dp_fresh :: nat
  dp_log :: "'b effect list"

definition newDispatcher :: "'b DefaultDispatcher" where
  "newDispatcher = \<lparr>dp_Counter = [], dp_heap = [], dp_SameTagOutbound = [], dp_LinkManagers = [],
     dp_managers = [], dp_fresh = 0, dp_log = []\<rparr>"

definition SetSameTagOutbound :: "string \<Rightarrow> bool \<Rightarrow> 'b DefaultDispatcher \<Rightarrow> 'b DefaultDispatcher" where
  "SetSameTagOutbound tag enabled d =
     (if tag = [] then d
      else if enabled then d\<lparr>dp_SameTagOutbound := mstore tag True (dp_SameTagOutbound d)\<rparr>
      else d\<lparr>dp_SameTagOutbound := mdelete tag (dp_SameTagOutbound d)\<rparr>)"

definition CanUseSameTagOutbound :: "string \<Rightarrow> 'b DefaultDispatcher \<Rightarrow> bool" where
  "CanUseSameTagOutbound tag d =
     (tag \<noteq> [] \<and> (case map_of (dp_SameTagOutbound d) tag of Some enabled \<Rightarrow> enabled | None \<Rightarrow> False))"

text \<open>The operations of a link manager.\<close>

definition AddLink :: "nat \<Rightarrow> 'b writer \<Rightarrow> reader \<Rightarrow> 'b DefaultDispatcher \<Rightarrow> 'b DefaultDispatcher" where
  "AddLink m w r d = d\<lparr>dp_managers := (dp_managers d)[m := mstore w r (dp_managers d ! m)]\<rparr>"

definition RemoveWriter :: "nat \<Rightarrow> 'b writer \<Rightarrow> 'b DefaultDispatcher \<Rightarrow> 'b DefaultDispatcher" where
  "RemoveWriter m w d = d\<lparr>dp_managers := (dp_managers d)[m := mdelete w (dp_managers d ! m)]\<rparr>"

definition record_fx :: "'b effect \<Rightarrow> 'b DefaultDispatcher \<Rightarrow> 'b DefaultDispatcher" where
  "record_fx e d = d\<lparr>dp_log := dp_log d @ [e]\<rparr>"

text \<open>common.Close on a writer: ManagedWriter.Close and Writer.Close pass it on.\<close>

fun closeWriter :: "'b writer \<Rightarrow> 'b DefaultDispatcher \<Rightarrow> 'b DefaultDispatcher" where
  "closeWriter (ManagedWriter i m w) d = closeWriter w (RemoveWriter m (ManagedWriter i m w) d)"
| "closeWriter (RateWriter b w) d = closeWriter w d"
| "closeWriter (SizeStat c w) d = closeWriter w d"
| "closeWriter w d = record_fx (Closed w) d"

text \<open>common.Interrupt on a reader: CounterReader has neither Interrupt nor Close, so nothing happens, and
  cachedReader passes it on to a pipe only.\<close>

fun interruptReader :: "reader \<Rightarrow> 'b DefaultDispatcher \<Rightarrow> 'b DefaultDispatcher" where
  "interruptReader (CountingReader a r) d = d"
| "interruptReader (CachingReader (PipeReader n)) d = record_fx (Interrupted (PipeReader n)) d"
| "interruptReader (CachingReader r) d = d"
| "interruptReader r d = record_fx (Interrupted r) d"

definition closeLink :: "'b Link \<Rightarrow> 'b DefaultDispatcher \<Rightarrow> 'b DefaultDispatcher" where
  "closeLink link d = interruptReader (lk_Reader link) (closeWriter (lk_Writer link) d)"

definition CloseAll :: "nat \<Rightarrow> 'b DefaultDispatcher \<Rightarrow> 'b DefaultDispatcher" where
  "CloseAll m d =
     fold (\<lambda>(w, r) d. interruptReader r (closeWriter w d)) (dp_managers d ! m) d"

text \<open>What the writers of the program do with a buffer of \<open>n\<close> bytes: the waits for tokens, in order,
  and the end the buffer reaches.\<close>

fun writeMultiBuffer :: "'b writer \<Rightarrow> int \<Rightarrow> ('b \<times> int) list \<times> 'b writer" where
  "writeMultiBuffer (ManagedWriter i m w) n = writeMultiBuffer w n"
| "writeMultiBuffer (RateWriter b w) n = (case writeMultiBuffer w n of (ws, e) \<Rightarrow> ((b, n) # ws, e))"
| "writeMultiBuffer w n = ([], w)"

text \<open>rate.Conn: a read or write of the wrapped connection that moved \<open>n\<close> bytes waits for \<open>n\<close> tokens.\<close>

definition rateConn_io :: "'b \<Rightarrow> int \<Rightarrow> err \<Rightarrow> (int \<times> err) \<times> ('b \<times> int) list" where
  "rateConn_io b n e = ((n, e), if n > 0 then [(b, n)] else [])"

section \<open>Admission\<close>

record SessionInbound =
  si_Tag :: string
  si_User :: "string option"
  si_SourceIP :: string
  si_SourceTCP :: bool

definition sessionUser :: "SessionInbound option \<Rightarrow> (SessionInbound \<times> string) option" where
  "sessionUser ib =
     (case ib of None \<Rightarrow> None
      | Some s \<Rightarrow> (case si_User s of None \<Rightarrow> None | Some email \<Rightarrow> if email = [] then None else Some (s, email)))"

text \<open>The limiter of the node is asked; it is shared by reference, so the registry sees its new
  state.\<close>

definition admit ::
  "(int \<Rightarrow> int \<Rightarrow> int \<Rightarrow> 'b) \<Rightarrow> int \<Rightarrow> SessionInbound \<Rightarrow> string \<Rightarrow> bool \<Rightarrow> 'b registry \<Rightarrow>
   ('b Limiter \<times> 'b option) res \<times> 'b registry" where
  "admit newBucket now s email tcp reg =
     (case GetLimiter (si_Tag s) reg of
        Inl e \<Rightarrow> (Inl (''get limiter '' @ si_Tag s @ '' error: '' @ e), reg)
      | Inr l \<Rightarrow>
          (case CheckLimit newBucket now email (si_SourceIP s) tcp (si_SourceTCP s) l of
             ((w, reject), l') \<Rightarrow>
               let reg' = mstore (si_Tag s) l' reg in
               if reject then (Inl (''Limited '' @ email @ '' by conn or ip''), reg')
               else (Inr (l', w), reg')))"

text \<open>The user's link manager, made at his first connection; the same for his traffic counter.\<close>

definition userManager :: "string \<Rightarrow> 'b DefaultDispatcher \<Rightarrow> nat \<times> 'b DefaultDispatcher" where
  "userManager email d =
     (case map_of (dp_LinkManagers d) email of
        Some m \<Rightarrow> (m, d)
      | None \<Rightarrow> (length (dp_managers d), d\<lparr>
          dp_LinkManagers := mstore email (length (dp_managers d)) (dp_LinkManagers d),
          dp_managers := dp_managers d @ [[]]\<rparr>))"

definition userCounter :: "string \<Rightarrow> string \<Rightarrow> 'b DefaultDispatcher \<Rightarrow> nat \<times> 'b DefaultDispatcher" where
  "userCounter tag email d =
     (let t = (case map_of (dp_Counter d) tag of None \<Rightarrow> NewTrafficCounter | Some t \<Rightarrow> t) in
      case GetCounter email (dp_heap d, t) of
        (a, h, t) \<Rightarrow> (a, d\<lparr>dp_heap := h, dp_Counter := mstore tag t (dp_Counter d)\<rparr>))"

definition rateWriter :: "'b option \<Rightarrow> 'b writer \<Rightarrow> 'b writer" where
  "rateWriter w x = (case w of None \<Rightarrow> x | Some b \<Rightarrow> RateWriter b x)"

section \<open>getLink and DispatchLink\<close>

definition getLink ::
  "(int \<Rightarrow> int \<Rightarrow> int \<Rightarrow> 'b) \<Rightarrow> int \<Rightarrow> SessionInbound option \<Rightarrow> bool \<Rightarrow> 'b registry \<Rightarrow> 'b DefaultDispatcher \<Rightarrow>
   ('b Link \<times> 'b Link \<times> 'b Limiter option) res \<times> 'b registry \<times> 'b DefaultDispatcher" where
  "getLink newBucket now ib tcp reg d =
     (let up = dp_fresh d; down = dp_fresh d + 1; mw = dp_fresh d + 2; d = d\<lparr>dp_fresh := dp_fresh d + 3\<rparr>;
          inboundLink = \<lparr>lk_Reader = PipeReader down, lk_Writer = PipeWriter up\<rparr>;
          outboundLink = \<lparr>lk_Reader = PipeReader up, lk_Writer = PipeWriter down\<rparr> in
      case sessionUser ib of
        None \<Rightarrow> (Inr (inboundLink, outboundLink, None), reg, d)
      | Some (s, email) \<Rightarrow>
          (case admit newBucket now s email tcp reg of
             (Inl e, reg) \<Rightarrow> (Inl e, reg,
               d\<lparr>dp_log := dp_log d @ [Closed (PipeWriter down), Closed (PipeWriter up),
                    Interrupted (PipeReader up), Interrupted (PipeReader down)]\<rparr>)
           | (Inr (l, w), reg) \<Rightarrow>
               let (m, d) = userManager email d;
                   managed = ManagedWriter mw m (PipeWriter up);
                   d = AddLink m managed (PipeReader up) d;
                   (a, d) = userCounter (si_Tag s) email d
               in (Inr (inboundLink\<lparr>lk_Writer := SizeStat (UpCell a) (rateWriter w managed)\<rparr>,
                        outboundLink\<lparr>lk_Writer := SizeStat (DownCell a) (rateWriter w (PipeWriter down))\<rparr>,
                        Some l), reg, d)))"

text \<open>The link DispatchLink is handed is wrapped in place.\<close>

definition wrapLink ::
  "(int \<Rightarrow> int \<Rightarrow> int \<Rightarrow> 'b) \<Rightarrow> int \<Rightarrow> SessionInbound option \<Rightarrow> bool \<Rightarrow> 'b Link \<Rightarrow> 'b registry \<Rightarrow>
   'b DefaultDispatcher \<Rightarrow> ('b Link \<times> 'b Limiter option) res \<times> 'b registry \<times> 'b DefaultDispatcher" where
  "wrapLink newBucket now ib tcp outbound reg d =
     (case sessionUser ib of
        None \<Rightarrow> (Inr (outbound, None), reg, d)
      | Some (s, email) \<Rightarrow>
          (case admit newBucket now s email tcp reg of
             (Inl e, reg) \<Rightarrow> (Inl e, reg, closeLink outbound d)
           | (Inr (l, w), reg) \<Rightarrow>
               let mw = dp_fresh d;
                   (m, d) = userManager email (d\<lparr>dp_fresh := dp_fresh d + 1\<rparr>);
                   managed = ManagedWriter mw m (lk_Writer outbound);
                   (a, d) = userCounter (si_Tag s) email d;
                   r = CountingReader a (lk_Reader outbound)
               in (Inr (\<lparr>lk_Reader = r, lk_Writer = SizeStat (DownCell a) (rateWriter w managed)\<rparr>, Some l),
                   reg, AddLink m managed r d)))"

section \<open>Destinations\<close>

datatype dest_addr = Domain string | IP string

record Destination =
  dst_Network :: net
  dst_Address :: dest_addr
  dst_Port :: int

record SessionOutbound =
  so_OriginalTarget :: Destination
  so_Target :: Destination
  so_RouteTarget :: "Destination option"
  so_Tag :: string

record SniffingRequest =
  sn_Enabled :: bool
  sn_MetadataOnly :: bool
  sn_RouteOnly :: bool
  sn_ExcludeForDomain :: "string list"
  sn_OverrideDestinationForProtocol :: "string list"

text \<open>The loop over the excluded domains; an expression that does not compile is skipped.\<close>

fun excluded :: "(string \<Rightarrow> (string \<Rightarrow> bool) option) \<Rightarrow> string \<Rightarrow> string list \<Rightarrow> bool" where
  "excluded compile domain [] = False"
| "excluded compile domain (d # ds) =
     (if has_prefix d ''regexp:'' then
        (case compile (drop 7 d) of
           None \<Rightarrow> excluded compile domain ds
         | Some re \<Rightarrow> if re domain then True else excluded compile domain ds)
      else if to_lower domain = d then True
      else excluded compile domain ds)"

definition is_ip :: "dest_addr \<Rightarrow> bool" where
  "is_ip a = (case a of IP _ \<Rightarrow> True | Domain _ \<Rightarrow> False)"

definition inPool :: "dest_addr fakeDNS option \<Rightarrow> dest_addr \<Rightarrow> bool" where
  "inPool fdns a = (case fdns of None \<Rightarrow> False
     | Some fd \<Rightarrow> (case fd_pool fd of None \<Rightarrow> False | Some p \<Rightarrow> p a))"

definition domainProtocol :: "SniffResult \<Rightarrow> string" where
  "domainProtocol r = (case sr_DomainProtocol r of None \<Rightarrow> sr_Protocol r | Some p \<Rightarrow> p)"

definition overrides :: "dest_addr fakeDNS option \<Rightarrow> SniffResult \<Rightarrow> dest_addr \<Rightarrow> string \<Rightarrow> bool" where
  "overrides fdns r dest p =
     (let protocolString = domainProtocol r in
      has_prefix protocolString p \<or> has_prefix p protocolString \<or>
      (protocolString \<noteq> ''bittorrent'' \<and> p = ''fakedns'' \<and> is_ip dest \<and> inPool fdns dest) \<or>
      IsProtoSubsetOf r p)"

definition shouldOverride ::
  "(string \<Rightarrow> (string \<Rightarrow> bool) option) \<Rightarrow> dest_addr fakeDNS option \<Rightarrow> SniffResult \<Rightarrow> SniffingRequest \<Rightarrow>
   Destination \<Rightarrow> bool" where
  "shouldOverride compile fdns r rq dest =
     (let domain = sr_Domain r in
      if domain = [] then False
      else if excluded compile domain (sn_ExcludeForDomain rq) then False
      else list_ex (overrides fdns r (dst_Address dest)) (sn_OverrideDestinationForProtocol rq))"

text \<open>The sniffed domain becomes the destination, for routing only or altogether.  \<open>checkIP\<close>: Dispatch
  asks the fake-DNS pool only about an IP target, DispatchLink about any target.\<close>

definition retarget ::
  "(string \<Rightarrow> dest_addr) \<Rightarrow> (string \<Rightarrow> (string \<Rightarrow> bool) option) \<Rightarrow> dest_addr fakeDNS option \<Rightarrow> bool \<Rightarrow>
   SniffingRequest \<Rightarrow> sniffed \<Rightarrow> Destination \<Rightarrow> SessionOutbound \<Rightarrow> Destination \<times> SessionOutbound" where
  "retarget parse compile fdns checkIP rq result dest ob =
     (case result of
        Inl e \<Rightarrow> (dest, ob)
      | Inr r \<Rightarrow>
          if shouldOverride compile fdns r rq dest then
            let dest' = dest\<lparr>dst_Address := parse (sr_Domain r)\<rparr>;
                protocol = domainProtocol r;
                target = dst_Address (so_Target ob);
                isFakeIP = ((\<not> checkIP \<or> is_ip target) \<and> inPool fdns target)
            in if sn_RouteOnly rq \<and> protocol \<noteq> ''fakedns'' \<and> protocol \<noteq> ''fakedns+others'' \<and> \<not> isFakeIP
               then (dest', ob\<lparr>so_RouteTarget := Some dest'\<rparr>)
               else (dest', ob\<lparr>so_Target := dest'\<rparr>)
          else (dest, ob))"

section \<open>routedDispatch\<close>

text \<open>The outbound manager and the router of xray-core; \<open>rv_route\<close> is None when there is no router, and
  the picked route is an error or a tag.\<close>

record 'h routing =
  rv_handler :: "string \<Rightarrow> 'h option"
  rv_default :: "'h option"
  rv_tag :: "'h \<Rightarrow> string"
  rv_route :: "(SessionOutbound \<Rightarrow> string res) option"

text \<open>What becomes of a connection: its link is closed, or handed to an outbound with a detour label for the
  log; the outbound dials the target of the session it is given.\<close>

datatype 'h routed = Refused | Sent 'h string SessionOutbound

text \<open>The audit rules, of the limiter getLink found or of the one looked up now.\<close>

definition ruleLimiter :: "string \<Rightarrow> 'b registry \<Rightarrow> 'b Limiter option \<Rightarrow> 'b Limiter option" where
  "ruleLimiter tag reg l =
     (case l of Some l \<Rightarrow> Some l
      | None \<Rightarrow> (case GetLimiter tag reg of Inl e \<Rightarrow> None | Inr l \<Rightarrow> Some l))"

definition destString :: "Destination \<Rightarrow> string" where
  "destString d = (case dst_Address d of Domain s \<Rightarrow> s | IP s \<Rightarrow> s)"

definition ruleRejects :: "'b Limiter \<Rightarrow> string \<Rightarrow> string \<Rightarrow> bool" where
  "ruleRejects l destStr protocol =
     (if CheckDomainRule l destStr then True
      else if protocol \<noteq> [] then CheckProtocolRule l protocol else False)"

text \<open>The handler: a forced tag, the picked route, the outbound with the inbound's tag, the default.
  None is a link that is closed; the number is the code's isPickRoute.\<close>

definition pickHandler ::
  "'h routing \<Rightarrow> 'b DefaultDispatcher \<Rightarrow> string \<Rightarrow> string \<Rightarrow> SessionOutbound \<Rightarrow> ('h \<times> int) option" where
  "pickHandler R d forced inTag ob =
     (let same = (if CanUseSameTagOutbound inTag d then rv_handler R inTag else None);
          fallback = (case same of Some h \<Rightarrow> Some (h, 0) | None \<Rightarrow> map_option (\<lambda>h. (h, 0)) (rv_default R)) in
      if forced \<noteq> [] then map_option (\<lambda>h. (h, 1)) (rv_handler R forced)
      else case rv_route R of
          None \<Rightarrow> fallback
        | Some pick \<Rightarrow> (case pick ob of
            Inl e \<Rightarrow> fallback
          | Inr outTag \<Rightarrow> map_option (\<lambda>h. (h, 2)) (rv_handler R outTag)))"

definition detour :: "string \<Rightarrow> string \<Rightarrow> int \<Rightarrow> string" where
  "detour inTag tag k =
     (if tag = [] then []
      else if inTag = [] then tag
      else if k = 1 then inTag @ '' ==> '' @ tag
      else if k = 2 then inTag @ '' -> '' @ tag
      else inTag @ '' >> '' @ tag)"

text \<open>A session without inbound is a nil pointer that is followed.\<close>

definition routedDispatch ::
  "'h routing \<Rightarrow> 'b registry \<Rightarrow> SessionInbound option \<Rightarrow> string \<Rightarrow> SessionOutbound \<Rightarrow>
   'b Link \<Rightarrow> Destination \<Rightarrow> 'b Limiter option \<Rightarrow> string \<Rightarrow> 'b DefaultDispatcher \<Rightarrow>
   ('h routed \<times> 'b DefaultDispatcher) outcome" where
  "routedDispatch R reg ib forced ob link dest l protocol d =
     (case ib of
        None \<Rightarrow> Panic
      | Some s \<Rightarrow>
          if (case (si_User s, ruleLimiter (si_Tag s) reg l) of
                (Some u, Some l) \<Rightarrow> ruleRejects l (destString dest) protocol | _ \<Rightarrow> False)
          then Ret (Refused, closeLink link d)
          else (case pickHandler R d forced (si_Tag s) ob of
              None \<Rightarrow> Ret (Refused, closeLink link d)
            | Some (h, k) \<Rightarrow>
                Ret (Sent h (detour (si_Tag s) (rv_tag R h) k) (ob\<lparr>so_Tag := rv_tag R h\<rparr>), d)))"

text \<open>What is left to do once the link is made: sniff when asked to, then route.  \<open>result\<close> is what
  the function sniffer returns for this connection.  A reader that cannot read with a timeout fails the
  type assertion.\<close>

definition timeoutReader :: "reader \<Rightarrow> bool" where
  "timeoutReader r = (case r of ExtReader n b \<Rightarrow> b | _ \<Rightarrow> True)"

definition sniffAndRoute ::
  "(string \<Rightarrow> dest_addr) \<Rightarrow> (string \<Rightarrow> (string \<Rightarrow> bool) option) \<Rightarrow> dest_addr fakeDNS option \<Rightarrow> bool \<Rightarrow>
   'h routing \<Rightarrow> 'b registry \<Rightarrow> SessionInbound option \<Rightarrow> string \<Rightarrow> SniffingRequest \<Rightarrow>
   string \<Rightarrow> sniffed \<Rightarrow> Destination \<Rightarrow> 'b Link \<Rightarrow> 'b Limiter option \<Rightarrow> 'b DefaultDispatcher \<Rightarrow>
   ('h routed \<times> 'b DefaultDispatcher) outcome" where
  "sniffAndRoute parse compile fdns checkIP R reg ib forced rq contentProtocol result dest link l d =
     (let ob = \<lparr>so_OriginalTarget = dest, so_Target = dest, so_RouteTarget = None, so_Tag = []\<rparr> in
      if \<not> sn_Enabled rq then routedDispatch R reg ib forced ob link dest l [] d
      else if \<not> timeoutReader (lk_Reader link) then Panic
      else (case retarget parse compile fdns checkIP rq result dest ob of
          (dest', ob) \<Rightarrow>
            routedDispatch R reg ib forced ob (link\<lparr>lk_Reader := CachingReader (lk_Reader link)\<rparr>) dest' l
              (case result of Inl e \<Rightarrow> contentProtocol | Inr r \<Rightarrow> sr_Protocol r) d))"

text \<open>Dispatch: the caller's end of the link, and what becomes of the connection.  Whether a destination is
  valid is asked of xray-core.  The routing runs on a goroutine, where a panic ends the process.\<close>

definition Dispatch ::
  "(int \<Rightarrow> int \<Rightarrow> int \<Rightarrow> 'b) \<Rightarrow> int \<Rightarrow> (string \<Rightarrow> dest_addr) \<Rightarrow> (string \<Rightarrow> (string \<Rightarrow> bool) option) \<Rightarrow>
   dest_addr fakeDNS option \<Rightarrow> (Destination \<Rightarrow> bool) \<Rightarrow> 'h routing \<Rightarrow> SessionInbound option \<Rightarrow> string \<Rightarrow>
   SniffingRequest \<Rightarrow> string \<Rightarrow> sniffed \<Rightarrow> Destination \<Rightarrow> 'b registry \<Rightarrow> 'b DefaultDispatcher \<Rightarrow>
   (('b Link \<times> 'h routed) res \<times> 'b registry \<times> 'b DefaultDispatcher) outcome" where
  "Dispatch newBucket now parse compile fdns isValid R ib forced rq cp result dest reg d =
     (if \<not> isValid dest then Panic
      else case getLink newBucket now ib (dst_Network dest = TCP) reg d of
        (Inl e, reg, d) \<Rightarrow> Ret (Inl e, reg, d)
      | (Inr (inbound, outbound, l), reg, d) \<Rightarrow>
          (case sniffAndRoute parse compile fdns True R reg ib forced rq cp result dest outbound l d of
             Panic \<Rightarrow> Panic
           | Ret (routed, d) \<Rightarrow> Ret (Inr (inbound, routed), reg, d)))"

definition DispatchLink ::
  "(int \<Rightarrow> int \<Rightarrow> int \<Rightarrow> 'b) \<Rightarrow> int \<Rightarrow> (string \<Rightarrow> dest_addr) \<Rightarrow> (string \<Rightarrow> (string \<Rightarrow> bool) option) \<Rightarrow>
   dest_addr fakeDNS option \<Rightarrow> (Destination \<Rightarrow> bool) \<Rightarrow> 'h routing \<Rightarrow> SessionInbound option \<Rightarrow> string \<Rightarrow>
   SniffingRequest \<Rightarrow> string \<Rightarrow> sniffed \<Rightarrow> Destination \<Rightarrow> 'b Link \<Rightarrow> 'b registry \<Rightarrow> 'b DefaultDispatcher \<Rightarrow>
   (('b Link \<times> 'h routed) res \<times> 'b registry \<times> 'b DefaultDispatcher) outcome" where
  "DispatchLink newBucket now parse compile fdns isValid R ib forced rq cp result dest outbound reg d =
     (if \<not> isValid dest then Ret (Inl ''Dispatcher: Invalid destination.'', reg, d)
      else case wrapLink newBucket now ib (dst_Network dest = TCP) outbound reg d of
        (Inl e, reg, d) \<Rightarrow> Ret (Inl e, reg, d)
      | (Inr (outbound, l), reg, d) \<Rightarrow>
          (case sniffAndRoute parse compile fdns False R reg ib forced rq cp result dest outbound l d of
             Panic \<Rightarrow> Panic
           | Ret (routed, d) \<Rightarrow> Ret (Inr (outbound, routed), reg, d)))"

section \<open>Lemmas\<close>

text \<open>The end a stack of the program's wrappers leads to.\<close>

fun endOf :: "'b writer \<Rightarrow> 'b writer" where
  "endOf (ManagedWriter i m w) = endOf w"
| "endOf (RateWriter b w) = endOf w"
| "endOf (SizeStat c w) = endOf w"
| "endOf w = w"

text \<open>Every link of manager \<open>m\<close> was made for it, around a bare end; links of one manager differ, and no
  two users share a manager.\<close>

definition plainEnd :: "'b writer \<Rightarrow> bool" where
  "plainEnd w = (case w of PipeWriter _ \<Rightarrow> True | ExtWriter _ \<Rightarrow> True | _ \<Rightarrow> False)"

definition managedFor :: "nat \<Rightarrow> 'b writer \<Rightarrow> bool" where
  "managedFor m w = (case w of ManagedWriter i m' x \<Rightarrow> m' = m \<and> plainEnd x | _ \<Rightarrow> False)"

definition manager_ok :: "nat \<Rightarrow> 'b LinkManager \<Rightarrow> bool" where
  "manager_ok m ls \<longleftrightarrow> wf_map ls \<and> (\<forall>e\<in>set ls. managedFor m (fst e))"

definition managers_ok :: "'b DefaultDispatcher \<Rightarrow> bool" where
  "managers_ok d \<longleftrightarrow>
     (\<forall>m < length (dp_managers d). manager_ok m (dp_managers d ! m)) \<and>
     (\<forall>e\<in>set (dp_LinkManagers d). snd e < length (dp_managers d)) \<and>
     inj_on snd (set (dp_LinkManagers d))"

lemma manager_ok_Nil [simp]: "manager_ok m []"
  by (simp add: manager_ok_def wf_map_Nil)

lemma manager_ok_mstore: "manager_ok m ls \<Longrightarrow> managedFor m w \<Longrightarrow> manager_ok m (mstore w r ls)"
  by (auto simp: manager_ok_def wf_map_mstore dest!: mstore_set)

lemma closeWriter_managed:
  assumes "managedFor m w"
  shows "closeWriter w d = record_fx (Closed (endOf w)) (RemoveWriter m w d)"
  using assms by (cases w) (auto simp: managedFor_def plainEnd_def split: writer.splits)

text \<open>What closing the links of a manager does to the ends: each writer is closed, and each reader that can
  be interrupted is.\<close>

definition interrupted :: "reader \<Rightarrow> 'b effect list" where
  "interrupted r = (case r of CountingReader a x \<Rightarrow> []
     | CachingReader x \<Rightarrow> (case x of PipeReader n \<Rightarrow> [Interrupted x] | _ \<Rightarrow> [])
     | _ \<Rightarrow> [Interrupted r])"

lemma interruptReader_log: "interruptReader r d = d\<lparr>dp_log := dp_log d @ interrupted r\<rparr>"
  by (cases "(r, d)" rule: interruptReader.cases) (simp_all add: interrupted_def record_fx_def)

definition closedLinks :: "'b LinkManager \<Rightarrow> 'b effect list" where
  "closedLinks ls = concat (map (\<lambda>(w, r). Closed (endOf w) # interrupted r) ls)"

lemma CloseAll_fold:
  assumes "\<forall>e\<in>set ls. managedFor m (fst e)" "m < length (dp_managers d)"
  shows "fold (\<lambda>(w, r) d. interruptReader r (closeWriter w d)) ls d
    = d\<lparr>dp_managers := (dp_managers d)[m := fold (\<lambda>e. mdelete (fst e)) ls (dp_managers d ! m)],
        dp_log := dp_log d @ closedLinks ls\<rparr>"
  using assms
proof (induction ls arbitrary: d)
  case Nil
  then show ?case by (simp add: closedLinks_def)
next
  case (Cons e ls)
  obtain w r where e: "e = (w, r)"
    by (cases e)
  have w: "managedFor m w"
    using Cons.prems e by simp
  let ?d = "interruptReader r (record_fx (Closed (endOf w)) (RemoveWriter m w d))"
  have "m < length (dp_managers ?d)"
    using Cons.prems by (simp add: interruptReader_log record_fx_def RemoveWriter_def)
  then show ?case
    using Cons e closeWriter_managed [OF w, of d]
    by (simp add: interruptReader_log record_fx_def RemoveWriter_def closedLinks_def)
qed

lemma delete_all_keys: "fold (\<lambda>e. mdelete (fst e)) es es = ([] :: ('k, 'v) gomap)"
proof -
  have "fold (\<lambda>e. mdelete (fst e)) es m = filter (\<lambda>e. fst e \<notin> fst ` set es) m" for m :: "('k, 'v) gomap"
    by (induction es arbitrary: m) (auto simp: mdelete_filter filter_filter intro!: filter_cong)
  then show ?thesis by simp
qed

lemma userSpeed_rules:
  "l_DomainRules (snd (userSpeed now t u l)) = l_DomainRules l"
  "l_ProtocolRules (snd (userSpeed now t u l)) = l_ProtocolRules l"
  by (simp_all add: userSpeed_def)

lemma checkDevice_rules:
  "l_DomainRules (snd (checkDevice t ip uid d l)) = l_DomainRules l"
  "l_ProtocolRules (snd (checkDevice t ip uid d l)) = l_ProtocolRules l"
  by (simp_all add: checkDevice_def consumeOld_def Let_def split: option.splits)

lemma pickBucket_rules:
  "l_DomainRules (snd (pickBucket nb t x l)) = l_DomainRules l"
  "l_ProtocolRules (snd (pickBucket nb t x l)) = l_ProtocolRules l"
  by (simp_all add: pickBucket_def Let_def split: option.split)

lemma CheckLimit_rules:
  "CheckLimit nb now t ip tcp ss l = (r, l') \<Longrightarrow>
   l_DomainRules l' = l_DomainRules l \<and> l_ProtocolRules l' = l_ProtocolRules l"
proof -
  have "l_DomainRules (snd (CheckLimit nb now t ip tcp ss l)) = l_DomainRules l \<and>
      l_ProtocolRules (snd (CheckLimit nb now t ip tcp ss l)) = l_ProtocolRules l"
    by (simp add: CheckLimit_def Let_def case_prod_beta userSpeed_rules checkDevice_rules pickBucket_rules
        split: option.split)
  then show "CheckLimit nb now t ip tcp ss l = (r, l') \<Longrightarrow> ?thesis"
    by simp
qed

lemma admit_ok:
  assumes "admit nb now s email tcp reg = (Inr (l', w), reg')"
  obtains l where "GetLimiter (si_Tag s) reg = Inr l"
    "CheckLimit nb now email (si_SourceIP s) tcp (si_SourceTCP s) l = ((w, False), l')"
    "reg' = mstore (si_Tag s) l' reg"
  using assms by (auto simp: admit_def Let_def split: sum.splits prod.splits if_splits)

lemma admit_rules:
  assumes "admit nb now s email tcp reg = (Inr (l', w), reg')" "GetLimiter (si_Tag s) reg = Inr l"
  shows "l_DomainRules l' = l_DomainRules l \<and> l_ProtocolRules l' = l_ProtocolRules l"
  by (rule admit_ok [OF assms(1)]) (use assms(2) CheckLimit_rules in force)

lemma CheckDomainRule_cong: "l_DomainRules l' = l_DomainRules l \<Longrightarrow> CheckDomainRule l' x = CheckDomainRule l x"
  by (simp add: CheckDomainRule_def)

lemma CheckProtocolRule_cong: "l_ProtocolRules l' = l_ProtocolRules l \<Longrightarrow> CheckProtocolRule l' x = CheckProtocolRule l x"
  by (simp add: CheckProtocolRule_def)

lemma getLink_user:
  assumes "getLink nb now ib tcp reg d = (Inr (inb, outb, lo), reg', d')" "sessionUser ib = Some (s, email)"
  obtains l w where "admit nb now s email tcp reg = (Inr (l, w), reg')" "lo = Some l"
  using assms by (auto simp: getLink_def Let_def split: prod.splits sum.splits)

text \<open>The destination the rules are asked about, and how the session that is sent off relates to it.\<close>

definition checkedFor ::
  "SniffingRequest \<Rightarrow> Destination \<Rightarrow> SessionOutbound \<Rightarrow> Destination \<Rightarrow> bool" where
  "checkedFor rq dest ob checked \<longleftrightarrow>
     so_Target ob = checked \<and> so_RouteTarget ob = None \<or>
     sn_Enabled rq \<and> sn_RouteOnly rq \<and> so_Target ob = dest \<and> so_RouteTarget ob = Some checked"

lemma retarget_checked:
  assumes "retarget parse compile fdns checkIP rq result dest
      \<lparr>so_OriginalTarget = dest, so_Target = dest, so_RouteTarget = None, so_Tag = []\<rparr> = (dest', ob)" "sn_Enabled rq"
  shows "checkedFor rq dest ob dest'"
  using assms by (auto simp: retarget_def checkedFor_def Let_def split: sum.split_asm if_split_asm)

lemma routedDispatch_sent:
  assumes "routedDispatch R reg ib forced ob link dst (Some l) protocol d = Ret (Sent h t ob', d')"
    and "sessionUser ib = Some (s, email)"
  shows "\<not> ruleRejects l (destString dst) protocol \<and> ob' = ob\<lparr>so_Tag := rv_tag R h\<rparr>"
proof -
  from assms(2) have ib: "ib = Some s" "si_User s \<noteq> None"
    by (auto simp: sessionUser_def split: option.splits if_splits)
  then show ?thesis
    using assms(1) by (auto simp: routedDispatch_def ruleLimiter_def split: if_splits option.splits)
qed

lemma sent_passed_rules:
  assumes "sniffAndRoute parse compile fdns checkIP R reg ib forced rq cp result dest link (Some l) d = Ret (Sent h t ob, d')"
    and "sessionUser ib = Some (s, email)"
  shows "(\<exists>checked. checkedFor rq dest ob checked \<and> \<not> CheckDomainRule l (destString checked)) \<and>
    (\<forall>r. sn_Enabled rq \<longrightarrow> result = Inr r \<longrightarrow> sr_Protocol r \<noteq> [] \<longrightarrow> \<not> CheckProtocolRule l (sr_Protocol r))"
proof -
  let ?ob = "\<lparr>so_OriginalTarget = dest, so_Target = dest, so_RouteTarget = None, so_Tag = []\<rparr>"
  show ?thesis
  proof (cases "sn_Enabled rq")
    case False
    then have "routedDispatch R reg ib forced ?ob link dest (Some l) [] d = Ret (Sent h t ob, d')"
      using assms(1) by (simp add: sniffAndRoute_def)
    from routedDispatch_sent [OF this assms(2)] have "checkedFor rq dest ob dest" "\<not> CheckDomainRule l (destString dest)"
      by (simp_all add: checkedFor_def ruleRejects_def split: if_split_asm)
    then show ?thesis
      using False by blast
  next
    case True
    obtain dest' ob1 where rt: "retarget parse compile fdns checkIP rq result dest ?ob = (dest', ob1)"
      by (metis surj_pair)
    then have "routedDispatch R reg ib forced ob1 (link\<lparr>lk_Reader := CachingReader (lk_Reader link)\<rparr>) dest' (Some l)
        (case result of Inl e \<Rightarrow> cp | Inr r \<Rightarrow> sr_Protocol r) d = Ret (Sent h t ob, d')"
      using assms(1) True by (simp add: sniffAndRoute_def split: if_split_asm)
    note k = routedDispatch_sent [OF this assms(2)]
    have "checkedFor rq dest ob dest'"
      using retarget_checked [OF rt True] k by (simp add: checkedFor_def)
    moreover have "\<not> CheckDomainRule l (destString dest')"
      using k by (auto simp: ruleRejects_def split: if_split_asm)
    ultimately show ?thesis
      using k by (auto simp: ruleRejects_def split: if_split_asm)
  qed
qed

text \<open>The operations keep the link managers in order.\<close>

lemma userManager_ok:
  assumes "managers_ok d" "userManager email d = (m, d')"
  shows "managers_ok d' \<and> m < length (dp_managers d') \<and> map_of (dp_LinkManagers d') email = Some m"
proof (cases "map_of (dp_LinkManagers d) email")
  case (Some m0)
  then have "(email, m0) \<in> set (dp_LinkManagers d)"
    by (rule map_of_SomeD)
  then show ?thesis
    using assms Some by (fastforce simp: userManager_def managers_ok_def)
next
  case None
  let ?d = "d\<lparr>dp_LinkManagers := mstore email (length (dp_managers d)) (dp_LinkManagers d),
      dp_managers := dp_managers d @ [[]]\<rparr>"
  have "managers_ok ?d"
    unfolding managers_ok_def
  proof (intro conjI allI impI ballI)
    fix k
    assume "k < length (dp_managers ?d)"
    then show "manager_ok k (dp_managers ?d ! k)"
      using assms(1) by (cases "k = length (dp_managers d)") (simp_all add: managers_ok_def nth_append)
  next
    fix e
    assume "e \<in> set (dp_LinkManagers ?d)"
    then have "e = (email, length (dp_managers d)) \<or> e \<in> set (dp_LinkManagers d)"
      by (intro mstore_set) simp
    then show "snd e < length (dp_managers ?d)"
      using assms(1) by (auto simp: managers_ok_def intro: less_SucI)
  next
    have "inj_on snd (insert (email, length (dp_managers d)) (set (dp_LinkManagers d)))"
      using assms(1) by (auto simp: managers_ok_def inj_on_insert)
    then show "inj_on snd (set (dp_LinkManagers ?d))"
      by (rule inj_on_subset) (use mstore_set in fastforce)
  qed
  then show ?thesis
    using assms(2) None by (auto simp: userManager_def map_of_mstore)
qed

lemma managers_ok_update:
  assumes "managers_ok d" "m < length (dp_managers d) \<Longrightarrow> manager_ok m ls"
  shows "managers_ok (d\<lparr>dp_managers := (dp_managers d)[m := ls]\<rparr>)"
  unfolding managers_ok_def
proof (intro conjI allI impI)
  fix k
  assume "k < length (dp_managers (d\<lparr>dp_managers := (dp_managers d)[m := ls]\<rparr>))"
  then show "manager_ok k (dp_managers (d\<lparr>dp_managers := (dp_managers d)[m := ls]\<rparr>) ! k)"
    using assms by (cases "k = m") (simp_all add: managers_ok_def)
qed (use assms(1) in \<open>simp_all add: managers_ok_def\<close>)

lemma AddLink_ok:
  assumes "managers_ok d" "managedFor m w"
  shows "managers_ok (AddLink m w r d)"
  unfolding AddLink_def
  using assms by (intro managers_ok_update) (simp_all add: managers_ok_def manager_ok_mstore)

lemma managers_ok_fresh [simp]: "managers_ok (d\<lparr>dp_fresh := n\<rparr>) = managers_ok d"
  "managers_ok (d\<lparr>dp_log := g\<rparr>) = managers_ok d"
  "managers_ok (d\<lparr>dp_heap := h\<rparr>) = managers_ok d"
  "managers_ok (d\<lparr>dp_Counter := c\<rparr>) = managers_ok d"
  by (simp_all add: managers_ok_def)

lemma userCounter_ok: "managers_ok d \<Longrightarrow> userCounter tag email d = (a, d') \<Longrightarrow> managers_ok d'"
  by (cases "GetCounter email (dp_heap d, case map_of (dp_Counter d) tag of None \<Rightarrow> NewTrafficCounter | Some t \<Rightarrow> t)")
     (auto simp: userCounter_def Let_def simp del: split_paired_All)

lemma getLink_managers_ok:
  assumes "managers_ok d" "getLink nb now ib tcp reg d = (res, reg', d')"
  shows "managers_ok d'"
proof (cases "sessionUser ib")
  case None
  then show ?thesis using assms by (auto simp: getLink_def Let_def)
next
  case (Some se)
  obtain s email where se: "se = (s, email)"
    by (cases se)
  obtain m d1 where m: "userManager email (d\<lparr>dp_fresh := dp_fresh d + 3\<rparr>) = (m, d1)"
    by (metis surj_pair)
  let ?mw = "ManagedWriter (dp_fresh d + 2) m (PipeWriter (dp_fresh d))"
  obtain x d3 where c: "userCounter (si_Tag s) email (AddLink m ?mw (PipeReader (dp_fresh d)) d1) = (x, d3)"
    by (metis surj_pair)
  have "managers_ok d1"
    using userManager_ok [OF _ m] assms(1) by simp
  then have "managers_ok d3"
    by (intro userCounter_ok [OF _ c] AddLink_ok) (simp_all add: managedFor_def plainEnd_def)
  then show ?thesis
    using assms Some se m c by (auto simp: getLink_def Let_def split: prod.splits sum.splits)
qed

lemma CloseAll_eq:
  assumes "managers_ok d" "m < length (dp_managers d)"
  shows "CloseAll m d = d\<lparr>dp_managers := (dp_managers d)[m := []],
    dp_log := dp_log d @ closedLinks (dp_managers d ! m)\<rparr>"
proof -
  have "\<forall>e\<in>set (dp_managers d ! m). managedFor m (fst e)"
    using assms by (simp add: managers_ok_def manager_ok_def)
  from CloseAll_fold [OF this assms(2)] show ?thesis
    by (simp add: CloseAll_def delete_all_keys)
qed

lemma CloseAll_managers_ok:
  assumes "managers_ok d" "m < length (dp_managers d)"
  shows "managers_ok (CloseAll m d)"
  unfolding CloseAll_eq [OF assms] using assms(1) managers_ok_update [OF assms(1), of m "[]"]
  by (simp add: managers_ok_def)

section \<open>Properties\<close>

text \<open>C5: No way around the audit rules: a connection of a user of a node that the dispatcher hands to
  an outbound has passed the domain rules with the destination the outbound dials, the sniffed domain
  where sniffing has replaced it.  Only where sniffing is asked to serve routing alone, the domain that
  passed is the one the router sees, and the outbound dials the destination that came in.  No protocol
  that sniffing found is named by a protocol rule.\<close>

theorem Dispatch_respects_rules:
  assumes "Dispatch nb now parse compile fdns isValid R ib forced rq cp result dest reg d
      = Ret (Inr (lk, Sent h t ob), reg', d')"
    and "sessionUser ib = Some (s, email)" "GetLimiter (si_Tag s) reg = Inr l"
  shows "(\<exists>checked. \<not> CheckDomainRule l (destString checked) \<and>
      (so_Target ob = checked \<and> so_RouteTarget ob = None \<or>
       sn_Enabled rq \<and> sn_RouteOnly rq \<and> so_Target ob = dest \<and> so_RouteTarget ob = Some checked)) \<and>
    (\<forall>r. sn_Enabled rq \<longrightarrow> result = Inr r \<longrightarrow> sr_Protocol r \<noteq> [] \<longrightarrow> \<not> CheckProtocolRule l (sr_Protocol r))"
proof -
  obtain inb outb lo reg1 d1 where g: "getLink nb now ib (dst_Network dest = TCP) reg d = (Inr (inb, outb, lo), reg1, d1)"
    and r: "sniffAndRoute parse compile fdns True R reg1 ib forced rq cp result dest outb lo d1 = Ret (Sent h t ob, d')"
    using assms(1) by (auto simp: Dispatch_def split: prod.splits sum.splits if_splits outcome.splits)
  obtain l1 w where a: "admit nb now s email (dst_Network dest = TCP) reg = (Inr (l1, w), reg1)" and lo: "lo = Some l1"
    using getLink_user [OF g assms(2)] by blast
  have same: "l_DomainRules l1 = l_DomainRules l" "l_ProtocolRules l1 = l_ProtocolRules l"
    using admit_rules [OF a assms(3)] by simp_all
  show ?thesis
    using sent_passed_rules [OF r [unfolded lo] assms(2)]
    unfolding CheckDomainRule_cong [OF same(1)] CheckProtocolRule_cong [OF same(2)] checkedFor_def by blast
qed

text \<open>Where sniffing serves routing alone the rules are not asked about the destination that is dialled.\<close>

lemma route_only_dials_original:
  assumes "sn_RouteOnly rq" "shouldOverride compile None r rq dest" "domainProtocol r \<notin> {''fakedns'', ''fakedns+others''}"
  shows "retarget parse compile None checkIP rq (Inr r) dest ob =
    (dest\<lparr>dst_Address := parse (sr_Domain r)\<rparr>, ob\<lparr>so_RouteTarget := Some (dest\<lparr>dst_Address := parse (sr_Domain r)\<rparr>)\<rparr>)"
  using assms by (simp add: retarget_def inPool_def Let_def)

text \<open>A connection the rules refuse is closed: both ends of its link, and what it has in the link manager.\<close>

lemma refused_link_closed:
  "routedDispatch R reg ib forced ob link dest l protocol d = Ret (Refused, d') \<Longrightarrow> d' = closeLink link d"
  by (auto simp: routedDispatch_def split: option.split_asm if_split_asm)

text \<open>A refused connection leaves no open end and no trace in the counters and link managers.\<close>

lemma getLink_refused:
  assumes "getLink nb now ib tcp reg d = (Inl e, reg', d')"
  shows "\<exists>up down. dp_log d' = dp_log d @ [Closed (PipeWriter down), Closed (PipeWriter up),
      Interrupted (PipeReader up), Interrupted (PipeReader down)] \<and>
    dp_Counter d' = dp_Counter d \<and> dp_heap d' = dp_heap d \<and>
    dp_LinkManagers d' = dp_LinkManagers d \<and> dp_managers d' = dp_managers d"
  using assms by (auto simp: getLink_def Let_def split: prod.splits sum.splits option.splits)

text \<open>C15: The link of an accepted user: what the user sends is counted as his upload and what he is
  sent as his download, in the storage of his own key in the counter of his node; both directions
  wait on the bucket that CheckLimit returned, if any; and the link is filed under the user, so that
  removing him closes it.\<close>

theorem getLink_user_link:
  assumes "getLink nb now ib tcp reg d = (Inr (inb, outb, lo), reg', d')" "sessionUser ib = Some (s, email)"
    and "managers_ok d"
  shows "\<exists>l w l' a m i up down c.
    GetLimiter (si_Tag s) reg = Inr l \<and>
    CheckLimit nb now email (si_SourceIP s) tcp (si_SourceTCP s) l = ((w, False), l') \<and> lo = Some l' \<and>
    map_of (dp_Counter d') (si_Tag s) = Some c \<and> map_of c email = Some a \<and>
    map_of (dp_LinkManagers d') email = Some m \<and>
    lk_Writer inb = SizeStat (UpCell a) (rateWriter w (ManagedWriter i m (PipeWriter up))) \<and>
    lk_Writer outb = SizeStat (DownCell a) (rateWriter w (PipeWriter down)) \<and>
    lk_Reader outb = PipeReader up \<and> lk_Reader inb = PipeReader down \<and>
    m < length (dp_managers d') \<and>
    map_of (dp_managers d' ! m) (ManagedWriter i m (PipeWriter up)) = Some (PipeReader up)"
proof -
  obtain l' w where a: "admit nb now s email tcp reg = (Inr (l', w), reg')" and lo: "lo = Some l'"
    using getLink_user [OF assms(1,2)] by blast
  obtain l where l: "GetLimiter (si_Tag s) reg = Inr l"
    "CheckLimit nb now email (si_SourceIP s) tcp (si_SourceTCP s) l = ((w, False), l')"
    using admit_ok [OF a] by blast
  let ?d0 = "d\<lparr>dp_fresh := dp_fresh d + 3\<rparr>"
  obtain m d1 where m: "userManager email ?d0 = (m, d1)"
    by (metis surj_pair)
  let ?mw = "ManagedWriter (dp_fresh d + 2) m (PipeWriter (dp_fresh d))"
  let ?d2 = "AddLink m ?mw (PipeReader (dp_fresh d)) d1"
  obtain x d3 where c: "userCounter (si_Tag s) email ?d2 = (x, d3)"
    by (metis surj_pair)
  have res: "inb = \<lparr>lk_Reader = PipeReader (dp_fresh d + 1), lk_Writer = SizeStat (UpCell x) (rateWriter w ?mw)\<rparr>"
    "outb = \<lparr>lk_Reader = PipeReader (dp_fresh d),
       lk_Writer = SizeStat (DownCell x) (rateWriter w (PipeWriter (dp_fresh d + 1)))\<rparr>" "d' = d3"
    using assms(1,2) a m c by (auto simp: getLink_def Let_def)
  have mgr: "map_of (dp_LinkManagers d1) email = Some m"
    using m by (auto simp: userManager_def map_of_mstore split: option.splits)
  have d3: "dp_LinkManagers d3 = dp_LinkManagers d1" "dp_managers d3 = dp_managers ?d2"
    using c by (auto simp: userCounter_def AddLink_def Let_def split: prod.splits)
  have cnt: "\<exists>c. map_of (dp_Counter d3) (si_Tag s) = Some c \<and> map_of c email = Some x"
    using c by (auto simp: userCounter_def Let_def map_of_mstore GetCounter_def split: prod.splits option.splits)
  have len: "m < length (dp_managers d1)"
    using userManager_ok [OF _ m] assms(3) by simp
  have link: "map_of (dp_managers d3 ! m) ?mw = Some (PipeReader (dp_fresh d))"
    unfolding d3 using len by (simp add: AddLink_def map_of_mstore)
  have len3: "m < length (dp_managers d3)"
    unfolding d3 using len by (simp add: AddLink_def)
  from cnt obtain c where c: "map_of (dp_Counter d3) (si_Tag s) = Some c" "map_of c email = Some x"
    by blast
  have ends: "lk_Writer inb = SizeStat (UpCell x) (rateWriter w ?mw)"
    "lk_Writer outb = SizeStat (DownCell x) (rateWriter w (PipeWriter (dp_fresh d + 1)))"
    "lk_Reader outb = PipeReader (dp_fresh d)" "lk_Reader inb = PipeReader (dp_fresh d + 1)"
    unfolding res(1,2) by simp_all
  show ?thesis
    unfolding res(3)
    by (intro exI conjI) (fact l lo c mgr [folded d3(1)] ends link len3)+
qed

text \<open>Closing a user's links: CloseAll closes the writing end of every link filed with the manager and
  interrupts its reading end where that can be interrupted, leaves the manager empty, and touches no
  other manager.\<close>

theorem CloseAll_closes_links:
  assumes "managers_ok d" "m < length (dp_managers d)"
  shows "dp_managers (CloseAll m d) = (dp_managers d)[m := []] \<and>
    dp_log (CloseAll m d) = dp_log d @ closedLinks (dp_managers d ! m)"
  by (simp add: CloseAll_eq [OF assms])

text \<open>A route or a forced tag that names no outbound closes the link; the default outbound is only for
  connections no route was picked for.\<close>

lemma missing_outbound_refused:
  "forced = [] \<Longrightarrow> rv_route R = Some pick \<Longrightarrow> pick ob = Inr outTag \<Longrightarrow> rv_handler R outTag = None \<Longrightarrow>
   routedDispatch R reg (Some s) forced ob link dest l protocol d = Ret (Refused, closeLink link d)"
  by (simp add: routedDispatch_def pickHandler_def Let_def)

lemma same_tag_outbound:
  "forced = [] \<Longrightarrow> rv_route R = None \<Longrightarrow> CanUseSameTagOutbound tag d \<Longrightarrow> rv_handler R tag = Some h \<Longrightarrow>
   pickHandler R d forced tag ob = Some (h, 0)"
  by (simp add: pickHandler_def Let_def)

section \<open>Witnesses\<close>

definition wit_bucket :: "int \<Rightarrow> int \<Rightarrow> int \<Rightarrow> int" where
  "wit_bucket interval capacity quantum = capacity"

definition wit_registry :: "int registry" where
  "wit_registry = snd (AddLimiter ''n'' 8
     [\<lparr>ui_Id = 7, ui_Uuid = ''u'', ui_SpeedLimit = 0, ui_DeviceLimit = 0\<rparr>] [] Init)"

definition wit_limit :: "int Limiter" where
  "wit_limit = (case GetLimiter ''n'' wit_registry of Inr l \<Rightarrow> l | Inl e \<Rightarrow> undefined)"

definition wit_session :: SessionInbound where
  "wit_session = \<lparr>si_Tag = ''n'', si_User = Some ''n|u'', si_SourceIP = ''1.2.3.4'', si_SourceTCP = True\<rparr>"

definition wit_routing :: "string routing" where
  "wit_routing = \<lparr>rv_handler = (\<lambda>t. if t = ''n'' then Some ''n'' else None), rv_default = Some ''direct'',
     rv_tag = (\<lambda>h. h), rv_route = None\<rparr>"

definition wit_dest :: Destination where
  "wit_dest = \<lparr>dst_Network = TCP, dst_Address = Domain ''a.b'', dst_Port = 443\<rparr>"

definition wit_request :: SniffingRequest where
  "wit_request = \<lparr>sn_Enabled = True, sn_MetadataOnly = False, sn_RouteOnly = False,
     sn_ExcludeForDomain = [], sn_OverrideDestinationForProtocol = [''tls'']\<rparr>"

lemma wit_user: "sessionUser (Some wit_session) = Some (wit_session, ''n|u'')"
  by (simp add: sessionUser_def wit_session_def)

lemma wit_found: "GetLimiter (si_Tag wit_session) wit_registry = Inr wit_limit"
  by (simp add: wit_limit_def wit_session_def wit_registry_def AddLimiter_def GetLimiter_def Let_def Init_def
      map_of_mstore)

definition wit_dispatch ::
  "((int Link \<times> string routed) res \<times> int registry \<times> int DefaultDispatcher) outcome" where
  "wit_dispatch = Dispatch wit_bucket 0 Domain (\<lambda>p. None) None (\<lambda>x. True) wit_routing (Some wit_session) [] wit_request []
     (Inr (plainResult ''tls'' ''c.d'')) wit_dest wit_registry newDispatcher"

lemma wit_sent:
  "\<exists>lk h t ob reg' d'. wit_dispatch = Ret (Inr (lk, Sent h t ob), reg', d') \<and>
     dst_Address (so_Target ob) = Domain ''c.d'' \<and> so_RouteTarget ob = None"
proof -
  have ok: "(case wit_dispatch of Panic \<Rightarrow> False
      | Ret (x, reg', d') \<Rightarrow> (case x of Inl e \<Rightarrow> False
        | Inr (lk, r) \<Rightarrow> (case r of Refused \<Rightarrow> False
          | Sent h t ob \<Rightarrow> dst_Address (so_Target ob) = Domain ''c.d'' \<and> so_RouteTarget ob = None)))"
    by code_simp
  show ?thesis
  proof (cases wit_dispatch)
    case Panic
    then show ?thesis using ok unfolding Panic by simp
  next
    case (Ret y)
    obtain x reg' d' where y: "y = (x, reg', d')"
      by (cases y)
    obtain b where "x = Inr b"
      using ok unfolding Ret y by (cases x) simp_all
    moreover obtain lk r where "b = (lk, r)"
      by (cases b)
    ultimately have x: "x = Inr (lk, r)"
      by simp
    obtain h t ob where r: "r = Sent h t ob"
      using ok unfolding Ret y x by (cases r) simp_all
    have "dst_Address (so_Target ob) = Domain ''c.d'' \<and> so_RouteTarget ob = None"
      using ok unfolding Ret y x r by simp
    then show ?thesis
      using Ret unfolding y x r by blast
  qed
qed

theorem Dispatch_respects_rules_witness: "\<not> CheckDomainRule wit_limit ''c.d''"
proof -
  obtain lk h t ob reg' d' where w: "Dispatch wit_bucket 0 Domain (\<lambda>p. None) None (\<lambda>x. True) wit_routing (Some wit_session) []
      wit_request [] (Inr (plainResult ''tls'' ''c.d'')) wit_dest wit_registry newDispatcher
      = Ret (Inr (lk, Sent h t ob), reg', d')"
    and ob: "dst_Address (so_Target ob) = Domain ''c.d''" "so_RouteTarget ob = None"
    using wit_sent unfolding wit_dispatch_def by blast
  have "destString (so_Target ob) = ''c.d''"
    using ob(1) by (simp add: destString_def)
  then show ?thesis
    using Dispatch_respects_rules [OF w wit_user wit_found] ob(2) by auto
qed

lemma wit_ok: "managers_ok newDispatcher"
  by (simp add: managers_ok_def newDispatcher_def)

lemma wit_link:
  "\<exists>inb outb lo reg' d'. getLink wit_bucket 0 (Some wit_session) True wit_registry newDispatcher
     = (Inr (inb, outb, lo), reg', d')"
proof -
  have "(case getLink wit_bucket 0 (Some wit_session) True wit_registry newDispatcher of
      (Inr (inb, outb, lo), reg', d') \<Rightarrow> True | _ \<Rightarrow> False)"
    by code_simp
  then show ?thesis
    by (auto split: prod.splits sum.splits)
qed

theorem getLink_user_link_witness:
  "\<exists>inb outb lo reg' d' a m. getLink wit_bucket 0 (Some wit_session) True wit_registry newDispatcher
     = (Inr (inb, outb, lo), reg', d') \<and> map_of (dp_LinkManagers d') ''n|u'' = Some m \<and>
     m < length (dp_managers d') \<and> (\<exists>w. lk_Writer outb = SizeStat (DownCell a) w)"
proof -
  obtain inb outb lo reg' d' where g: "getLink wit_bucket 0 (Some wit_session) True wit_registry newDispatcher
     = (Inr (inb, outb, lo), reg', d')"
    using wit_link by blast
  show ?thesis
    using getLink_user_link [OF g wit_user wit_ok] g by blast
qed

definition wit_dispatcher :: "int DefaultDispatcher" where
  "wit_dispatcher = newDispatcher\<lparr>dp_LinkManagers := [(''n|u'', 0)],
     dp_managers := [[(ManagedWriter 2 0 (PipeWriter 0), PipeReader 0)]]\<rparr>"

theorem CloseAll_closes_links_witness:
  "dp_log (CloseAll 0 wit_dispatcher) = [Closed (PipeWriter 0), Interrupted (PipeReader 0)]"
proof -
  have "managers_ok wit_dispatcher" "0 < length (dp_managers wit_dispatcher)"
    by (simp_all add: managers_ok_def manager_ok_def wit_dispatcher_def newDispatcher_def managedFor_def
        plainEnd_def wf_map_def)
  from CloseAll_closes_links [OF this] show ?thesis
    by (simp add: wit_dispatcher_def newDispatcher_def closedLinks_def interrupted_def)
qed

end
