(* ===== verification/Xray.thy ===== *)
theory Xray
  imports User_Sync Xray_Build Dispatcher
begin

text \<open>
  The xray core: core/xray/user.go, node.go, dns.go and the life cycle of xray.go.

  The instance of xray-core with its managers is the state \<open>'x\<close>, its operations are the fields of
  \<open>xray_env\<close>; \<open>'h\<close> is a handler configuration, \<open>'o\<close> an object made from one, \<open>'m\<close> a memory user.  The
  dispatcher is None before Start and after Close (a nil pointer, whose use panics).
\<close>

section \<open>State\<close>

text \<open>What the lookup of an inbound handler finds, as far as the type assertions ask.\<close>

datatype handlerKind = NoInbound | NoUserManager | HasUserManager

record ('x, 'a, 'h, 'o, 'm) xray_env =
  xe_inbound :: "('a, 'h) inbound_env"
  xe_buildOut :: "OutboundDetourConfig \<Rightarrow> 'h res"
  xe_create :: "'h \<Rightarrow> 'x \<Rightarrow> 'o res"
  xe_isIn :: "'o \<Rightarrow> bool"
  xe_isOut :: "'o \<Rightarrow> bool"
  xe_addIn :: "'o \<Rightarrow> 'x \<Rightarrow> err \<times> 'x"
  xe_addOut :: "'o \<Rightarrow> 'x \<Rightarrow> err \<times> 'x"
  xe_removeIn :: "string \<Rightarrow> 'x \<Rightarrow> err \<times> 'x"
  xe_removeOut :: "string \<Rightarrow> 'x \<Rightarrow> err \<times> 'x"
  xe_handler :: "string \<Rightarrow> 'x \<Rightarrow> handlerKind res"
  xe_toMemory :: "xrayUser \<Rightarrow> 'm res"
  xe_addUser :: "string \<Rightarrow> 'm \<Rightarrow> 'x \<Rightarrow> err \<times> 'x"
  xe_removeUser :: "string \<Rightarrow> string \<Rightarrow> 'x \<Rightarrow> err \<times> 'x"
  xe_start :: "'x \<Rightarrow> err \<times> 'x"
  xe_close :: "'x \<Rightarrow> err \<times> 'x"

record ('x, 'b) Xray =
  xy_server :: 'x
  xy_dispatcher :: "'b DefaultDispatcher option"
  xy_uidMap :: "(string, int) gomap"
  xy_nodeReportMinTrafficBytes :: "(string, int) gomap"
  xy_dnsFile :: "string res"

definition newXray :: "'x \<Rightarrow> string res \<Rightarrow> ('x, 'b) Xray" where
  "newXray server dnsFile = \<lparr>xy_server = server, xy_dispatcher = None, xy_uidMap = [],
     xy_nodeReportMinTrafficBytes = [], xy_dnsFile = dnsFile\<rparr>"

text \<open>Start takes the managers and the dispatcher from the started instance; Close drops them.\<close>

definition Xray_Start ::
  "('x, 'a, 'h, 'o, 'm) xray_env \<Rightarrow> 'b DefaultDispatcher \<Rightarrow> ('x, 'b) Xray \<Rightarrow> err \<times> ('x, 'b) Xray" where
  "Xray_Start E d c =
     (case xe_start E (xy_server c) of
        (Some e, x) \<Rightarrow> (Some e, c\<lparr>xy_server := x\<rparr>)
      | (None, x) \<Rightarrow> (None, c\<lparr>xy_server := x, xy_dispatcher := Some d\<rparr>))"

definition Xray_Close ::
  "('x, 'a, 'h, 'o, 'm) xray_env \<Rightarrow> ('x, 'b) Xray \<Rightarrow> err \<times> ('x, 'b) Xray" where
  "Xray_Close E c =
     (case xe_close E (xy_server c) of (e, x) \<Rightarrow> (e, c\<lparr>xy_server := x, xy_dispatcher := None\<rparr>))"

definition Xray_Protocols :: "string list" where
  "Xray_Protocols = [''vmess'', ''vless'', ''shadowsocks'', ''trojan'']"

section \<open>DNS\<close>

text \<open>A server of the DNS configuration: a plain string, or an entry of the panel with the port split
  off its address.  \<open>de_split\<close> is net.SplitHostPort, \<open>de_marshal\<close> and \<open>de_indent\<close> the JSON printers,
  \<open>de_unmarshal\<close> and \<open>de_build\<close> the check of xray-core, the last two the results of truncating and of
  writing the file.\<close>

datatype dnsServer = PlainServer string | DnsServer string "string list" "int option"

record dns_env =
  de_split :: "string \<Rightarrow> (string \<times> string) res"
  de_marshal :: "dnsServer list \<Rightarrow> string res"
  de_indent :: "string \<Rightarrow> string res"
  de_unmarshal :: "string \<Rightarrow> err"
  de_build :: "string \<Rightarrow> err"
  de_truncate :: err
  de_write :: err

text \<open>strconv.ParseUint in base 10 with 16 bits; an error leaves the port 0.\<close>

definition parsePort :: "string \<Rightarrow> int" where
  "parsePort s =
     (if s \<noteq> [] \<and> list_all is_digit s \<and> digits_value s \<le> 65535 then digits_value s else 0)"

definition dnsServerOf :: "dns_env \<Rightarrow> dnsEntry \<Rightarrow> dnsServer res" where
  "dnsServerOf D v =
     (let address = de_address v in
      if contains address '':'' \<and> \<not> contains address ''/'' then
        (case de_split D address of
           Inl e \<Rightarrow> Inl e
         | Inr (host, port) \<Rightarrow> Inr (DnsServer host (de_domains v) (Some (parsePort port))))
      else Inr (DnsServer address (de_domains v) None))"

fun dnsServers :: "dns_env \<Rightarrow> (string \<times> dnsEntry) list \<Rightarrow> dnsServer list res" where
  "dnsServers D [] = Inr []"
| "dnsServers D ((k, v) # m) =
     (case dnsServerOf D v of
        Inl e \<Rightarrow> Inl e
      | Inr s \<Rightarrow> (case dnsServers D m of Inl e \<Rightarrow> Inl e | Inr ss \<Rightarrow> Inr (s # ss)))"

text \<open>saveDnsConfig: the error it returns and the file.  The errors of truncating and writing go to a
  variable of the inner block and are lost; an error of unmarshalling is returned, but the file is
  written.\<close>

definition saveDnsConfig :: "dns_env \<Rightarrow> string \<Rightarrow> string res \<Rightarrow> err \<times> string res" where
  "saveDnsConfig D dns file =
     (case file of
        Inl e \<Rightarrow> (Some e, file)
      | Inr currentData \<Rightarrow>
          if currentData = dns then (None, file)
          else (case de_build D dns of
              Some e \<Rightarrow> (Some e, file)
            | None \<Rightarrow> (de_unmarshal D dns,
                if de_write D = None then Inr dns
                else if de_truncate D = None then Inr [] else file)))"

text \<open>The error of saving is returned for a DNS document of the panel; for a table of servers it goes to
  a variable of the branch and is lost.\<close>

definition updateDNSConfig :: "dns_env \<Rightarrow> NodeInfo \<Rightarrow> string res \<Rightarrow> err \<times> string res" where
  "updateDNSConfig D n file =
     (let raw = ni_RawDNS n in
      if dn_DNSJson raw \<noteq> [] then
        (case de_indent D (dn_DNSJson raw) of
           Inl e \<Rightarrow> (Some e, file)
         | Inr s \<Rightarrow> saveDnsConfig D s file)
      else if dn_DNSMap raw \<noteq> [] then
        (case dnsServers D (dn_DNSMap raw) of
           Inl e \<Rightarrow> (Some e, file)
         | Inr ss \<Rightarrow> (case de_marshal D ([PlainServer ''1.1.1.1'', PlainServer ''localhost''] @ ss) of
             Inl e \<Rightarrow> (Some e, file)
           | Inr s \<Rightarrow> (None, snd (saveDnsConfig D s file))))
      else (None, file))"

section \<open>Nodes\<close>

definition addInbound ::
  "('x, 'a, 'h, 'o, 'm) xray_env \<Rightarrow> 'h \<Rightarrow> ('x, 'b) Xray \<Rightarrow> (err \<times> ('x, 'b) Xray) outcome" where
  "addInbound E config c =
     (case xe_create E config (xy_server c) of
        Inl e \<Rightarrow> Ret (Some e, c)
      | Inr obj \<Rightarrow>
          if \<not> xe_isIn E obj then Ret (Some ''not an InboundHandler: %!s(<nil>)'', c)
          else if xy_dispatcher c = None then Panic
          else (case xe_addIn E obj (xy_server c) of (e, x) \<Rightarrow> Ret (e, c\<lparr>xy_server := x\<rparr>)))"

definition addOutbound ::
  "('x, 'a, 'h, 'o, 'm) xray_env \<Rightarrow> 'h \<Rightarrow> ('x, 'b) Xray \<Rightarrow> (err \<times> ('x, 'b) Xray) outcome" where
  "addOutbound E config c =
     (case xe_create E config (xy_server c) of
        Inl e \<Rightarrow> Ret (Some e, c)
      | Inr obj \<Rightarrow>
          if \<not> xe_isOut E obj then Ret (Some ''not an InboundHandler: %!s(<nil>)'', c)
          else if xy_dispatcher c = None then Panic
          else (case xe_addOut E obj (xy_server c) of (e, x) \<Rightarrow> Ret (e, c\<lparr>xy_server := x\<rparr>)))"

definition removeInbound ::
  "('x, 'a, 'h, 'o, 'm) xray_env \<Rightarrow> string \<Rightarrow> ('x, 'b) Xray \<Rightarrow> (err \<times> ('x, 'b) Xray) outcome" where
  "removeInbound E tag c =
     (if xy_dispatcher c = None then Panic
      else case xe_removeIn E tag (xy_server c) of (e, x) \<Rightarrow> Ret (e, c\<lparr>xy_server := x\<rparr>))"

definition removeOutbound ::
  "('x, 'a, 'h, 'o, 'm) xray_env \<Rightarrow> string \<Rightarrow> ('x, 'b) Xray \<Rightarrow> (err \<times> ('x, 'b) Xray) outcome" where
  "removeOutbound E tag c =
     (if xy_dispatcher c = None then Panic
      else case xe_removeOut E tag (xy_server c) of (e, x) \<Rightarrow> Ret (e, c\<lparr>xy_server := x\<rparr>))"

definition setSameTag :: "string \<Rightarrow> bool \<Rightarrow> ('x, 'b) Xray \<Rightarrow> ('x, 'b) Xray" where
  "setSameTag tag enabled c = c\<lparr>xy_dispatcher := map_option (SetSameTagOutbound tag enabled) (xy_dispatcher c)\<rparr>"

definition Xray_AddNode ::
  "('x, 'a, 'h, 'o, 'm) xray_env \<Rightarrow> dns_env \<Rightarrow> string \<Rightarrow> NodeInfo \<Rightarrow> Options \<Rightarrow> ('x, 'b) Xray \<Rightarrow>
   (err \<times> ('x, 'b) Xray) outcome" where
  "Xray_AddNode E D tag info config c =
     (let c = c\<lparr>xy_nodeReportMinTrafficBytes :=
              mstore tag (wrap64 (op_ReportMinTraffic config * 1024)) (xy_nodeReportMinTrafficBytes c)\<rparr>;
          c = (case op_XrayOptions config of
                 None \<Rightarrow> c | Some xo \<Rightarrow> setSameTag tag (xo_EnableSameTagOutbound xo) c);
          (e, file) = updateDNSConfig D info (xy_dnsFile c);
          c = c\<lparr>xy_dnsFile := file\<rparr> in
      case e of Some x \<Rightarrow> Ret (Some (''build dns error: '' @ x), c) | None \<Rightarrow>
      (case buildInbound (xe_inbound E) config info tag of
         Panic \<Rightarrow> Panic
       | Ret (Inl x) \<Rightarrow> Ret (Some (''build inbound error: '' @ x), c)
       | Ret (Inr inb) \<Rightarrow>
           (case addInbound E inb c of
              Panic \<Rightarrow> Panic
            | Ret (Some x, c) \<Rightarrow> Ret (Some (''add inbound error: '' @ x), c)
            | Ret (None, c) \<Rightarrow>
                (case buildOutbound (xe_buildOut E) config tag of
                   Panic \<Rightarrow> Panic
                 | Ret (Inl x) \<Rightarrow> Ret (Some (''build outbound error: '' @ x), c)
                 | Ret (Inr outb) \<Rightarrow>
                     (case addOutbound E outb c of
                        Panic \<Rightarrow> Panic
                      | Ret (Some x, c) \<Rightarrow> Ret (Some (''add outbound error: '' @ x), c)
                      | Ret (None, c) \<Rightarrow> Ret (None, c))))))"

definition Xray_DelNode ::
  "('x, 'a, 'h, 'o, 'm) xray_env \<Rightarrow> string \<Rightarrow> ('x, 'b) Xray \<Rightarrow> (err \<times> ('x, 'b) Xray) outcome" where
  "Xray_DelNode E tag c =
     (case removeInbound E tag (setSameTag tag False c) of
        Panic \<Rightarrow> Panic
      | Ret (Some x, c) \<Rightarrow> Ret (Some (''remove in error: '' @ x), c)
      | Ret (None, c) \<Rightarrow> (case removeOutbound E tag c of
          Panic \<Rightarrow> Panic
        | Ret (Some x, c) \<Rightarrow> Ret (Some (''remove out error: '' @ x), c)
        | Ret (None, c) \<Rightarrow> Ret (None, c)))"

section \<open>Users\<close>

definition GetUserManager ::
  "('x, 'a, 'h, 'o, 'm) xray_env \<Rightarrow> string \<Rightarrow> ('x, 'b) Xray \<Rightarrow> err outcome" where
  "GetUserManager E tag c =
     (if xy_dispatcher c = None then Panic
      else case xe_handler E tag (xy_server c) of
          Inl e \<Rightarrow> Ret (Some (''no such inbound tag: '' @ e))
        | Inr NoInbound \<Rightarrow> Ret (Some (''handler '' @ tag @ '' is not implement proxy.GetInbound''))
        | Inr NoUserManager \<Rightarrow> Ret (Some (''handler '' @ tag @ '' is not implement proxy.UserManager''))
        | Inr HasUserManager \<Rightarrow> Ret None)"

text \<open>The accounts for the node's protocol; a missing protocol record is a nil pointer.\<close>

definition buildUsers :: "string \<Rightarrow> UserInfo list \<Rightarrow> NodeInfo \<Rightarrow> xrayUser list res outcome" where
  "buildUsers tag us info =
     (let t = ni_Type info in
      if t = ''vmess'' then Ret (Inr (buildVmessUsers tag us))
      else if t = ''vless'' then
        (case ni_VAllss info of None \<Rightarrow> Panic | Some v \<Rightarrow> Ret (Inr (buildVlessUsers tag us (va_Flow v))))
      else if t = ''trojan'' then Ret (Inr (buildTrojanUsers tag us))
      else if t = ''shadowsocks'' then
        (case ni_Shadowsocks info of None \<Rightarrow> Panic
         | Some s \<Rightarrow> (case buildSSUsers tag us (sh_Cipher s) (sh_ServerKey s) of
             Panic \<Rightarrow> Panic | Ret xs \<Rightarrow> Ret (Inr xs)))
      else Ret (Inl (''unsupported node type: '' @ t)))"

fun addMemoryUsers ::
  "('x, 'a, 'h, 'o, 'm) xray_env \<Rightarrow> string \<Rightarrow> xrayUser list \<Rightarrow> 'x \<Rightarrow> err \<times> 'x" where
  "addMemoryUsers E tag [] x = (None, x)"
| "addMemoryUsers E tag (u # us) x =
     (case xe_toMemory E u of
        Inl e \<Rightarrow> (Some e, x)
      | Inr m \<Rightarrow> (case xe_addUser E tag m x of
          (Some e, x) \<Rightarrow> (Some e, x)
        | (None, x) \<Rightarrow> addMemoryUsers E tag us x))"

definition Xray_AddUsers ::
  "('x, 'a, 'h, 'o, 'm) xray_env \<Rightarrow> string \<Rightarrow> UserInfo list \<Rightarrow> NodeInfo \<Rightarrow> ('x, 'b) Xray \<Rightarrow>
   ((int \<times> err) \<times> ('x, 'b) Xray) outcome" where
  "Xray_AddUsers E tag us info c =
     (let c = c\<lparr>xy_uidMap := fold (\<lambda>u. mstore (UserTag tag (ui_Uuid u)) (ui_Id u)) us (xy_uidMap c)\<rparr> in
      case buildUsers tag us info of
        Panic \<Rightarrow> Panic
      | Ret (Inl e) \<Rightarrow> Ret ((0, Some e), c)
      | Ret (Inr users) \<Rightarrow>
          (case GetUserManager E tag c of
             Panic \<Rightarrow> Panic
           | Ret (Some e) \<Rightarrow> Ret ((0, Some (''get user manager error: '' @ e)), c)
           | Ret None \<Rightarrow> (case addMemoryUsers E tag users (xy_server c) of
               (Some e, x) \<Rightarrow> Ret ((0, Some e), c\<lparr>xy_server := x\<rparr>)
             | (None, x) \<Rightarrow> Ret ((int (length users), None), c\<lparr>xy_server := x\<rparr>))))"

text \<open>Forgetting one user: his id, his traffic on the node, his links.\<close>

definition dropUser :: "string \<Rightarrow> string \<Rightarrow> 'b DefaultDispatcher \<Rightarrow> 'b DefaultDispatcher" where
  "dropUser tag user d =
     (let d = (case map_of (dp_Counter d) tag of None \<Rightarrow> d
               | Some t \<Rightarrow> d\<lparr>dp_Counter := mstore tag (Delete user t) (dp_Counter d)\<rparr>) in
      case map_of (dp_LinkManagers d) user of
        None \<Rightarrow> d
      | Some m \<Rightarrow> (let d = CloseAll m d in d\<lparr>dp_LinkManagers := mdelete user (dp_LinkManagers d)\<rparr>))"

text \<open>The loop stops at the first user the manager cannot remove.\<close>

fun delUsersLoop ::
  "('x, 'a, 'h, 'o, 'm) xray_env \<Rightarrow> string \<Rightarrow> UserInfo list \<Rightarrow> ('x, 'b) Xray \<Rightarrow> err \<times> ('x, 'b) Xray" where
  "delUsersLoop E tag [] c = (None, c)"
| "delUsersLoop E tag (u # us) c =
     (let user = UserTag tag (ui_Uuid u) in
      case xe_removeUser E tag user (xy_server c) of
        (Some e, x) \<Rightarrow> (Some e, c\<lparr>xy_server := x\<rparr>)
      | (None, x) \<Rightarrow> delUsersLoop E tag us (c\<lparr>xy_server := x, xy_uidMap := mdelete user (xy_uidMap c),
          xy_dispatcher := map_option (dropUser tag user) (xy_dispatcher c)\<rparr>))"

definition Xray_DelUsers ::
  "('x, 'a, 'h, 'o, 'm) xray_env \<Rightarrow> UserInfo list \<Rightarrow> string \<Rightarrow> NodeInfo \<Rightarrow> ('x, 'b) Xray \<Rightarrow>
   (err \<times> ('x, 'b) Xray) outcome" where
  "Xray_DelUsers E us tag info c =
     (case GetUserManager E tag c of
        Panic \<Rightarrow> Panic
      | Ret (Some e) \<Rightarrow> Ret (Some (''get user manager error: '' @ e), c)
      | Ret None \<Rightarrow> Ret (delUsersLoop E tag us c))"

definition Xray_GetUserTrafficSlice ::
  "string \<Rightarrow> bool \<Rightarrow> ('x, 'b) Xray \<Rightarrow> (UserTraffic list \<times> ('x, 'b) Xray) outcome" where
  "Xray_GetUserTrafficSlice tag reset c =
     (case xy_dispatcher c of
        None \<Rightarrow> Panic
      | Some d \<Rightarrow> (case map_of (dp_Counter d) tag of
          None \<Rightarrow> Ret ([], c)
        | Some t \<Rightarrow>
            (case collectTraffic (mget0 (xy_nodeReportMinTrafficBytes c) tag) (xy_uidMap c) reset (dp_heap d, t) of
               (ts, h, t) \<Rightarrow> Ret (ts, c\<lparr>xy_dispatcher :=
                 Some (d\<lparr>dp_heap := h, dp_Counter := mstore tag t (dp_Counter d)\<rparr>)\<rparr>))))"

section \<open>The contract of the user operations\<close>

definition Xray_uid :: "('x, 'b) Xray \<Rightarrow> string \<Rightarrow> string \<Rightarrow> int" where
  "Xray_uid c tag x = mget0 (xy_uidMap c) (UserTag tag x)"

lemma inj_UserTag' [simp]: "inj (UserTag tag)"
  by (simp add: inj_def)

lemma buildSSUsers_length: "buildSSUsers tag us cypher key = Ret xs \<Longrightarrow> length xs = length us"
  by (induction us arbitrary: xs) (auto split: outcome.splits)

lemma buildUsers_length: "buildUsers tag us info = Ret (Inr xs) \<Longrightarrow> length xs = length us"
  by (auto simp: buildUsers_def Let_def buildVmessUsers_def buildVlessUsers_def buildTrojanUsers_def
      dest: buildSSUsers_length split: if_split_asm option.splits outcome.splits)

lemma Xray_AddUsers_ok:
  assumes "Xray_AddUsers E tag us info c = Ret ((k, None), c')"
  shows "xy_uidMap c' = fold (\<lambda>u. mstore (UserTag tag (ui_Uuid u)) (ui_Id u)) us (xy_uidMap c) \<and>
    k = int (length us) \<and> xy_dispatcher c' = xy_dispatcher c"
  using assms buildUsers_length
  by (auto simp: Xray_AddUsers_def Let_def split: outcome.splits sum.splits option.splits prod.splits)

lemma delUsersLoop_uidMap:
  "delUsersLoop E tag us c = (None, c') \<Longrightarrow>
   xy_uidMap c' = fold (\<lambda>u. mdelete (UserTag tag (ui_Uuid u))) us (xy_uidMap c) \<and>
   xy_dispatcher c' = map_option (fold (\<lambda>u. dropUser tag (UserTag tag (ui_Uuid u))) us) (xy_dispatcher c)"
  by (induction E tag us c rule: delUsersLoop.induct)
     (auto simp: Let_def option.map_comp comp_def option.map_id split: prod.splits option.splits)

lemma Xray_DelUsers_ok:
  assumes "Xray_DelUsers E us tag info c = Ret (None, c')"
  shows "xy_uidMap c' = fold (\<lambda>u. mdelete (UserTag tag (ui_Uuid u))) us (xy_uidMap c) \<and>
    xy_dispatcher c' = map_option (fold (\<lambda>u. dropUser tag (UserTag tag (ui_Uuid u))) us) (xy_dispatcher c)"
proof -
  have "delUsersLoop E tag us c = (None, c')"
    using assms by (auto simp: Xray_DelUsers_def split: outcome.splits option.splits)
  then show ?thesis by (rule delUsersLoop_uidMap)
qed

interpretation xr: core_users Xray_uid "Xray_AddUsers E" "Xray_DelUsers E"
  for E :: "('x, 'a, 'h, 'o, 'm) xray_env"
proof
  show "Xray_uid c' tag x = (if x \<in> uuids us then idsOf us x else Xray_uid c tag x)"
    if "Xray_AddUsers E tag us n c = Ret ((k, None), c')"
    for tag us n k x and c c' :: "('x, 'b) Xray"
    using Xray_AddUsers_ok [OF that] idsOf_put [OF inj_UserTag', of tag us "xy_uidMap c" x]
    by (simp add: Xray_uid_def)
  show "k = int (length us)" if "Xray_AddUsers E tag us n c = Ret ((k, None), c')"
    for tag us n k and c c' :: "('x, 'b) Xray"
    using Xray_AddUsers_ok [OF that] by simp
  show "Xray_uid c' tag x = (if x \<in> uuids us then 0 else Xray_uid c tag x)"
    if "Xray_DelUsers E us tag n c = Ret (None, c')"
    for tag us n x and c c' :: "('x, 'b) Xray"
    using Xray_DelUsers_ok [OF that] idsOf_delete [OF inj_UserTag', of tag us "xy_uidMap c" x]
    by (simp add: Xray_uid_def)
qed

text \<open>The operations keep the link managers in order.\<close>

lemma dropUser_ok:
  assumes "managers_ok d"
  shows "managers_ok (dropUser tag user d)"
proof -
  define d1 where "d1 = (case map_of (dp_Counter d) tag of None \<Rightarrow> d
      | Some t \<Rightarrow> d\<lparr>dp_Counter := mstore tag (Delete user t) (dp_Counter d)\<rparr>)"
  have d1: "managers_ok d1"
    using assms by (simp add: d1_def split: option.splits)
  show ?thesis
  proof (cases "map_of (dp_LinkManagers d1) user")
    case None
    then show ?thesis using d1 by (simp add: dropUser_def d1_def [symmetric])
  next
    case (Some m)
    then have "m < length (dp_managers d1)"
      using d1 map_of_SomeD [OF Some] by (auto simp: managers_ok_def)
    with d1 have "managers_ok (CloseAll m d1)"
      by (rule CloseAll_managers_ok)
    moreover have "set (mdelete user (dp_LinkManagers (CloseAll m d1))) \<subseteq> set (dp_LinkManagers (CloseAll m d1))"
      using mdelete_set by fastforce
    ultimately have "managers_ok ((CloseAll m d1)\<lparr>dp_LinkManagers := mdelete user (dp_LinkManagers (CloseAll m d1))\<rparr>)"
      unfolding managers_ok_def by (auto intro: inj_on_subset)
    then show ?thesis
      using Some by (simp add: dropUser_def d1_def [symmetric] Let_def)
  qed
qed

lemma dropUsers_ok: "managers_ok d \<Longrightarrow> managers_ok (fold (\<lambda>u. dropUser tag (f u)) us d)"
  by (induction us arbitrary: d) (simp_all add: dropUser_ok)

text \<open>What dropping a user leaves: no link manager, no storage on the node, and in the log the end of
  every link he had.\<close>

lemma dropUser_parts:
  assumes "managers_ok d"
  shows "dp_LinkManagers (dropUser tag user d) = (case map_of (dp_LinkManagers d) user of None \<Rightarrow> dp_LinkManagers d
      | Some m \<Rightarrow> mdelete user (dp_LinkManagers d))"
    and "map_of (dp_Counter (dropUser tag user d)) tag = map_option (Delete user) (map_of (dp_Counter d) tag)"
    and "dp_log (dropUser tag user d) = dp_log d @ (case map_of (dp_LinkManagers d) user of None \<Rightarrow> []
      | Some m \<Rightarrow> closedLinks (dp_managers d ! m))"
proof -
  define d1 where "d1 = (case map_of (dp_Counter d) tag of None \<Rightarrow> d
      | Some t \<Rightarrow> d\<lparr>dp_Counter := mstore tag (Delete user t) (dp_Counter d)\<rparr>)"
  have d1: "managers_ok d1" "dp_LinkManagers d1 = dp_LinkManagers d" "dp_managers d1 = dp_managers d"
    "dp_log d1 = dp_log d" "map_of (dp_Counter d1) tag = map_option (Delete user) (map_of (dp_Counter d) tag)"
    using assms by (simp_all add: d1_def map_of_mstore split: option.splits)
  have drop: "dropUser tag user d = (case map_of (dp_LinkManagers d) user of None \<Rightarrow> d1
      | Some m \<Rightarrow> (CloseAll m d1)\<lparr>dp_LinkManagers := mdelete user (dp_LinkManagers (CloseAll m d1))\<rparr>)"
    unfolding dropUser_def d1_def [symmetric] Let_def d1(2) by (simp split: option.splits)
  have close: "CloseAll m d1 = d1\<lparr>dp_managers := (dp_managers d1)[m := []],
      dp_log := dp_log d1 @ closedLinks (dp_managers d1 ! m)\<rparr>" if "map_of (dp_LinkManagers d) user = Some m" for m
    using d1 map_of_SomeD [OF that] by (intro CloseAll_eq) (auto simp: managers_ok_def)
  show "dp_LinkManagers (dropUser tag user d) = (case map_of (dp_LinkManagers d) user of None \<Rightarrow> dp_LinkManagers d
      | Some m \<Rightarrow> mdelete user (dp_LinkManagers d))"
    and "map_of (dp_Counter (dropUser tag user d)) tag = map_option (Delete user) (map_of (dp_Counter d) tag)"
    and "dp_log (dropUser tag user d) = dp_log d @ (case map_of (dp_LinkManagers d) user of None \<Rightarrow> []
      | Some m \<Rightarrow> closedLinks (dp_managers d ! m))"
    using d1 close unfolding drop by (auto split: option.splits)
qed

lemma dropUsers_keep:
  "managers_ok d \<Longrightarrow> map_of (dp_LinkManagers d) x = None \<Longrightarrow>
   map_of (dp_LinkManagers (fold (\<lambda>u. dropUser tag (UserTag tag (ui_Uuid u))) us d)) x = None"
proof (induction us arbitrary: d)
  case (Cons w us)
  then show ?case
    using dropUser_parts(1) [of d tag "UserTag tag (ui_Uuid w)"] dropUser_ok [of d]
    by (auto simp: map_of_mdelete split: option.splits)
qed simp

lemma dropUsers_counter:
  assumes "managers_ok d" "u \<in> set us"
  shows "\<forall>t. map_of (dp_Counter (fold (\<lambda>u. dropUser tag (UserTag tag (ui_Uuid u))) us d)) tag = Some t \<longrightarrow>
    map_of t (UserTag tag (ui_Uuid u)) = None"
proof -
  have keep: "managers_ok d \<Longrightarrow> map_of (dp_Counter (fold (\<lambda>u. dropUser tag (UserTag tag (ui_Uuid u))) us d)) tag
      = map_option (fold (\<lambda>u. Delete (UserTag tag (ui_Uuid u))) us) (map_of (dp_Counter d) tag)" for d :: "'x DefaultDispatcher" and us
    by (induction us arbitrary: d)
       (simp_all add: dropUser_parts(2) dropUser_ok option.map_comp comp_def option.map_id)
  have "map_of (fold (\<lambda>u. Delete (UserTag tag (ui_Uuid u))) us t) (UserTag tag (ui_Uuid u)) = None" for t
    using assms(2) gm.load_del_all [of "\<lambda>u. UserTag tag (ui_Uuid u)" us t]
    by (auto simp: Delete_def [abs_def])
  then show ?thesis
    using keep [OF assms(1), of us] by auto
qed

lemma dropUsers_log_mono:
  "managers_ok d \<Longrightarrow> set (dp_log d) \<subseteq> set (dp_log (fold (\<lambda>u. dropUser tag (f u)) us d))"
proof (induction us arbitrary: d)
  case (Cons u us)
  have "set (dp_log d) \<subseteq> set (dp_log (dropUser tag (f u) d))"
    using dropUser_parts(3) [OF Cons.prems, of tag "f u"] by simp
  also have "\<dots> \<subseteq> set (dp_log (fold (\<lambda>u. dropUser tag (f u)) us (dropUser tag (f u) d)))"
    by (rule Cons.IH [OF dropUser_ok [OF Cons.prems]])
  finally show ?case by simp
qed simp

lemma dropUser_managers:
  assumes "managers_ok d" "map_of (dp_LinkManagers d) x = Some m" "x \<noteq> user"
  shows "dp_managers (dropUser tag user d) ! m = dp_managers d ! m"
proof (cases "map_of (dp_LinkManagers d) user")
  case None
  then show ?thesis by (simp add: dropUser_def Let_def split: option.splits)
next
  case (Some k)
  then have "(user, k) \<in> set (dp_LinkManagers d)" "(x, m) \<in> set (dp_LinkManagers d)"
    using assms(2) by (auto dest: map_of_SomeD)
  moreover have "inj_on snd (set (dp_LinkManagers d))"
    using assms(1) by (simp add: managers_ok_def)
  ultimately have "k \<noteq> m" "k < length (dp_managers d)"
    using assms(1,3) inj_onD [of snd "set (dp_LinkManagers d)" "(user, k)" "(x, m)"]
    by (auto simp: managers_ok_def)
  then show ?thesis
    using Some assms(1)
    by (simp add: dropUser_def Let_def CloseAll_eq split: option.splits)
qed

lemma dropUsers_log:
  "managers_ok d \<Longrightarrow> map_of (dp_LinkManagers d) (UserTag tag (ui_Uuid u)) = Some m \<Longrightarrow> u \<in> set us \<Longrightarrow>
   set (closedLinks (dp_managers d ! m)) \<subseteq> set (dp_log (fold (\<lambda>u. dropUser tag (UserTag tag (ui_Uuid u))) us d))"
proof (induction us arbitrary: d)
  case (Cons v us)
  let ?d = "dropUser tag (UserTag tag (ui_Uuid v)) d"
  note ok = dropUser_ok [OF Cons.prems(1), of tag "UserTag tag (ui_Uuid v)"]
  show ?case
  proof (cases "ui_Uuid v = ui_Uuid u")
    case True
    then have "set (closedLinks (dp_managers d ! m)) \<subseteq> set (dp_log ?d)"
      using dropUser_parts(3) [OF Cons.prems(1), of tag "UserTag tag (ui_Uuid v)"] Cons.prems(2) by simp
    then show ?thesis
      using dropUsers_log_mono [OF ok, of tag "\<lambda>u. UserTag tag (ui_Uuid u)" us] by simp
  next
    case False
    then have "map_of (dp_LinkManagers ?d) (UserTag tag (ui_Uuid u)) = Some m"
      using dropUser_parts(1) [OF Cons.prems(1), of tag "UserTag tag (ui_Uuid v)"] Cons.prems(2)
      by (simp add: map_of_mdelete split: option.splits)
    moreover have "dp_managers ?d ! m = dp_managers d ! m"
      using False by (intro dropUser_managers [OF Cons.prems(1,2)]) simp
    ultimately show ?thesis
      using Cons.IH [OF ok] Cons.prems(3) False by auto
  qed
qed simp

lemma dropUsers_gone:
  assumes "managers_ok d" "u \<in> set us"
  shows "map_of (dp_LinkManagers (fold (\<lambda>u. dropUser tag (UserTag tag (ui_Uuid u))) us d)) (UserTag tag (ui_Uuid u)) = None"
  using assms
proof (induction us arbitrary: d)
  case (Cons v us)
  have v: "map_of (dp_LinkManagers (dropUser tag (UserTag tag (ui_Uuid v)) d)) (UserTag tag (ui_Uuid v)) = None"
    using dropUser_parts(1) [OF Cons.prems(1), of tag "UserTag tag (ui_Uuid v)"]
    by (auto simp: map_of_mdelete split: option.splits)
  show ?case
  proof (cases "u = v")
    case True
    then show ?thesis
      using dropUsers_keep [OF dropUser_ok [OF Cons.prems(1)] v] by simp
  next
    case False
    then show ?thesis
      using Cons.IH [OF dropUser_ok [OF Cons.prems(1)]] Cons.prems(2) by simp
  qed
qed simp

section \<open>Properties\<close>

text \<open>What is filed with a link manager, seen from one link of it: the writing end is closed, and a reading
  end that is a pipe is interrupted.\<close>

lemma closedLinks_link:
  assumes "(w, r) \<in> set ls"
  shows "Closed (endOf w) \<in> set (closedLinks ls)"
    and "(case r of PipeReader n \<Rightarrow> True | _ \<Rightarrow> False) \<Longrightarrow> Interrupted r \<in> set (closedLinks ls)"
  using assms by (force simp: closedLinks_def interrupted_def split: reader.split_asm)+

text \<open>The reading end of a link of DispatchLink is a CounterReader, on which common.Interrupt does nothing.\<close>

lemma wrapLink_reader:
  assumes "wrapLink nb now ib tcp outbound reg d = (Inr (lk, Some l), reg', d')"
  shows "\<exists>a. lk_Reader lk = CountingReader a (lk_Reader outbound) \<and> interruptReader (lk_Reader lk) d0 = d0"
  using assms by (auto simp: wrapLink_def Let_def split: option.split_asm prod.split_asm sum.split_asm)

text \<open>C8: Removing users from an xray node cuts them off: after DelUsers has returned without error, each
  of them has no id (so nothing more is reported for him), no traffic storage on the node and no link
  manager; the writing end of every link filed with him has been closed, and its reading end interrupted
  where that is a pipe, as in every link Dispatch makes.  (The reading end of a link handed to
  DispatchLink is a CounterReader, which cannot be interrupted: see \<open>wrapLink_reader\<close>.)\<close>

theorem Xray_DelUsers_cuts:
  assumes "Xray_DelUsers E us tag info c = Ret (None, c')" "xy_dispatcher c = Some d" "managers_ok d"
    and "u \<in> set us"
  shows "Xray_uid c' tag (ui_Uuid u) = 0 \<and>
    (\<exists>d'. xy_dispatcher c' = Some d' \<and> managers_ok d' \<and>
      map_of (dp_LinkManagers d') (UserTag tag (ui_Uuid u)) = None \<and>
      (\<forall>t. map_of (dp_Counter d') tag = Some t \<longrightarrow> map_of t (UserTag tag (ui_Uuid u)) = None) \<and>
      (\<forall>m w r. map_of (dp_LinkManagers d) (UserTag tag (ui_Uuid u)) = Some m \<and> (w, r) \<in> set (dp_managers d ! m) \<longrightarrow>
        Closed (endOf w) \<in> set (dp_log d') \<and>
        ((case r of PipeReader n \<Rightarrow> True | _ \<Rightarrow> False) \<longrightarrow> Interrupted r \<in> set (dp_log d'))))"
proof -
  let ?d = "fold (\<lambda>u. dropUser tag (UserTag tag (ui_Uuid u))) us d"
  have d': "xy_dispatcher c' = Some ?d"
    using Xray_DelUsers_ok [OF assms(1)] assms(2) by simp
  have "Xray_uid c' tag (ui_Uuid u) = 0"
    using xr.del_uid [OF assms(1), of "ui_Uuid u"] assms(4) by (simp add: uuids_def)
  moreover have "managers_ok ?d"
    by (rule dropUsers_ok [OF assms(3)])
  moreover have "Closed (endOf w) \<in> set (dp_log ?d) \<and>
      ((case r of PipeReader n \<Rightarrow> True | _ \<Rightarrow> False) \<longrightarrow> Interrupted r \<in> set (dp_log ?d))"
    if "map_of (dp_LinkManagers d) (UserTag tag (ui_Uuid u)) = Some m" "(w, r) \<in> set (dp_managers d ! m)" for m w r
    using dropUsers_log [OF assms(3) that(1) assms(4)] closedLinks_link [OF that(2)] by blast
  ultimately show ?thesis
    using d' dropUsers_gone [OF assms(3,4), of tag] dropUsers_counter [OF assms(3,4), of tag] by blast
qed

text \<open>The users of an xray node follow the panel's list: if the core accounts exactly the old list
  on a node, sending it the difference to the new list, deletions first, makes it account exactly the
  new list, for lists as the panel sends them.\<close>

theorem Xray_follows_list:
  assumes "user_lists old new" "compareUserList old new = (deleted, added)"
    and "\<And>x. Xray_uid c tag x = idsOf old x"
    and "deleteAll (Xray_DelUsers E) deleted tag n c = Ret (None, c1)" "addAll (Xray_AddUsers E) tag added n' c1 = Ret ((k, None), c2)"
  shows "Xray_uid c2 tag x = idsOf new x"
  by (rule xr.sync [OF assms])

text \<open>Accounting is per node: a user of one node keeps his id there when a list is added to or removed
  from another node.\<close>

lemma Xray_other_node:
  assumes "Xray_DelUsers E us tag info c = Ret (None, c')" "tag' \<noteq> tag"
    and "\<forall>u\<in>set us. CHR ''|'' \<notin> set (ui_Uuid u)" "CHR ''|'' \<notin> set x"
  shows "Xray_uid c' tag' x = Xray_uid c tag' x"
proof -
  have "UserTag tag' x \<notin> (\<lambda>u. UserTag tag (ui_Uuid u)) ` set us"
    using assms(2-4) UserTag_inj by blast
  then show ?thesis
    using Xray_DelUsers_ok [OF assms(1)] gm.load_del_all [of "\<lambda>u. UserTag tag (ui_Uuid u)" us "xy_uidMap c"]
    by (simp add: Xray_uid_def mget0_def)
qed

section \<open>Witnesses\<close>

text \<open>An instance whose user manager accepts every call, one vmess node \<open>n\<close>, two users.\<close>

definition wit_xenv ::
  "(unit, string, string InboundDetourConfig, string InboundDetourConfig, xrayUser) xray_env" where
  "wit_xenv = \<lparr>xe_inbound = wit_env, xe_buildOut = (\<lambda>c. Inl ''no''),
     xe_create = (\<lambda>h x. Inr h), xe_isIn = (\<lambda>h. True), xe_isOut = (\<lambda>h. True),
     xe_addIn = (\<lambda>h x. (None, x)), xe_addOut = (\<lambda>h x. (None, x)),
     xe_removeIn = (\<lambda>t x. (None, x)), xe_removeOut = (\<lambda>t x. (None, x)),
     xe_handler = (\<lambda>t x. Inr HasUserManager), xe_toMemory = (\<lambda>u. Inr u),
     xe_addUser = (\<lambda>t m x. (None, x)), xe_removeUser = (\<lambda>t u x. (None, x)),
     xe_start = (\<lambda>x. (None, x)), xe_close = (\<lambda>x. (None, x))\<rparr>"

definition wit_xray :: "(unit, int) Xray" where
  "wit_xray = (newXray () (Inr []))\<lparr>xy_dispatcher := Some wit_dispatcher, xy_uidMap := [(''n|u'', 7)]\<rparr>"

lemma wit_dispatcher_ok: "managers_ok wit_dispatcher"
  by (simp add: managers_ok_def manager_ok_def wit_dispatcher_def newDispatcher_def managedFor_def
      plainEnd_def wf_map_def)

lemma ran_ok: "(case r of Ret (None, c) \<Rightarrow> P c | _ \<Rightarrow> False) \<Longrightarrow> \<exists>c. r = Ret (None, c) \<and> P c"
  by (auto split: outcome.split_asm prod.split_asm option.split_asm)

lemma counted_ok: "(case r of Ret ((k, None), c) \<Rightarrow> True | _ \<Rightarrow> False) \<Longrightarrow> \<exists>k c. r = Ret ((k, None), c)"
  by (auto split: outcome.split_asm prod.split_asm option.split_asm)

theorem Xray_DelUsers_cuts_witness:
  "\<exists>c' d'. Xray_DelUsers wit_xenv [wit_u 7 ''u'' 0] ''n'' wit_vmess wit_xray = Ret (None, c') \<and>
     xy_dispatcher c' = Some d' \<and> Closed (PipeWriter 0) \<in> set (dp_log d') \<and>
     Interrupted (PipeReader 0) \<in> set (dp_log d') \<and> Xray_uid c' ''n'' ''u'' = 0"
proof -
  have "(case Xray_DelUsers wit_xenv [wit_u 7 ''u'' 0] ''n'' wit_vmess wit_xray of
      Ret (None, c') \<Rightarrow> True | _ \<Rightarrow> False)"
    by code_simp
  then obtain c' where c: "Xray_DelUsers wit_xenv [wit_u 7 ''u'' 0] ''n'' wit_vmess wit_xray = Ret (None, c')"
    by (auto split: outcome.splits prod.splits option.splits)
  have d: "xy_dispatcher wit_xray = Some wit_dispatcher"
    by (simp add: wit_xray_def)
  have links: "map_of (dp_LinkManagers wit_dispatcher) (UserTag ''n'' (ui_Uuid (wit_u 7 ''u'' 0))) = Some 0 \<and>
      (ManagedWriter 2 0 (PipeWriter 0), PipeReader 0) \<in> set (dp_managers wit_dispatcher ! 0)"
    by (simp add: wit_dispatcher_def newDispatcher_def UserTag_def wit_u_def)
  from Xray_DelUsers_cuts [OF c d wit_dispatcher_ok list.set_intros(1)]
  obtain d' where d': "xy_dispatcher c' = Some d'" "Xray_uid c' ''n'' (ui_Uuid (wit_u 7 ''u'' 0)) = 0"
    and "Closed (endOf (ManagedWriter 2 0 (PipeWriter 0) :: int writer)) \<in> set (dp_log d') \<and>
      ((case PipeReader 0 of PipeReader n \<Rightarrow> True | _ \<Rightarrow> False) \<longrightarrow> Interrupted (PipeReader 0) \<in> set (dp_log d'))"
    using links by blast
  then have "Closed (PipeWriter 0) \<in> set (dp_log d') \<and> Interrupted (PipeReader 0) \<in> set (dp_log d')"
    by simp
  then show ?thesis
    using c d' by (auto simp: wit_u_def)
qed

theorem Xray_follows_list_witness:
  "\<exists>k c1 c2. Xray_DelUsers wit_xenv [wit_u 7 ''u'' 0] ''n'' wit_vmess wit_xray = Ret (None, c1) \<and>
     Xray_AddUsers wit_xenv ''n'' [wit_u 8 ''v'' 0] wit_vmess c1 = Ret ((k, None), c2) \<and>
     Xray_uid c2 ''n'' ''v'' = 8 \<and> Xray_uid c2 ''n'' ''u'' = 0"
proof -
  have "(case deleteAll (Xray_DelUsers wit_xenv) [wit_u 7 ''u'' 0] ''n'' wit_vmess wit_xray of
      Ret (None, c1) \<Rightarrow> (case addAll (Xray_AddUsers wit_xenv) ''n'' [wit_u 8 ''v'' 0] wit_vmess c1 of
          Ret ((k, None), c2) \<Rightarrow> True | _ \<Rightarrow> False)
    | _ \<Rightarrow> False)"
    by code_simp
  from ran_ok [OF this] have "\<exists>k c1 c2. deleteAll (Xray_DelUsers wit_xenv) [wit_u 7 ''u'' 0] ''n'' wit_vmess wit_xray = Ret (None, c1) \<and>
     addAll (Xray_AddUsers wit_xenv) ''n'' [wit_u 8 ''v'' 0] wit_vmess c1 = Ret ((k, None), c2)"
    using counted_ok by blast
  then obtain k c1 c2 where d: "deleteAll (Xray_DelUsers wit_xenv) [wit_u 7 ''u'' 0] ''n'' wit_vmess wit_xray = Ret (None, c1)"
    and a: "addAll (Xray_AddUsers wit_xenv) ''n'' [wit_u 8 ''v'' 0] wit_vmess c1 = Ret ((k, None), c2)"
    by blast
  have l: "user_lists [wit_u 7 ''u'' 0] [wit_u 8 ''v'' 0]"
    by (simp add: user_lists_def wit_u_def)
  have cmp: "compareUserList [wit_u 7 ''u'' 0] [wit_u 8 ''v'' 0] = ([wit_u 7 ''u'' 0], [wit_u 8 ''v'' 0])"
    by code_simp
  have b: "Xray_uid wit_xray ''n'' x = idsOf [wit_u 7 ''u'' 0] x" for x
    by (simp add: Xray_uid_def wit_xray_def newXray_def mget0_def idsOf_def wit_u_def UserTag_def)
  note f = Xray_follows_list [OF l cmp b d a]
  have "idsOf [wit_u 8 ''v'' 0] ''v'' = 8" "idsOf [wit_u 8 ''v'' 0] ''u'' = 0"
    by (simp_all add: idsOf_def wit_u_def)
  then show ?thesis
    using d a f [of "''v''"] f [of "''u''"] by (auto simp: deleteAll_def addAll_def)
qed

end
