(* ===== verification/Sing.thy ===== *)
theory Sing
  imports User_Sync Limiter Counter
begin

text \<open>
  The sing core without the building of its inbounds: the users and the traffic of core/sing/user.go,
  the connection hook of core/sing/hook.go, and the life cycle of core/sing/sing.go.

  The box of sing-box is the state \<open>'x\<close>; what the program calls on it are the fields of \<open>sing_env\<close>.
  \<open>se_inbound\<close> finds the inbound of a tag and says which of sing-box's inbound types it has, by the
  name under which the program asserts it; a failed assertion is a panic.  Users are filed under
  their bare uuid, for all nodes of the core together.
\<close>

section \<open>State\<close>

datatype singUser =
    VLESSUser string string string
  | VMessUser string string
  | ShadowsocksUser string string
  | TrojanUser string string
  | TUICUser string string string
  | HysteriaUser string string
  | Hysteria2User string string
  | AnyTLSUser string string

record 'x sing_env =
  se_inbound :: "string \<Rightarrow> 'x \<Rightarrow> string option"
  se_addUsers :: "string \<Rightarrow> singUser list \<Rightarrow> int list \<Rightarrow> 'x \<Rightarrow> err \<times> 'x"
  se_delUsers :: "string \<Rightarrow> string list \<Rightarrow> 'x \<Rightarrow> err \<times> 'x"
  se_start :: "'x \<Rightarrow> err \<times> 'x"
  se_close :: "'x \<Rightarrow> err \<times> 'x"

record 'x Sing =
  sb_box :: 'x
  sb_heap :: heap
  sb_counter :: "(string, TrafficCounter) gomap"
  sb_uidMap :: "(string, int) gomap"
  sb_nodeReportMinTrafficBytes :: "(string, int) gomap"

definition Sing_Start :: "'x sing_env \<Rightarrow> 'x Sing \<Rightarrow> (err \<times> 'x Sing) outcome" where
  "Sing_Start E b = (case se_start E (sb_box b) of (e, x) \<Rightarrow> Ret (e, b\<lparr>sb_box := x\<rparr>))"

definition Sing_Close :: "'x sing_env \<Rightarrow> 'x Sing \<Rightarrow> (err \<times> 'x Sing) outcome" where
  "Sing_Close E b = (case se_close E (sb_box b) of (e, x) \<Rightarrow> Ret (e, b\<lparr>sb_box := x\<rparr>))"

definition Sing_Protocols :: "string list" where
  "Sing_Protocols = [''vmess'', ''vless'', ''shadowsocks'', ''trojan'', ''tuic'', ''anytls'', ''hysteria'',
     ''hysteria2'']"

text \<open>The configuration New starts from: the file named, or the fallback file when it exists.\<close>

definition resolveOriginalPath :: "(string \<Rightarrow> bool) \<Rightarrow> SingConfig \<Rightarrow> string" where
  "resolveOriginalPath exists_file c =
     (if sg_OriginalPath c \<noteq> [] then sg_OriginalPath c
      else if exists_file ''/etc/V2bX/sing_origin.json'' then ''/etc/V2bX/sing_origin.json'' else [])"

section \<open>Users\<close>

text \<open>The password of a shadowsocks user; slicing past the end of the uuid panics.\<close>

definition ssPassword :: "string \<Rightarrow> string \<Rightarrow> string outcome" where
  "ssPassword cipher uuid =
     (if cipher = ''2022-blake3-aes-128-gcm'' then
        (if length uuid < 16 then Panic else Ret (b64encode (take 16 uuid)))
      else if cipher = ''2022-blake3-aes-256-gcm'' then
        (if length uuid < 32 then Panic else Ret (b64encode (take 32 uuid)))
      else Ret uuid)"

fun ssUsers :: "string \<Rightarrow> UserInfo list \<Rightarrow> singUser list outcome" where
  "ssUsers cipher [] = Ret []"
| "ssUsers cipher (u # us) =
     (case ssPassword cipher (ui_Uuid u) of
        Panic \<Rightarrow> Panic
      | Ret p \<Rightarrow> (case ssUsers cipher us of Panic \<Rightarrow> Panic | Ret xs \<Rightarrow> Ret (ShadowsocksUser (ui_Uuid u) p # xs)))"

text \<open>The users in the form the node's protocol wants; None for a type the switch does not know.  The
  protocol record is only looked at when there is a user.\<close>

definition singUsers :: "NodeInfo \<Rightarrow> UserInfo list \<Rightarrow> singUser list option outcome" where
  "singUsers info us =
     (let t = ni_Type info; all = (\<lambda>f. Ret (Some (map (\<lambda>u. f (ui_Uuid u)) us))) in
      if t = ''vless'' then
        (if us = [] then Ret (Some [])
         else case ni_VAllss info of None \<Rightarrow> Panic | Some v \<Rightarrow> all (\<lambda>x. VLESSUser x (va_Flow v) x))
      else if t = ''vmess'' then all (\<lambda>x. VMessUser x x)
      else if t = ''shadowsocks'' then
        (if us = [] then Ret (Some [])
         else case ni_Shadowsocks info of
             None \<Rightarrow> Panic
           | Some s \<Rightarrow> (case ssUsers (sh_Cipher s) us of Panic \<Rightarrow> Panic | Ret xs \<Rightarrow> Ret (Some xs)))
      else if t = ''trojan'' then all (\<lambda>x. TrojanUser x x)
      else if t = ''tuic'' then all (\<lambda>x. TUICUser x x x)
      else if t = ''hysteria'' then all (\<lambda>x. HysteriaUser x x)
      else if t = ''hysteria2'' then all (\<lambda>x. Hysteria2User x x)
      else if t = ''anytls'' then all (\<lambda>x. AnyTLSUser x x)
      else Ret None)"

text \<open>tuic and hysteria2 inbounds are given the ids too.\<close>

definition singIds :: "NodeInfo \<Rightarrow> UserInfo list \<Rightarrow> int list" where
  "singIds info us = (if ni_Type info = ''tuic'' \<or> ni_Type info = ''hysteria2'' then map ui_Id us else [])"

definition Sing_AddUsers ::
  "'x sing_env \<Rightarrow> string \<Rightarrow> UserInfo list \<Rightarrow> NodeInfo \<Rightarrow> 'x Sing \<Rightarrow> ((int \<times> err) \<times> 'x Sing) outcome" where
  "Sing_AddUsers E tag us info b =
     (case se_inbound E tag (sb_box b) of
        None \<Rightarrow> Ret ((0, Some ''the inbound not found''), b)
      | Some kind \<Rightarrow>
          let b = b\<lparr>sb_uidMap := fold (\<lambda>u. mstore (ui_Uuid u) (ui_Id u)) us (sb_uidMap b)\<rparr> in
          (case singUsers info us of
             Panic \<Rightarrow> Panic
           | Ret None \<Rightarrow> Ret ((int (length us), None), b)
           | Ret (Some xs) \<Rightarrow>
               if kind \<noteq> ni_Type info then Panic
               else (case se_addUsers E tag xs (singIds info us) (sb_box b) of
                   (Some e, x) \<Rightarrow> Ret ((0, Some e), b\<lparr>sb_box := x\<rparr>)
                 | (None, x) \<Rightarrow> Ret ((int (length us), None), b\<lparr>sb_box := x\<rparr>))))"

definition Sing_GetUserTraffic :: "string \<Rightarrow> string \<Rightarrow> bool \<Rightarrow> 'x Sing \<Rightarrow> (int \<times> int) \<times> 'x Sing" where
  "Sing_GetUserTraffic tag uuid reset b =
     (case map_of (sb_counter b) tag of
        None \<Rightarrow> ((0, 0), b)
      | Some c \<Rightarrow>
          let s = (sb_heap b, c); up = GetUpCount uuid s; down = GetDownCount uuid s in
          if reset then (case Reset uuid s of (h, c) \<Rightarrow>
            ((up, down), b\<lparr>sb_heap := h, sb_counter := mstore tag c (sb_counter b)\<rparr>))
          else ((up, down), b))"

definition Sing_GetUserTrafficSlice ::
  "string \<Rightarrow> bool \<Rightarrow> 'x Sing \<Rightarrow> ((UserTraffic list \<times> err) \<times> 'x Sing) outcome" where
  "Sing_GetUserTrafficSlice tag reset b =
     (case map_of (sb_counter b) tag of
        None \<Rightarrow> Ret (([], None), b)
      | Some c \<Rightarrow>
          (case collectTraffic (mget0 (sb_nodeReportMinTrafficBytes b) tag) (sb_uidMap b) reset (sb_heap b, c) of
             (ts, h, c) \<Rightarrow> Ret ((ts, None), b\<lparr>sb_heap := h, sb_counter := mstore tag c (sb_counter b)\<rparr>)))"

text \<open>The inbound's DelUsers is called last; without a known protocol it is a nil interface.\<close>

definition dropSingUser :: "string \<Rightarrow> string \<Rightarrow> 'x Sing \<Rightarrow> 'x Sing" where
  "dropSingUser tag uuid b = b\<lparr>
     sb_counter := (case map_of (sb_counter b) tag of None \<Rightarrow> sb_counter b
       | Some c \<Rightarrow> mstore tag (Delete uuid c) (sb_counter b)),
     sb_uidMap := mdelete uuid (sb_uidMap b)\<rparr>"

definition Sing_DelUsers ::
  "'x sing_env \<Rightarrow> UserInfo list \<Rightarrow> string \<Rightarrow> NodeInfo \<Rightarrow> 'x Sing \<Rightarrow> (err \<times> 'x Sing) outcome" where
  "Sing_DelUsers E us tag info b =
     (case se_inbound E tag (sb_box b) of
        None \<Rightarrow> Ret (Some ''the inbound not found'', b)
      | Some kind \<Rightarrow>
          if ni_Type info \<in> set Sing_Protocols \<and> kind \<noteq> ni_Type info then Panic
          else let b = fold (\<lambda>u. dropSingUser tag (ui_Uuid u)) us b in
            if ni_Type info \<notin> set Sing_Protocols then Panic
            else (case se_delUsers E tag (map ui_Uuid us) (sb_box b) of (e, x) \<Rightarrow> Ret (e, b\<lparr>sb_box := x\<rparr>)))"

section \<open>The hook\<close>

text \<open>A connection as the hook wraps it: rate limited, counted; and the metadata of sing-box.
  \<open>ic_DestNetwork\<close> is what Network() of the destination address says.\<close>

datatype 'b hookConn = RawConn | RateConn 'b "'b hookConn" | CountConn nat "'b hookConn"

record InboundContext =
  ic_Inbound :: string
  ic_User :: string
  ic_SourceIP :: string
  ic_Destination :: string
  ic_Protocol :: string
  ic_DestNetwork :: string

text \<open>The audit rules, and the counter of the user on the inbound.\<close>

definition hookRejects :: "'b Limiter \<Rightarrow> string \<Rightarrow> string \<Rightarrow> bool" where
  "hookRejects l destStr protocol =
     (if CheckDomainRule l destStr then True
      else if protocol \<noteq> [] then CheckProtocolRule l protocol else False)"

definition hookCounter :: "string \<Rightarrow> string \<Rightarrow> 'x Sing \<Rightarrow> nat \<times> 'x Sing" where
  "hookCounter tag user h =
     (let t = (case map_of (sb_counter h) tag of None \<Rightarrow> NewTrafficCounter | Some t \<Rightarrow> t) in
      case GetCounter user (sb_heap h, t) of
        (a, hp, t) \<Rightarrow> (a, h\<lparr>sb_heap := hp, sb_counter := mstore tag t (sb_counter h)\<rparr>))"

text \<open>The result: whether the hook closed the connection, the connection it gives back, the registry with
  the limiter's new state, the counters.\<close>

definition RoutedConnection ::
  "(int \<Rightarrow> int \<Rightarrow> int \<Rightarrow> 'b) \<Rightarrow> int \<Rightarrow> InboundContext \<Rightarrow> 'b registry \<Rightarrow> 'x Sing \<Rightarrow>
   (bool \<times> 'b hookConn) \<times> 'b registry \<times> 'x Sing" where
  "RoutedConnection newBucket now m reg h =
     (case GetLimiter (ic_Inbound m) reg of
        Inl e \<Rightarrow> ((False, RawConn), reg, h)
      | Inr l \<Rightarrow>
          (case CheckLimit newBucket now (UserTag (ic_Inbound m) (ic_User m)) (ic_SourceIP m) True True l of
             ((b, r), l) \<Rightarrow>
               let reg = mstore (ic_Inbound m) l reg in
               if r then ((True, RawConn), reg, h)
               else let conn = (case b of None \<Rightarrow> RawConn | Some b \<Rightarrow> RateConn b RawConn) in
                 if hookRejects l (ic_Destination m) (ic_Protocol m) then ((True, conn), reg, h)
                 else (case hookCounter (ic_Inbound m) (ic_User m) h of
                     (a, h) \<Rightarrow> ((False, CountConn a conn), reg, h))))"

text \<open>For packets no speed limit is applied, and the protocol asked about is the network of the
  destination.\<close>

definition RoutedPacketConnection ::
  "(int \<Rightarrow> int \<Rightarrow> int \<Rightarrow> 'b) \<Rightarrow> int \<Rightarrow> InboundContext \<Rightarrow> 'b registry \<Rightarrow> 'x Sing \<Rightarrow>
   (bool \<times> 'b hookConn) \<times> 'b registry \<times> 'x Sing" where
  "RoutedPacketConnection newBucket now m reg h =
     (case GetLimiter (ic_Inbound m) reg of
        Inl e \<Rightarrow> ((False, RawConn), reg, h)
      | Inr l \<Rightarrow>
          (case CheckLimit newBucket now (UserTag (ic_Inbound m) (ic_User m)) (ic_SourceIP m) False False l of
             ((b, r), l) \<Rightarrow>
               let reg = mstore (ic_Inbound m) l reg in
               if r then ((True, RawConn), reg, h)
               else if hookRejects l (ic_Destination m) (ic_DestNetwork m) then ((True, RawConn), reg, h)
               else (case hookCounter (ic_Inbound m) (ic_User m) h of
                   (a, h) \<Rightarrow> ((False, CountConn a RawConn), reg, h))))"

section \<open>The contract of the user operations\<close>

definition Sing_uid :: "'x Sing \<Rightarrow> string \<Rightarrow> string \<Rightarrow> int" where
  "Sing_uid b tag x = mget0 (sb_uidMap b) x"

lemma dropSingUsers:
  "sb_uidMap (fold (\<lambda>u. dropSingUser tag (ui_Uuid u)) us b) = fold (\<lambda>u. mdelete (ui_Uuid u)) us (sb_uidMap b)"
  "sb_heap (fold (\<lambda>u. dropSingUser tag (ui_Uuid u)) us b) = sb_heap b"
  "sb_box (fold (\<lambda>u. dropSingUser tag (ui_Uuid u)) us b) = sb_box b"
  by (induction us arbitrary: b) (simp_all add: dropSingUser_def)

lemma Sing_AddUsers_ok:
  assumes "Sing_AddUsers E tag us info b = Ret ((k, None), b')"
  shows "sb_uidMap b' = fold (\<lambda>u. mstore (ui_Uuid u) (ui_Id u)) us (sb_uidMap b) \<and> k = int (length us)"
  using assms
  by (auto simp: Sing_AddUsers_def Let_def split: option.splits outcome.splits prod.splits if_splits)

lemma Sing_DelUsers_ok:
  assumes "Sing_DelUsers E us tag info b = Ret (None, b')"
  shows "sb_uidMap b' = fold (\<lambda>u. mdelete (ui_Uuid u)) us (sb_uidMap b)"
  using assms
  by (auto simp: Sing_DelUsers_def Let_def dropSingUsers split: option.splits prod.splits if_splits)

interpretation sg: core_users Sing_uid "Sing_AddUsers E" "Sing_DelUsers E"
  for E :: "'x sing_env"
proof
  show "Sing_uid c' tag x = (if x \<in> uuids us then idsOf us x else Sing_uid c tag x)"
    if "Sing_AddUsers E tag us n c = Ret ((k, None), c')" for tag us n k x and c c' :: "'x Sing"
    using Sing_AddUsers_ok [OF that] idsOf_put [of id us "sb_uidMap c" x]
    by (simp add: Sing_uid_def)
  show "k = int (length us)" if "Sing_AddUsers E tag us n c = Ret ((k, None), c')"
    for tag us n k and c c' :: "'x Sing"
    using Sing_AddUsers_ok [OF that] by simp
  show "Sing_uid c' tag x = (if x \<in> uuids us then 0 else Sing_uid c tag x)"
    if "Sing_DelUsers E us tag n c = Ret (None, c')" for tag us n x and c c' :: "'x Sing"
    using Sing_DelUsers_ok [OF that] idsOf_delete [of id us "sb_uidMap c" x]
    by (simp add: Sing_uid_def)
qed

section \<open>Properties\<close>

text \<open>C11: A connection that the hook of the sing core lets through for a node with a limiter was accepted by
  CheckLimit, goes to a destination no domain rule matches and speaks no sniffed protocol a rule
  names; it waits on the bucket CheckLimit returned, if any, and is counted in the storage of its user
  in the counter of its node.\<close>

theorem RoutedConnection_passes:
  assumes "RoutedConnection nb now m reg b = ((False, conn), reg', b')" "GetLimiter (ic_Inbound m) reg = Inr l"
  shows "\<exists>w l' c a. CheckLimit nb now (UserTag (ic_Inbound m) (ic_User m)) (ic_SourceIP m) True True l = ((w, False), l') \<and>
    reg' = mstore (ic_Inbound m) l' reg \<and>
    \<not> CheckDomainRule l' (ic_Destination m) \<and>
    (ic_Protocol m \<noteq> [] \<longrightarrow> \<not> CheckProtocolRule l' (ic_Protocol m)) \<and>
    conn = CountConn a (case w of None \<Rightarrow> RawConn | Some k \<Rightarrow> RateConn k RawConn) \<and>
    map_of (sb_counter b') (ic_Inbound m) = Some c \<and> map_of c (ic_User m) = Some a"
proof -
  obtain w r l' where c: "CheckLimit nb now (UserTag (ic_Inbound m) (ic_User m)) (ic_SourceIP m) True True l = ((w, r), l')"
    by (metis surj_pair)
  obtain a b2 where h: "hookCounter (ic_Inbound m) (ic_User m) b = (a, b2)"
    by (metis surj_pair)
  have passed: "\<not> r" "\<not> hookRejects l' (ic_Destination m) (ic_Protocol m)"
    "conn = CountConn a (case w of None \<Rightarrow> RawConn | Some k \<Rightarrow> RateConn k RawConn)"
    "reg' = mstore (ic_Inbound m) l' reg" "b' = b2"
    using assms c h by (auto simp: RoutedConnection_def Let_def split: if_splits)
  have "\<exists>c. map_of (sb_counter b') (ic_Inbound m) = Some c \<and> map_of c (ic_User m) = Some a"
    using h passed(5)
    by (auto simp: hookCounter_def Let_def map_of_mstore GetCounter_def split: prod.splits option.splits)
  then show ?thesis
    using c passed by (auto simp: hookRejects_def split: if_splits)
qed

text \<open>For packets the rules are asked about the network of the destination, not about the protocol that
  was sniffed: a rule on that protocol stops no packet connection.\<close>

lemma RoutedPacketConnection_ignores_protocol:
  "RoutedPacketConnection nb now (m\<lparr>ic_Protocol := p\<rparr>) reg b = RoutedPacketConnection nb now m reg b"
  by (simp add: RoutedPacketConnection_def Let_def split: sum.split prod.split)

text \<open>C31: Users are filed under their uuid alone.  Deleting a user on one node forgets his id on every
  other node of the core: there his next report entry over the threshold is discarded, counters and
  all, although he is still a user of that node.\<close>

theorem Sing_DelUsers_forgets_everywhere:
  assumes "Sing_DelUsers E us tag info b = Ret (None, b')" "u \<in> set us"
    and "map_of (sb_counter b') tag' = Some c" "wf_counter (sb_heap b') c" "map_of c (ui_Uuid u) = Some a"
    and "overMin (mget0 (sb_nodeReportMinTrafficBytes b') tag') (sb_heap b' ! a)"
    and "Sing_GetUserTrafficSlice tag' True b' = Ret ((ts, e), b'')"
  shows "Sing_uid b' tag' (ui_Uuid u) = 0 \<and>
    (\<forall>t\<in>set ts. \<exists>k j. k \<noteq> ui_Uuid u \<and> map_of c k = Some j \<and> t = trafficOf (sb_uidMap b') (sb_heap b') (k, j)) \<and>
    (\<exists>c''. map_of (sb_counter b'') tag' = Some c'' \<and> map_of c'' (ui_Uuid u) = None)"
proof -
  have gone: "mget0 (sb_uidMap b') (ui_Uuid u) = 0"
    using sg.del_uid [OF assms(1), of "ui_Uuid u"] assms(2) by (simp add: Sing_uid_def uuids_def)
  let ?mt = "mget0 (sb_nodeReportMinTrafficBytes b') tag'" and ?um = "sb_uidMap b'" and ?h = "sb_heap b'"
  have r: "ts = map (trafficOf ?um ?h) (filter (reported ?mt ?um ?h) c)"
    "sb_counter b'' = mstore tag' (fold Delete (map fst (filter (dropped ?mt ?um ?h) c)) c) (sb_counter b')"
    using assms(3,7) by (auto simp: Sing_GetUserTrafficSlice_def collectTraffic_alt [OF assms(4)])
  have wf: "wf_map c"
    using assms(4) by (simp add: wf_counter_def)
  have "(ui_Uuid u, a) \<in> set (filter (dropped ?mt ?um ?h) c)"
    using assms(5,6) gone map_of_eq_Some_iff [OF wf] by (simp add: dropped_def)
  then have "ui_Uuid u \<in> set (map fst (filter (dropped ?mt ?um ?h) c))"
    by force
  then have "\<exists>c''. map_of (sb_counter b'') tag' = Some c'' \<and> map_of c'' (ui_Uuid u) = None"
    by (simp add: r(2) map_of_mstore fold_Delete)
  moreover have "\<exists>k j. k \<noteq> ui_Uuid u \<and> map_of c k = Some j \<and> t = trafficOf ?um ?h (k, j)" if t: "t \<in> set ts" for t
  proof -
    obtain k j where kj: "(k, j) \<in> set c" "reported ?mt ?um ?h (k, j)" "t = trafficOf ?um ?h (k, j)"
      using t by (auto simp: r(1))
    then have "k \<noteq> ui_Uuid u"
      using gone by (auto simp: reported_def)
    then show ?thesis
      using kj map_of_eq_Some_iff [OF wf] by blast
  qed
  ultimately show ?thesis
    using gone by (simp add: Sing_uid_def)
qed

text \<open>A deletion that the inbound refuses has forgotten the users all the same.\<close>

lemma Sing_DelUsers_error_forgets:
  assumes "Sing_DelUsers E us tag info b = Ret (Some e, b')" "se_inbound E tag (sb_box b) \<noteq> None" "u \<in> set us"
  shows "Sing_uid b' tag' (ui_Uuid u) = 0"
  using assms idsOf_delete [of id us "sb_uidMap b" "ui_Uuid u"]
  by (auto simp: Sing_DelUsers_def Let_def dropSingUsers Sing_uid_def uuids_def split: option.splits prod.splits if_splits)

section \<open>Witnesses\<close>

definition wit_sing :: "unit Sing" where
  "wit_sing = \<lparr>sb_box = (), sb_heap = [\<lparr>ts_Up = 5, ts_Down = 6\<rparr>],
     sb_counter = [(''m'', [(''u'', 0)])], sb_uidMap = [(''u'', 7)], sb_nodeReportMinTrafficBytes = []\<rparr>"

definition wit_box :: "unit sing_env" where
  "wit_box = \<lparr>se_inbound = (\<lambda>t x. Some ''trojan''), se_addUsers = (\<lambda>t us ids x. (None, x)),
     se_delUsers = (\<lambda>t us x. (None, x)), se_start = (\<lambda>x. (None, x)), se_close = (\<lambda>x. (None, x))\<rparr>"

definition wit_node :: NodeInfo where
  "wit_node = emptyNode 1 ''trojan''"

definition wit_meta :: InboundContext where
  "wit_meta = \<lparr>ic_Inbound = ''n'', ic_User = ''u'', ic_SourceIP = ''1.2.3.4'', ic_Destination = ''a.b'',
     ic_Protocol = ''tls'', ic_DestNetwork = ''socks''\<rparr>"

theorem RoutedConnection_passes_witness:
  "\<exists>conn reg' b' c. RoutedConnection wit_bucket 0 wit_meta [(''n'', wit_limiter [])] wit_sing = ((False, conn), reg', b') \<and>
     map_of (sb_counter b') ''n'' = Some c \<and> map_of c ''u'' = Some 1"
proof -
  have "(case RoutedConnection wit_bucket 0 wit_meta [(''n'', wit_limiter [])] wit_sing of
      ((shut, CountConn a k), reg', b') \<Rightarrow> \<not> shut \<and> a = 1 | _ \<Rightarrow> False)"
    by code_simp
  then obtain k reg' b' where r: "RoutedConnection wit_bucket 0 wit_meta [(''n'', wit_limiter [])] wit_sing
      = ((False, CountConn 1 k), reg', b')"
    by (auto split: prod.split_asm hookConn.split_asm)
  have "GetLimiter (ic_Inbound wit_meta) [(''n'', wit_limiter [])] = Inr (wit_limiter [])"
    by (simp add: GetLimiter_def wit_meta_def)
  from RoutedConnection_passes [OF r this] show ?thesis
    using r by (auto simp: wit_meta_def)
qed

theorem Sing_DelUsers_forgets_everywhere_witness:
  "\<exists>b' ts b''. Sing_DelUsers wit_box [wit_u 7 ''u'' 0] ''n'' wit_node wit_sing = Ret (None, b') \<and>
     Sing_GetUserTrafficSlice ''m'' True b' = Ret ((ts, None), b'') \<and> Sing_uid b' ''m'' ''u'' = 0"
proof -
  let ?b = "wit_sing\<lparr>sb_uidMap := []\<rparr>"
  have d: "Sing_DelUsers wit_box [wit_u 7 ''u'' 0] ''n'' wit_node wit_sing = Ret (None, ?b)"
    by (simp add: Sing_DelUsers_def wit_box_def wit_sing_def wit_node_def emptyNode_def Sing_Protocols_def
        dropSingUser_def wit_u_def mdelete_def)
  have c: "map_of (sb_counter ?b) ''m'' = Some [(''u'', 0)]" "wf_counter (sb_heap ?b) [(''u'', 0)]"
    "map_of [(''u'', 0::nat)] (ui_Uuid (wit_u 7 ''u'' 0)) = Some 0"
    "overMin (mget0 (sb_nodeReportMinTrafficBytes ?b) ''m'') (sb_heap ?b ! 0)"
    by (simp_all add: wit_sing_def wf_counter_def wf_map_def wit_u_def overMin_def mget0_def wrap64_def)
  have "\<exists>ts b''. Sing_GetUserTrafficSlice ''m'' True ?b = Ret ((ts, None), b'')"
    using c(1) by (simp add: Sing_GetUserTrafficSlice_def split: prod.split)
  then obtain ts b'' where g: "Sing_GetUserTrafficSlice ''m'' True ?b = Ret ((ts, None), b'')"
    by blast
  show ?thesis
    using Sing_DelUsers_forgets_everywhere [OF d list.set_intros(1) c g] d g by (auto simp: wit_u_def)
qed

end
