(* ===== verification/Sing_Build.thy ===== *)
theory Sing_Build
  imports Sing
begin

text \<open>
  The inbounds of the sing core: getInboundOptions, AddNode and DelNode of core/sing/node.go and
  processFallback of core/sing/utils.go.

  The option structs of sing-box are records with the fields the program sets.  Decoding of the
  network settings, URL parsing, address parsing and random bytes are parameters.  A nil pointer that
  is used, and an index past the end, are \<open>Panic\<close>.
\<close>

section \<open>Options\<close>

record HttpNetworkConfig =
  hn_Type :: string
  hn_Request :: "string option"

record HttpRequest =
  hr_Method :: string
  hr_Path :: "string list"
  hr_Host :: "string list"

record WsNetworkConfig =
  wn_Path :: string
  wn_Headers :: "(string, string) gomap"

record ListenOptions =
  li_Listen :: string
  li_ListenPort :: int
  li_TCPFastOpen :: bool
  li_SniffEnabled :: bool
  li_SniffOverrideDestination :: bool
  li_DomainStrategy :: int

record InboundMultiplexOptions =
  im_Enabled :: bool
  im_Padding :: bool
  im_BrutalEnabled :: bool
  im_UpMbps :: int
  im_DownMbps :: int

record InboundRealityOptions =
  ry_Enabled :: bool
  ry_ShortID :: "string list"
  ry_PrivateKey :: string
  ry_Xver :: int
  ry_Server :: string
  ry_ServerPort :: int
  ry_MaxTimeDifference :: int

record InboundTLSOptions =
  it_Enabled :: bool
  it_CertificatePath :: string
  it_KeyPath :: string
  it_ServerName :: string
  it_ALPN :: "string list"
  it_Reality :: "InboundRealityOptions option"

definition noTLS :: InboundTLSOptions where
  "noTLS = \<lparr>it_Enabled = False, it_CertificatePath = [], it_KeyPath = [], it_ServerName = [], it_ALPN = [],
     it_Reality = None\<rparr>"

record WebsocketOptions =
  wo_Path :: string
  wo_EarlyDataHeaderName :: string
  wo_MaxEarlyData :: int
  wo_Headers :: "(string, string list) gomap"

record V2RayTransportOptions =
  vt_Type :: string
  vt_HTTPOptions :: "(string list \<times> string \<times> string) option"
  vt_WebsocketOptions :: "WebsocketOptions option"
  vt_ServiceName :: string
  vt_HTTPUpgradeOptions :: "(string \<times> string) option"

definition transport :: "string \<Rightarrow> V2RayTransportOptions" where
  "transport t = \<lparr>vt_Type = t, vt_HTTPOptions = None, vt_WebsocketOptions = None, vt_ServiceName = [],
     vt_HTTPUpgradeOptions = None\<rparr>"

record ServerOptions =
  sv_Server :: string
  sv_ServerPort :: int

record ShadowsocksInboundOptions =
  si_Method :: string
  si_Password :: string
  si_Users :: "string list"

record TrojanInboundOptions =
  ti_Fallback :: "ServerOptions option"
  ti_FallbackForALPN :: "(string, ServerOptions) gomap option"

record Hysteria2InboundOptions =
  hi_UpMbps :: int
  hi_DownMbps :: int
  hi_IgnoreClientBandwidth :: bool
  hi_Obfs :: "(string \<times> string) option"

datatype inboundOptions =
    VLESSOptions V2RayTransportOptions
  | VMessOptions V2RayTransportOptions
  | ShadowsocksOptions ShadowsocksInboundOptions
  | TrojanOptions V2RayTransportOptions TrojanInboundOptions
  | TUICOptions string bool
  | AnyTLSOptions "string list"
  | HysteriaOptions int int string
  | Hysteria2Options Hysteria2InboundOptions

record Inbound =
  ib_Tag :: string
  ib_Type :: string
  ib_Listen :: ListenOptions
  ib_TLS :: InboundTLSOptions
  ib_Multiplex :: "InboundMultiplexOptions option"
  ib_Options :: "inboundOptions option"

record sing_decode =
  sd_addr :: "string \<Rightarrow> string res"
  sd_http :: "string \<Rightarrow> HttpNetworkConfig res"
  sd_request :: "string \<Rightarrow> HttpRequest res"
  sd_ws :: "string \<Rightarrow> WsNetworkConfig res"
  sd_url :: "string \<Rightarrow> (string \<times> string) res"
  sd_grpc :: "string \<Rightarrow> string res"
  sd_httpupgrade :: "string \<Rightarrow> (string \<times> string) res"
  sd_duration :: "string \<Rightarrow> int"
  sd_random :: "int \<Rightarrow> string"

section \<open>The parts of an inbound\<close>

definition listenOptions :: "string \<Rightarrow> CommonNode \<Rightarrow> SingOptions \<Rightarrow> ListenOptions" where
  "listenOptions addr cm so = \<lparr>li_Listen = addr, li_ListenPort = to_uint16 (cn_ServerPort cm),
     li_TCPFastOpen = so_TCPFastOpen so, li_SniffEnabled = so_SniffEnabled so,
     li_SniffOverrideDestination = so_SniffOverrideDestination so, li_DomainStrategy = so_DomainStrategy so\<rparr>"

definition multiplexOptions :: "SingOptions \<Rightarrow> InboundMultiplexOptions option" where
  "multiplexOptions so = map_option (\<lambda>m. \<lparr>im_Enabled = mx_Enabled m, im_Padding = mx_Padding m,
     im_BrutalEnabled = br_Enabled (mx_Brutal m), im_UpMbps = br_UpMbps (mx_Brutal m),
     im_DownMbps = br_DownMbps (mx_Brutal m)\<rparr>) (so_Multiplex so)"

definition realityTLS :: "(string \<Rightarrow> int) \<Rightarrow> VAllssNode \<Rightarrow> InboundTLSOptions" where
  "realityTLS duration v =
     (let ts = va_TlsSettings v; port = fst (atoi (ts_ServerPort ts));
          dest = (if ts_Dest ts \<noteq> [] then ts_Dest ts else ts_ServerName ts) in
      noTLS\<lparr>it_Enabled := True, it_ServerName := ts_ServerName ts,
        it_Reality := Some \<lparr>ry_Enabled = True, ry_ShortID = [ts_ShortId ts], ry_PrivateKey = ts_PrivateKey ts,
          ry_Xver = ts_Xver ts mod 256, ry_Server = dest, ry_ServerPort = to_uint16 port,
          ry_MaxTimeDifference = duration (rl_MaxTimeDiff (va_RealityConfig v))\<rparr>\<rparr>)"

definition singTLS :: "(string \<Rightarrow> int) \<Rightarrow> Options \<Rightarrow> NodeInfo \<Rightarrow> InboundTLSOptions res outcome" where
  "singTLS duration c info =
     (if ni_Security info = secTls then
        (case op_CertConfig c of
           None \<Rightarrow> Ret (Inl ''the CertConfig is not vail'')
         | Some cc \<Rightarrow> if cc_CertMode cc = ''none'' \<or> cc_CertMode cc = [] then Ret (Inr noTLS)
             else Ret (Inr (noTLS\<lparr>it_Enabled := True, it_CertificatePath := cc_CertFile cc,
               it_KeyPath := cc_KeyFile cc\<rparr>)))
      else if ni_Security info = secReality then
        (case ni_VAllss info of None \<Rightarrow> Panic | Some v \<Rightarrow> Ret (Inr (realityTLS duration v)))
      else Ret (Inr noTLS))"

text \<open>The tcp network of vmess and vless: plain, or the HTTP header with the request's first path.\<close>

definition tcpTransport :: "sing_decode \<Rightarrow> string \<Rightarrow> V2RayTransportOptions res outcome" where
  "tcpTransport E raw =
     (if raw = [] then Ret (Inr (transport []))
      else case sd_http E raw of
          Inl e \<Rightarrow> Ret (Inl (''decode NetworkSettings error: '' @ e))
        | Inr n \<Rightarrow>
            if hn_Type n \<noteq> ''http'' then Ret (Inr (transport []))
            else (case hn_Request n of
                None \<Rightarrow> Ret (Inr (transport ''http''))
              | Some rq \<Rightarrow> (case sd_request E rq of
                  Inl e \<Rightarrow> Ret (Inl (''decode HttpRequest error: '' @ e))
                | Inr r \<Rightarrow> (case hr_Path r of
                    [] \<Rightarrow> Panic
                  | p # ps \<Rightarrow> Ret (Inr ((transport ''http'')\<lparr>vt_HTTPOptions := Some (hr_Host r, p, hr_Method r)\<rparr>))))))"

text \<open>Early data: the \<open>ed\<close> parameter of the path, zero when it is no number.\<close>

definition wsTransport :: "sing_decode \<Rightarrow> string \<Rightarrow> V2RayTransportOptions res" where
  "wsTransport E raw =
     (let opts = (\<lambda>path ed headers. (transport ''ws'')\<lparr>vt_WebsocketOptions := Some \<lparr>wo_Path = path,
            wo_EarlyDataHeaderName = ''Sec-WebSocket-Protocol'', wo_MaxEarlyData = to_uint32 ed,
            wo_Headers = headers\<rparr>\<rparr>) in
      if raw = [] then Inr (opts [] 0 [])
      else case sd_ws E raw of
          Inl e \<Rightarrow> Inl (''decode NetworkSettings error: '' @ e)
        | Inr n \<Rightarrow> (case sd_url E (wn_Path n) of
            Inl e \<Rightarrow> Inl (''parse path error: '' @ e)
          | Inr (path, ed) \<Rightarrow>
              Inr (opts path (fst (atoi ed)) (map (\<lambda>(k, v). (k, [v])) (wn_Headers n)))))"

definition grpcTransport :: "sing_decode \<Rightarrow> string \<Rightarrow> V2RayTransportOptions res" where
  "grpcTransport E raw =
     (if raw = [] then Inr (transport ''grpc'')
      else case sd_grpc E raw of
          Inl e \<Rightarrow> Inl (''decode NetworkSettings error: '' @ e)
        | Inr name \<Rightarrow> Inr ((transport ''grpc'')\<lparr>vt_ServiceName := name\<rparr>))"

definition httpupgradeTransport :: "sing_decode \<Rightarrow> string \<Rightarrow> V2RayTransportOptions res" where
  "httpupgradeTransport E raw =
     (if raw = [] then Inr ((transport ''httpupgrade'')\<lparr>vt_HTTPUpgradeOptions := Some ([], [])\<rparr>)
      else case sd_httpupgrade E raw of
          Inl e \<Rightarrow> Inl (''decode NetworkSettings error: '' @ e)
        | Inr (path, host) \<Rightarrow> Inr ((transport ''httpupgrade'')\<lparr>vt_HTTPUpgradeOptions := Some (path, host)\<rparr>))"

text \<open>A network the switch does not name is passed on as it is for vmess and vless, and is plain tcp for
  trojan.\<close>

definition vallssTransport :: "sing_decode \<Rightarrow> VAllssNode \<Rightarrow> V2RayTransportOptions res outcome" where
  "vallssTransport E n =
     (let net = va_Network n; raw = va_NetworkSettings n in
      if net = ''tcp'' then tcpTransport E raw
      else if net = ''ws'' then Ret (wsTransport E raw)
      else if net = ''grpc'' then Ret (grpcTransport E raw)
      else if net = ''httpupgrade'' then Ret (httpupgradeTransport E raw)
      else Ret (Inr (transport net)))"

definition trojanTransport :: "sing_decode \<Rightarrow> TrojanNode \<Rightarrow> V2RayTransportOptions res" where
  "trojanTransport E n =
     (let net = tj_Network n; raw = tj_NetworkSettings n in
      if net = ''ws'' then wsTransport E raw
      else if net = ''grpc'' then grpcTransport E raw
      else Inr (transport []))"

definition ssInbound :: "sing_decode \<Rightarrow> ShadowsocksNode \<Rightarrow> ShadowsocksInboundOptions" where
  "ssInbound E n =
     (let keyLength = (if sh_Cipher n = ''2022-blake3-aes-256-gcm'' \<or> sh_Cipher n = ''2022-blake3-chacha20-poly1305''
            then 32 else 16);
          p = sd_random E keyLength in
      if contains (sh_Cipher n) ''2022''
      then \<lparr>si_Method = sh_Cipher n, si_Password = sh_ServerKey n, si_Users = [b64encode p]\<rparr>
      else \<lparr>si_Method = sh_Cipher n, si_Password = [], si_Users = [p]\<rparr>)"

text \<open>processFallback fills the map it is given; the caller uses it only when no port failed to parse.\<close>

fun processFallback :: "(string \<times> FallBack) list \<Rightarrow> (string, ServerOptions) gomap \<Rightarrow> (string, ServerOptions) gomap res" where
  "processFallback [] m = Inr m"
| "processFallback ((k, v) # fs) m =
     (case atoi (fb_ServerPort v) of
        (port, True) \<Rightarrow> Inl ''unable to parse fallbackForALPN server port error''
      | (port, False) \<Rightarrow>
          processFallback fs (mstore k \<lparr>sv_Server = fb_Server v, sv_ServerPort = to_uint16 port\<rparr> m))"

definition trojanFallback :: "SingOptions \<Rightarrow> TrojanInboundOptions" where
  "trojanFallback so =
     (case so_FallBackConfigs so of
        None \<Rightarrow> \<lparr>ti_Fallback = None, ti_FallbackForALPN = None\<rparr>
      | Some fc \<Rightarrow> \<lparr>
          ti_Fallback = (case atoi (fb_ServerPort (fs_FallBack fc)) of
             (port, True) \<Rightarrow> None
           | (port, False) \<Rightarrow> Some \<lparr>sv_Server = fb_Server (fs_FallBack fc), sv_ServerPort = to_uint16 port\<rparr>),
          ti_FallbackForALPN = (case processFallback (fs_FallBackForALPN fc) [] of
             Inl e \<Rightarrow> None | Inr m \<Rightarrow> Some m)\<rparr>)"

text \<open>An obfuscation type without password is taken for the password.\<close>

definition hysteria2Obfs :: "Hysteria2Node \<Rightarrow> (string \<times> string) option" where
  "hysteria2Obfs n =
     (if h2_ObfsType n \<noteq> [] \<and> h2_ObfsPassword n \<noteq> [] then Some (h2_ObfsType n, h2_ObfsPassword n)
      else if h2_ObfsType n \<noteq> [] then Some (''salamander'', h2_ObfsType n)
      else None)"

section \<open>getInboundOptions\<close>

text \<open>The protocols without a transport of their own: the type, the options, what is appended to the ALPN
  list.\<close>

definition plainOptions :: "NodeInfo \<Rightarrow> (string \<times> inboundOptions option \<times> string list) outcome" where
  "plainOptions info =
     (let t = ni_Type info in
      if t = ''tuic'' then
        (case ni_Tuic info of
           None \<Rightarrow> Panic
         | Some n \<Rightarrow> Ret (''tuic'', Some (TUICOptions (tu_CongestionControl n) (tu_ZeroRTTHandshake n)), [''h3'']))
      else if t = ''anytls'' then
        (case ni_AnyTls info of
           None \<Rightarrow> Panic | Some n \<Rightarrow> Ret (''anytls'', Some (AnyTLSOptions (an_PaddingScheme n)), []))
      else if t = ''hysteria'' then
        (case ni_Hysteria info of
           None \<Rightarrow> Panic
         | Some n \<Rightarrow> Ret (''hysteria'', Some (HysteriaOptions (h1_UpMbps n) (h1_DownMbps n) (h1_Obfs n)), []))
      else if t = ''hysteria2'' then
        (case ni_Hysteria2 info of
           None \<Rightarrow> Panic
         | Some n \<Rightarrow> Ret (''hysteria2'', Some (Hysteria2Options \<lparr>hi_UpMbps = h2_UpMbps n,
             hi_DownMbps = h2_DownMbps n, hi_IgnoreClientBandwidth = h2_Ignore_Client_Bandwidth n,
             hi_Obfs = hysteria2Obfs n\<rparr>), []))
      else Ret ([], None, []))"

text \<open>The part by protocol: the type, the options, what is appended to the ALPN list.\<close>

definition protocolOptions ::
  "sing_decode \<Rightarrow> NodeInfo \<Rightarrow> SingOptions \<Rightarrow> (string \<times> inboundOptions option \<times> string list) res outcome" where
  "protocolOptions E info so =
     (let t = ni_Type info in
      if t = ''vmess'' \<or> t = ''vless'' then
        (case ni_VAllss info of
           None \<Rightarrow> Panic
         | Some n \<Rightarrow> (case vallssTransport E n of
             Panic \<Rightarrow> Panic
           | Ret (Inl e) \<Rightarrow> Ret (Inl e)
           | Ret (Inr tr) \<Rightarrow>
               if t = ''vless'' then Ret (Inr (''vless'', Some (VLESSOptions tr), []))
               else Ret (Inr (''vmess'', Some (VMessOptions tr), []))))
      else if t = ''shadowsocks'' then
        (case ni_Shadowsocks info of
           None \<Rightarrow> Panic | Some n \<Rightarrow> Ret (Inr (''shadowsocks'', Some (ShadowsocksOptions (ssInbound E n)), [])))
      else if t = ''trojan'' then
        (case ni_Trojan info of
           None \<Rightarrow> Panic
         | Some n \<Rightarrow> (case trojanTransport E n of
             Inl e \<Rightarrow> Ret (Inl e)
           | Inr tr \<Rightarrow> Ret (Inr (''trojan'', Some (TrojanOptions tr (trojanFallback so)), []))))
      else (case plainOptions info of Panic \<Rightarrow> Panic | Ret r \<Rightarrow> Ret (Inr r)))"

definition getInboundOptions ::
  "sing_decode \<Rightarrow> string \<Rightarrow> NodeInfo \<Rightarrow> Options \<Rightarrow> Inbound res outcome" where
  "getInboundOptions E tag info c =
     (case sd_addr E (op_ListenIP c) of
        Inl e \<Rightarrow> Ret (Inl ''the listen ip not vail'')
      | Inr addr \<Rightarrow>
          (case (ni_Common info, op_SingOptions c) of
             (Some cm, Some so) \<Rightarrow>
               (case singTLS (sd_duration E) c info of
                  Panic \<Rightarrow> Panic
                | Ret (Inl e) \<Rightarrow> Ret (Inl e)
                | Ret (Inr tls) \<Rightarrow>
                    (case protocolOptions E info so of
                       Panic \<Rightarrow> Panic
                     | Ret (Inl e) \<Rightarrow> Ret (Inl e)
                     | Ret (Inr (t, opts, alpn)) \<Rightarrow> Ret (Inr \<lparr>ib_Tag = tag, ib_Type = t,
                         ib_Listen = listenOptions addr cm so, ib_TLS = tls\<lparr>it_ALPN := it_ALPN tls @ alpn\<rparr>,
                         ib_Multiplex = multiplexOptions so, ib_Options = opts\<rparr>)))
           | _ \<Rightarrow> Panic))"

section \<open>Nodes\<close>

definition Sing_AddNode ::
  "sing_decode \<Rightarrow> (string \<Rightarrow> Inbound \<Rightarrow> 'x \<Rightarrow> err \<times> 'x) \<Rightarrow> string \<Rightarrow> NodeInfo \<Rightarrow> Options \<Rightarrow> 'x Sing \<Rightarrow>
   (err \<times> 'x Sing) outcome" where
  "Sing_AddNode E create tag info config b =
     (let b = b\<lparr>sb_nodeReportMinTrafficBytes :=
            mstore tag (wrap64 (op_ReportMinTraffic config * 1024)) (sb_nodeReportMinTrafficBytes b)\<rparr> in
      case getInboundOptions E tag info config of
        Panic \<Rightarrow> Panic
      | Ret (Inl e) \<Rightarrow> Ret (Some e, b)
      | Ret (Inr c) \<Rightarrow> (case create tag c (sb_box b) of
          (Some e, x) \<Rightarrow> Ret (Some (''add inbound error: '' @ e), b\<lparr>sb_box := x\<rparr>)
        | (None, x) \<Rightarrow> Ret (None, b\<lparr>sb_box := x\<rparr>)))"

definition Sing_DelNode ::
  "(string \<Rightarrow> 'x \<Rightarrow> err \<times> 'x) \<Rightarrow> string \<Rightarrow> 'x Sing \<Rightarrow> (err \<times> 'x Sing) outcome" where
  "Sing_DelNode remove tag b =
     (case remove tag (sb_box b) of
        (Some e, x) \<Rightarrow> Ret (Some (''delete inbound error: '' @ e), b\<lparr>sb_box := x\<rparr>)
      | (None, x) \<Rightarrow> Ret (None, b\<lparr>sb_box := x\<rparr>))"

end
