(* ===== verification/Hy2_Config.thy ===== *)
theory Hy2_Config
  imports Panel
begin

text \<open>
  The server configuration of a hysteria2 node: core/hy2/serverConfig.go (the file format and its
  outbounds), core/hy2/config.go (TLS, QUIC, socket, bandwidth, sniffing, outbound chain, masquerade)
  and the GeoIP and GeoSite databases of core/hy2/geoloader.go.

  What the libraries make (outbounds, resolvers, handlers) is described by the constructor and its
  arguments; where a constructor can fail, its verdict is a field of \<open>hy2_env\<close>.  Durations are
  nanoseconds.  The sockets of the machine are the state \<open>'w\<close>.
\<close>

section \<open>The file format\<close>

record serverConfigObfsSalamander =
  os_Password :: string

record serverConfigObfs =
  ob_Type :: string
  ob_Salamander :: serverConfigObfsSalamander

record serverConfigTLS =
  st_Cert :: string
  st_Key :: string

record serverConfigACME =
  am_Domains :: "string list"
  am_Email :: string
  am_CA :: string
  am_DisableHTTP :: bool
  am_DisableTLSALPN :: bool
  am_AltHTTPPort :: int
  am_AltTLSALPNPort :: int
  am_Dir :: string

record serverConfigQUIC =
  sq_InitStreamReceiveWindow :: int
  sq_MaxStreamReceiveWindow :: int
  sq_InitConnectionReceiveWindow :: int
  sq_MaxConnectionReceiveWindow :: int
  sq_MaxIdleTimeout :: int
  sq_MaxIncomingStreams :: int
  sq_DisablePathMTUDiscovery :: bool

record serverConfigBandwidth =
  sw_Up :: string
  sw_Down :: string

record serverConfigAuthHTTP =
  ah_URL :: string
  ah_Insecure :: bool

record serverConfigAuth =
  au_Type :: string
  au_Password :: string
  au_UserPass :: "(string, string) gomap"
  au_HTTP :: serverConfigAuthHTTP
  au_Command :: string

record serverConfigResolverTCP =
  rt_Addr :: string
  rt_Timeout :: int

record serverConfigResolverUDP =
  ru_Addr :: string
  ru_Timeout :: int

record serverConfigResolverTLS =
  rs_Addr :: string
  rs_Timeout :: int
  rs_SNI :: string
  rs_Insecure :: bool

record serverConfigResolverHTTPS =
  rh_Addr :: string
  rh_Timeout :: int
  rh_SNI :: string
  rh_Insecure :: bool

record serverConfigResolver =
  rv_Type :: string
  rv_TCP :: serverConfigResolverTCP
  rv_UDP :: serverConfigResolverUDP
  rv_TLS :: serverConfigResolverTLS
  rv_HTTPS :: serverConfigResolverHTTPS

record serverConfigSniff =
  sf_Enable :: bool
  sf_Timeout :: int
  sf_RewriteDomain :: bool
  sf_TCPPorts :: string
  sf_UDPPorts :: string

record serverConfigACL =
  al_File :: string
  al_Inline :: "string list"
  al_GeoIP :: string
  al_GeoSite :: string
  al_GeoUpdateInterval :: int

record serverConfigOutboundDirect =
  od_Mode :: string
  od_BindIPv4 :: string
  od_BindIPv6 :: string
  od_BindDevice :: string

record serverConfigOutboundSOCKS5 =
  ok_Addr :: string
  ok_Username :: string
  ok_Password :: string

record serverConfigOutboundHTTP =
  oh_URL :: string
  oh_Insecure :: bool

record serverConfigOutboundEntry =
  oe_Name :: string
  oe_Type :: string
  oe_Direct :: serverConfigOutboundDirect
  oe_SOCKS5 :: serverConfigOutboundSOCKS5
  oe_HTTP :: serverConfigOutboundHTTP

record serverConfigTrafficStats =
  sx_Listen :: string
  sx_Secret :: string

record serverConfigMasqueradeFile =
  mf_Dir :: string

record serverConfigMasqueradeProxy =
  mp_URL :: string
  mp_RewriteHost :: bool

record serverConfigMasqueradeString =
  ms_Content :: string
  ms_Headers :: "(string, string) gomap"
  ms_StatusCode :: int

record serverConfigMasquerade =
  mq_Type :: string
  mq_File :: serverConfigMasqueradeFile
  mq_Proxy :: serverConfigMasqueradeProxy
  mq_String :: serverConfigMasqueradeString
  mq_ListenHTTP :: string
  mq_ListenHTTPS :: string
  mq_ForceHTTPS :: bool

record serverConfig =
  sc_Listen :: string
  sc_Obfs :: serverConfigObfs
  sc_TLS :: "serverConfigTLS option"
  sc_ACME :: "serverConfigACME option"
  sc_QUIC :: serverConfigQUIC
  sc_Bandwidth :: serverConfigBandwidth
  sc_IgnoreClientBandwidth :: bool
  sc_SpeedTest :: bool
  sc_DisableUDP :: bool
  sc_UDPIdleTimeout :: int
  sc_Auth :: serverConfigAuth
  sc_Resolver :: serverConfigResolver
  sc_Sniff :: serverConfigSniff
  sc_ACL :: serverConfigACL
  sc_Outbounds :: "serverConfigOutboundEntry list"
  sc_TrafficStats :: serverConfigTrafficStats
  sc_Masquerade :: serverConfigMasquerade

text \<open>The zero value, used when no file is named.\<close>

definition zeroServerConfig :: serverConfig where
  "zeroServerConfig = \<lparr>sc_Listen = [], sc_Obfs = \<lparr>ob_Type = [], ob_Salamander = \<lparr>os_Password = []\<rparr>\<rparr>,
     sc_TLS = None, sc_ACME = None,
     sc_QUIC = \<lparr>sq_InitStreamReceiveWindow = 0, sq_MaxStreamReceiveWindow = 0,
       sq_InitConnectionReceiveWindow = 0, sq_MaxConnectionReceiveWindow = 0, sq_MaxIdleTimeout = 0,
       sq_MaxIncomingStreams = 0, sq_DisablePathMTUDiscovery = False\<rparr>,
     sc_Bandwidth = \<lparr>sw_Up = [], sw_Down = []\<rparr>, sc_IgnoreClientBandwidth = False, sc_SpeedTest = False,
     sc_DisableUDP = False, sc_UDPIdleTimeout = 0,
     sc_Auth = \<lparr>au_Type = [], au_Password = [], au_UserPass = [],
       au_HTTP = \<lparr>ah_URL = [], ah_Insecure = False\<rparr>, au_Command = []\<rparr>,
     sc_Resolver = \<lparr>rv_Type = [], rv_TCP = \<lparr>rt_Addr = [], rt_Timeout = 0\<rparr>,
       rv_UDP = \<lparr>ru_Addr = [], ru_Timeout = 0\<rparr>,
       rv_TLS = \<lparr>rs_Addr = [], rs_Timeout = 0, rs_SNI = [], rs_Insecure = False\<rparr>,
       rv_HTTPS = \<lparr>rh_Addr = [], rh_Timeout = 0, rh_SNI = [], rh_Insecure = False\<rparr>\<rparr>,
     sc_Sniff = \<lparr>sf_Enable = False, sf_Timeout = 0, sf_RewriteDomain = False, sf_TCPPorts = [],
       sf_UDPPorts = []\<rparr>,
     sc_ACL = \<lparr>al_File = [], al_Inline = [], al_GeoIP = [], al_GeoSite = [], al_GeoUpdateInterval = 0\<rparr>,
     sc_Outbounds = [], sc_TrafficStats = \<lparr>sx_Listen = [], sx_Secret = []\<rparr>,
     sc_Masquerade = \<lparr>mq_Type = [], mq_File = \<lparr>mf_Dir = []\<rparr>,
       mq_Proxy = \<lparr>mp_URL = [], mp_RewriteHost = False\<rparr>,
       mq_String = \<lparr>ms_Content = [], ms_Headers = [], ms_StatusCode = 0\<rparr>,
       mq_ListenHTTP = [], mq_ListenHTTPS = [], mq_ForceHTTPS = False\<rparr>\<rparr>"

section \<open>What the libraries make\<close>

datatype directMode = ModeAuto | Mode64 | Mode46 | Mode6 | Mode4

record GeoConf =
  gc_GeoIPFilename :: string
  gc_GeoSiteFilename :: string
  gc_UpdateInterval :: int

datatype outbound =
    DirectSimple directMode
  | DirectBindToIPs directMode "string option" "string option"
  | DirectBindToDevice directMode string
  | SOCKS5Outbound string string string
  | HTTPOutbound string bool
  | ACLFromFile string "(string \<times> outbound) list" GeoConf
  | ACLFromString string "(string \<times> outbound) list" GeoConf
  | SystemResolver outbound
  | ResolverTCP string int outbound
  | ResolverUDP string int outbound
  | ResolverTLS string int string bool outbound
  | DoHResolver string int string bool outbound

record 'k TLSConfig =
  tl_Certificates :: "'k list"
  tl_GetCertificate :: "string \<times> string"

record QUICConfig =
  qc_InitialStreamReceiveWindow :: int
  qc_MaxStreamReceiveWindow :: int
  qc_InitialConnectionReceiveWindow :: int
  qc_MaxConnectionReceiveWindow :: int
  qc_MaxIdleTimeout :: int
  qc_MaxIncomingStreams :: int
  qc_DisablePathMTUDiscovery :: bool

datatype 'c packetConn = PlainConn 'c | SalamanderConn string 'c

record Sniffer =
  sn_Timeout :: int
  sn_RewriteDomain :: bool
  sn_TCPPorts :: "(int \<times> int) list option"
  sn_UDPPorts :: "(int \<times> int) list option"

datatype httpHandler =
    NotFoundHandler
  | FileServer string
  | ReverseProxy string string bool
  | StringHandler serverConfigMasqueradeString

record 'k MasqTCPServer =
  mt_QUICPort :: int
  mt_HTTPSPort :: int
  mt_Handler :: httpHandler
  mt_TLSConfig :: "'k TLSConfig"
  mt_ForceHTTPS :: bool
  mt_http :: string
  mt_https :: string

text \<open>server.Config; the authenticator and the two loggers are the core's and the node's own, and are
  left out.\<close>

record ('k, 'c) HyConfig =
  hc_TLSConfig :: "'k TLSConfig"
  hc_QUICConfig :: QUICConfig
  hc_Conn :: "'c packetConn"
  hc_RequestHook :: "Sniffer option"
  hc_Outbound :: outbound
  hc_MaxTx :: int
  hc_MaxRx :: int
  hc_IgnoreClientBandwidth :: bool
  hc_DisableUDP :: bool
  hc_UDPIdleTimeout :: int
  hc_MasqHandler :: httpHandler
  hc_masqServer :: "'k MasqTCPServer option"

record ('k, 'c, 'w) hy2_env =
  he_keyPair :: "string \<Rightarrow> string \<Rightarrow> 'k res"
  he_resolveUDP :: "string \<Rightarrow> string res"
  he_listenUDP :: "string \<Rightarrow> 'w \<Rightarrow> 'c res \<times> 'w"
  he_localAddr :: "'c \<Rightarrow> string"
  he_salamander :: "string \<Rightarrow> err"
  he_ports :: "string \<Rightarrow> (int \<times> int) list option"
  he_outbound :: "outbound \<Rightarrow> err"
  he_parseIP :: "string \<Rightarrow> string option"
  he_parseURL :: "string \<Rightarrow> (string \<times> string) res"

text \<open>A constructor that may fail.\<close>

definition made :: "('k, 'c, 'w) hy2_env \<Rightarrow> outbound \<Rightarrow> outbound res" where
  "made E x = (case he_outbound E x of None \<Rightarrow> Inr x | Some e \<Rightarrow> Inl e)"

section \<open>Outbounds of the file\<close>

definition directModeOf :: "string \<Rightarrow> directMode option" where
  "directModeOf m =
     (let m = to_lower m in
      if m = [] \<or> m = ''auto'' then Some ModeAuto
      else if m = ''64'' then Some Mode64
      else if m = ''46'' then Some Mode46
      else if m = ''6'' then Some Mode6
      else if m = ''4'' then Some Mode4
      else None)"

definition serverConfigOutboundDirectToOutbound ::
  "('k, 'c, 'w) hy2_env \<Rightarrow> serverConfigOutboundDirect \<Rightarrow> outbound res" where
  "serverConfigOutboundDirectToOutbound E c =
     (case directModeOf (od_Mode c) of
        None \<Rightarrow> Inl ''outbounds.direct.mode unsupported mode''
      | Some mode \<Rightarrow>
          let bindIP = od_BindIPv4 c \<noteq> [] \<or> od_BindIPv6 c \<noteq> []; bindDevice = od_BindDevice c \<noteq> [] in
          if bindIP \<and> bindDevice then Inl ''outbounds.direct cannot bind both IP and device''
          else if bindIP then
            (let ip4 = he_parseIP E (od_BindIPv4 c); ip6 = he_parseIP E (od_BindIPv6 c) in
             if od_BindIPv4 c \<noteq> [] \<and> ip4 = None then Inl ''outbounds.direct.bindIPv4 invalid IPv4 address''
             else if od_BindIPv6 c \<noteq> [] \<and> ip6 = None then Inl ''outbounds.direct.bindIPv6 invalid IPv6 address''
             else made E (DirectBindToIPs mode ip4 ip6))
          else if bindDevice then made E (DirectBindToDevice mode (od_BindDevice c))
          else Inr (DirectSimple mode))"

definition serverConfigOutboundSOCKS5ToOutbound :: "serverConfigOutboundSOCKS5 \<Rightarrow> outbound res" where
  "serverConfigOutboundSOCKS5ToOutbound c =
     (if ok_Addr c = [] then Inl ''outbounds.socks5.addr empty socks5 address''
      else Inr (SOCKS5Outbound (ok_Addr c) (ok_Username c) (ok_Password c)))"

definition serverConfigOutboundHTTPToOutbound ::
  "('k, 'c, 'w) hy2_env \<Rightarrow> serverConfigOutboundHTTP \<Rightarrow> outbound res" where
  "serverConfigOutboundHTTPToOutbound E c =
     (if oh_URL c = [] then Inl ''outbounds.http.url empty http address''
      else made E (HTTPOutbound (oh_URL c) (oh_Insecure c)))"

definition entryOutbound :: "('k, 'c, 'w) hy2_env \<Rightarrow> serverConfigOutboundEntry \<Rightarrow> outbound res" where
  "entryOutbound E entry =
     (if oe_Name entry = [] then Inl ''empty outbound name''
      else let t = to_lower (oe_Type entry) in
        if t = ''direct'' then serverConfigOutboundDirectToOutbound E (oe_Direct entry)
        else if t = ''socks5'' then serverConfigOutboundSOCKS5ToOutbound (oe_SOCKS5 entry)
        else if t = ''http'' then serverConfigOutboundHTTPToOutbound E (oe_HTTP entry)
        else Inl ''outbounds.type unsupported outbound type'')"

fun outboundEntries ::
  "('k, 'c, 'w) hy2_env \<Rightarrow> serverConfigOutboundEntry list \<Rightarrow> (string \<times> outbound) list res" where
  "outboundEntries E [] = Inr []"
| "outboundEntries E (e # es) =
     (case entryOutbound E e of
        Inl x \<Rightarrow> Inl x
      | Inr o1 \<Rightarrow> (case outboundEntries E es of Inl x \<Rightarrow> Inl x | Inr obs \<Rightarrow> Inr ((oe_Name e, o1) # obs)))"

section \<open>The parts of the configuration\<close>

definition getTLSConfig :: "('k, 'c, 'w) hy2_env \<Rightarrow> Options \<Rightarrow> 'k TLSConfig res" where
  "getTLSConfig E config =
     (case op_CertConfig config of
        None \<Rightarrow> Inl ''the CertConfig is not vail''
      | Some cc \<Rightarrow>
          if cc_CertMode cc = ''none'' \<or> cc_CertMode cc = [] then Inl ''the CertMode cannot be none''
          else (case he_keyPair E (cc_CertFile cc) (cc_KeyFile cc) of
              Inl e \<Rightarrow> Inl e
            | Inr cert \<Rightarrow> Inr \<lparr>tl_Certificates = [cert], tl_GetCertificate = (cc_CertFile cc, cc_KeyFile cc)\<rparr>))"

definition defaultStreamReceiveWindow :: int where "defaultStreamReceiveWindow = 8388608"
definition defaultConnReceiveWindow :: int where "defaultConnReceiveWindow = 20971520"
definition defaultMaxIdleTimeout :: int where "defaultMaxIdleTimeout = 30 * 1000000000"
definition defaultMaxIncomingStreams :: int where "defaultMaxIncomingStreams = 4096"

text \<open>One field: the default when it is not set, an error below the least value.\<close>

definition windowOr :: "int \<Rightarrow> int \<Rightarrow> goerr \<Rightarrow> int \<Rightarrow> int res" where
  "windowOr dflt least e v = (if v = 0 then Inr dflt else if v < least then Inl e else Inr v)"

text \<open>The first branch stores into the connection window, which the third one stores into again.\<close>

definition getQUICConfig :: "serverConfig \<Rightarrow> QUICConfig res" where
  "getQUICConfig config =
     (let q = sc_QUIC config in
      if sq_InitStreamReceiveWindow q \<noteq> 0 \<and> sq_InitStreamReceiveWindow q < 16384
      then Inl ''QUICConfig.InitialStreamReceiveWindowf must be at least 16384''
      else case windowOr defaultStreamReceiveWindow 16384 ''QUICConfig.MaxStreamReceiveWindowf must be at least 16384''
             (sq_MaxStreamReceiveWindow q) of
        Inl e \<Rightarrow> Inl e
      | Inr maxStream \<Rightarrow>
      (case windowOr defaultConnReceiveWindow 16384 ''QUICConfig.InitialConnectionReceiveWindowf must be at least 16384''
             (sq_InitConnectionReceiveWindow q) of
        Inl e \<Rightarrow> Inl e
      | Inr initConn \<Rightarrow>
      (case windowOr defaultConnReceiveWindow 16384 ''QUICConfig.MaxConnectionReceiveWindowf must be at least 16384''
             (sq_MaxConnectionReceiveWindow q) of
        Inl e \<Rightarrow> Inl e
      | Inr maxConn \<Rightarrow>
      if sq_MaxIdleTimeout q \<noteq> 0 \<and> (sq_MaxIdleTimeout q < 4 * 1000000000 \<or> sq_MaxIdleTimeout q > 120 * 1000000000)
      then Inl ''QUICConfig.MaxIdleTimeoutf must be between 4s and 120s''
      else case windowOr defaultMaxIncomingStreams 8 ''QUICConfig.MaxIncomingStreamsf must be at least 8''
             (sq_MaxIncomingStreams q) of
        Inl e \<Rightarrow> Inl e
      | Inr streams \<Rightarrow> Inr \<lparr>
          qc_InitialStreamReceiveWindow = (if sq_InitStreamReceiveWindow q = 0 then defaultStreamReceiveWindow else 0),
          qc_MaxStreamReceiveWindow = maxStream,
          qc_InitialConnectionReceiveWindow = initConn,
          qc_MaxConnectionReceiveWindow = maxConn,
          qc_MaxIdleTimeout = (if sq_MaxIdleTimeout q = 0 then defaultMaxIdleTimeout else sq_MaxIdleTimeout q),
          qc_MaxIncomingStreams = streams,
          qc_DisablePathMTUDiscovery = False\<rparr>)))"

definition formatAddress :: "string \<Rightarrow> int \<Rightarrow> string" where
  "formatAddress ip port =
     (if contains ip '':'' then ''['' @ ip @ '']:'' @ itoa port else ip @ '':'' @ itoa port)"

text \<open>The socket is open from ListenUDP on; an unknown obfuscation leaves it open.\<close>

definition getConn ::
  "('k, 'c, 'w) hy2_env \<Rightarrow> NodeInfo \<Rightarrow> Options \<Rightarrow> 'w \<Rightarrow> ('c packetConn res \<times> 'w) outcome" where
  "getConn E info config w =
     (case ni_Common info of
        None \<Rightarrow> Panic
      | Some cm \<Rightarrow>
          (case he_resolveUDP E (formatAddress (op_ListenIP config) (cn_ServerPort cm)) of
             Inl e \<Rightarrow> Ret (Inl e, w)
           | Inr uAddr \<Rightarrow>
               (case he_listenUDP E uAddr w of
                  (Inl e, w) \<Rightarrow> Ret (Inl e, w)
                | (Inr conn, w) \<Rightarrow>
                    (case ni_Hysteria2 info of
                       None \<Rightarrow> Panic
                     | Some n \<Rightarrow>
                         let t = to_lower (h2_ObfsType n) in
                         if t = [] \<or> t = ''plain'' then Ret (Inr (PlainConn conn), w)
                         else if t = ''salamander'' then
                           (case he_salamander E (h2_ObfsPassword n) of
                              Some e \<Rightarrow> Ret (Inl e, w)
                            | None \<Rightarrow> Ret (Inr (SalamanderConn (h2_ObfsPassword n) conn), w))
                         else Ret (Inl ''unsupported obfuscation type'', w)))))"

text \<open>Bytes per second of a limit in Mbit/s.\<close>

definition bandwidthOf :: "int \<Rightarrow> int" where
  "bandwidthOf mbps = (if mbps \<noteq> 0 then to_uint64 (go_div (wrap64 (mbps * 1000000)) 8) else 0)"

definition getBandwidthConfig :: "Hysteria2Node \<Rightarrow> int \<times> int" where
  "getBandwidthConfig n = (bandwidthOf (h2_UpMbps n), bandwidthOf (h2_DownMbps n))"

definition portsOf :: "('k, 'c, 'w) hy2_env \<Rightarrow> goerr \<Rightarrow> string \<Rightarrow> (int \<times> int) list option res" where
  "portsOf E e s = (if s = [] then Inr None else case he_ports E s of None \<Rightarrow> Inl e | Some p \<Rightarrow> Inr (Some p))"

definition getRequestHook :: "('k, 'c, 'w) hy2_env \<Rightarrow> serverConfig \<Rightarrow> Sniffer option res" where
  "getRequestHook E c =
     (let s = sc_Sniff c in
      if sf_Enable s then
        (case portsOf E ''sniff.tcpPorts: invalid port union'' (sf_TCPPorts s) of
           Inl e \<Rightarrow> Inl e
         | Inr tcp \<Rightarrow> (case portsOf E ''sniff.udpPorts: invalid port union'' (sf_UDPPorts s) of
             Inl e \<Rightarrow> Inl e
           | Inr udp \<Rightarrow> Inr (Some \<lparr>sn_Timeout = sf_Timeout s, sn_RewriteDomain = sf_RewriteDomain s,
               sn_TCPPorts = tcp, sn_UDPPorts = udp\<rparr>)))
      else Inr None)"

text \<open>The chain of outbounds: resolver over access list over the entries.\<close>

definition configuredOutbounds :: "('k, 'c, 'w) hy2_env \<Rightarrow> serverConfig \<Rightarrow> (string \<times> outbound) list res" where
  "configuredOutbounds E c =
     (if sc_Outbounds c = [] then Inr [(''default'', DirectSimple ModeAuto)] else outboundEntries E (sc_Outbounds c))"

definition geoConf :: "serverConfig \<Rightarrow> GeoConf" where
  "geoConf c = \<lparr>gc_GeoIPFilename = al_GeoIP (sc_ACL c), gc_GeoSiteFilename = al_GeoSite (sc_ACL c),
     gc_UpdateInterval = al_GeoUpdateInterval (sc_ACL c)\<rparr>"

definition accessList ::
  "('k, 'c, 'w) hy2_env \<Rightarrow> serverConfig \<Rightarrow> (string \<times> outbound) list \<Rightarrow> (bool \<times> outbound) res" where
  "accessList E c obs =
     (let acl = sc_ACL c in
      if al_File acl \<noteq> [] \<and> al_Inline acl \<noteq> [] then Inl ''cannot set both acl.file and acl.inline''
      else if al_File acl \<noteq> [] then
        (case made E (ACLFromFile (al_File acl) obs (geoConf c)) of Inl e \<Rightarrow> Inl e | Inr o1 \<Rightarrow> Inr (True, o1))
      else if al_Inline acl \<noteq> [] then
        (case made E (ACLFromString (join_with [CHR 0x0A] (al_Inline acl)) obs (geoConf c)) of
           Inl e \<Rightarrow> Inl e | Inr o1 \<Rightarrow> Inr (True, o1))
      else Inr (False, snd (hd obs)))"

definition resolveWith :: "serverConfigResolver \<Rightarrow> bool \<Rightarrow> outbound \<Rightarrow> outbound res" where
  "resolveWith r hasACL uOb =
     (let t = to_lower (rv_Type r); empty = Inl ''empty resolver address'' in
      if t = [] \<or> t = ''system'' then Inr (if hasACL then SystemResolver uOb else uOb)
      else if t = ''tcp'' then
        (if rt_Addr (rv_TCP r) = [] then empty else Inr (ResolverTCP (rt_Addr (rv_TCP r)) (rt_Timeout (rv_TCP r)) uOb))
      else if t = ''udp'' then
        (if ru_Addr (rv_UDP r) = [] then empty else Inr (ResolverUDP (ru_Addr (rv_UDP r)) (ru_Timeout (rv_UDP r)) uOb))
      else if t = ''tls'' \<or> t = ''tcp-tls'' then
        (if rs_Addr (rv_TLS r) = [] then empty
         else Inr (ResolverTLS (rs_Addr (rv_TLS r)) (rs_Timeout (rv_TLS r)) (rs_SNI (rv_TLS r)) (rs_Insecure (rv_TLS r)) uOb))
      else if t = ''https'' \<or> t = ''http'' then
        (if rh_Addr (rv_HTTPS r) = [] then empty
         else Inr (DoHResolver (rh_Addr (rv_HTTPS r)) (rh_Timeout (rv_HTTPS r)) (rh_SNI (rv_HTTPS r)) (rh_Insecure (rv_HTTPS r)) uOb))
      else Inl ''unsupported resolver type'')"

definition getOutboundConfig :: "('k, 'c, 'w) hy2_env \<Rightarrow> serverConfig \<Rightarrow> outbound res" where
  "getOutboundConfig E c =
     (case configuredOutbounds E c of
        Inl e \<Rightarrow> Inl e
      | Inr obs \<Rightarrow> (case accessList E c obs of
          Inl e \<Rightarrow> Inl e
        | Inr (hasACL, uOb) \<Rightarrow> resolveWith (sc_Resolver c) hasACL uOb))"

section \<open>Masquerade\<close>

text \<open>net.SplitHostPort: host and port, or an error.\<close>

definition splitAtLast :: "char \<Rightarrow> string \<Rightarrow> (string \<times> string) option" where
  "splitAtLast c s =
     (if c \<in> set s then Some (rev (tl (dropWhile (\<lambda>x. x \<noteq> c) (rev s))), rev (takeWhile (\<lambda>x. x \<noteq> c) (rev s)))
      else None)"

definition SplitHostPort :: "string \<Rightarrow> (string \<times> string) res" where
  "SplitHostPort s =
     (case splitAtLast (CHR '':'') s of
        None \<Rightarrow> Inl ''missing port in address''
      | Some (before, port) \<Rightarrow>
          if has_prefix s ''['' then
            (let inner = takeWhile (\<lambda>x. x \<noteq> CHR '']'') (tl s); rest = dropWhile (\<lambda>x. x \<noteq> CHR '']'') (tl s) in
             case rest of
               [] \<Rightarrow> Inl ''missing ']' in address''
             | _ # [] \<Rightarrow> Inl ''missing port in address''
             | _ # x # _ \<Rightarrow>
                 if length before = length inner + 2 then
                   (if CHR ''['' \<in> set (tl s) then Inl ''unexpected '[' in address''
                    else if CHR '']'' \<in> set (tl rest) then Inl ''unexpected ']' in address''
                    else Inr (inner, port))
                 else if x = CHR '':'' then Inl ''too many colons in address''
                 else Inl ''missing port in address'')
          else if CHR '':'' \<in> set before then Inl ''too many colons in address''
          else if CHR ''['' \<in> set s then Inl ''unexpected '[' in address''
          else if CHR '']'' \<in> set s then Inl ''unexpected ']' in address''
          else Inr (before, port))"

definition extractPortFromAddr :: "string \<Rightarrow> int" where
  "extractPortFromAddr addr =
     (case SplitHostPort addr of
        Inl e \<Rightarrow> 0
      | Inr (_, portStr) \<Rightarrow> (case atoi portStr of (port, True) \<Rightarrow> 0 | (port, False) \<Rightarrow> port))"

definition masqHandler ::
  "('k, 'c, 'w) hy2_env \<Rightarrow> serverConfigMasquerade \<Rightarrow> httpHandler res" where
  "masqHandler E m =
     (let t = to_lower (mq_Type m) in
      if t = [] \<or> t = ''404'' then Inr NotFoundHandler
      else if t = ''file'' then
        (if mf_Dir (mq_File m) = [] then Inl ''masquerade.file.dir empty file directory''
         else Inr (FileServer (mf_Dir (mq_File m))))
      else if t = ''proxy'' then
        (if mp_URL (mq_Proxy m) = [] then Inl ''masquerade.proxy.url empty proxy url''
         else (case he_parseURL E (mp_URL (mq_Proxy m)) of
             Inl e \<Rightarrow> Inl (''masquerade.proxy.url '' @ e)
           | Inr (scheme, host) \<Rightarrow> Inr (ReverseProxy scheme host (mp_RewriteHost (mq_Proxy m)))))
      else if t = ''string'' then
        (let x = mq_String m in
         if ms_Content x = [] then Inl ''masquerade.string.content empty string content''
         else if ms_StatusCode x \<noteq> 0 \<and>
             (ms_StatusCode x < 200 \<or> ms_StatusCode x > 599 \<or> ms_StatusCode x = 233)
         then Inl ''masquerade.string.statusCode invalid status code (must be 200-599, except 233)''
         else Inr (StringHandler x))
      else Inl ''masquerade.type unsupported masquerade type'')"

text \<open>The handler, and the TCP server that is started for it when the file asks for one.\<close>

definition getMasqHandler ::
  "('k, 'c, 'w) hy2_env \<Rightarrow> 'k TLSConfig \<Rightarrow> 'c \<Rightarrow> serverConfig \<Rightarrow> (httpHandler \<times> 'k MasqTCPServer option) res" where
  "getMasqHandler E tlsconfig conn c =
     (let m = sc_Masquerade c in
      case masqHandler E m of
        Inl e \<Rightarrow> Inl e
      | Inr handler \<Rightarrow>
          if mq_ListenHTTP m \<noteq> [] \<or> mq_ListenHTTPS m \<noteq> [] then
            (if mq_ListenHTTP m \<noteq> [] \<and> mq_ListenHTTPS m = []
             then Inl ''masquerade.listenHTTPS having only HTTP server without HTTPS is not supported''
             else Inr (handler, Some \<lparr>mt_QUICPort = extractPortFromAddr (he_localAddr E conn),
               mt_HTTPSPort = extractPortFromAddr (mq_ListenHTTPS m), mt_Handler = handler,
               mt_TLSConfig = tlsconfig, mt_ForceHTTPS = mq_ForceHTTPS m,
               mt_http = mq_ListenHTTP m, mt_https = mq_ListenHTTPS m\<rparr>))
          else Inr (handler, None))"

text \<open>What the string handler answers: the header with the configured entries set, status and body.
  \<open>canon\<close> is the canonical form of a header name.\<close>

definition serveString ::
  "(string \<Rightarrow> string) \<Rightarrow> serverConfigMasqueradeString \<Rightarrow> (string, string) gomap \<Rightarrow> (string, string) gomap \<times> int \<times> string" where
  "serveString canon x header =
     (fold (\<lambda>(k, v). mstore (canon k) v) (ms_Headers x) header,
      if ms_StatusCode x \<noteq> 0 then ms_StatusCode x else 200, ms_Content x)"

text \<open>The request the reverse proxy sends on: the target, the client added to X-Forwarded-For.\<close>

record proxyRequest =
  pr_Scheme :: string
  pr_URLHost :: string
  pr_Host :: string
  pr_RemoteAddr :: string
  pr_Header :: "(string, string) gomap"

definition forwardedFor :: "proxyRequest \<Rightarrow> (string, string) gomap" where
  "forwardedFor rq =
     (case SplitHostPort (pr_RemoteAddr rq) of
        Inl e \<Rightarrow> pr_Header rq
      | Inr (clientIP, _) \<Rightarrow>
          let xff = (case map_of (pr_Header rq) ''X-Forwarded-For'' of None \<Rightarrow> [] | Some v \<Rightarrow> v) in
          mstore ''X-Forwarded-For'' (if xff \<noteq> [] then xff @ '', '' @ clientIP else clientIP) (pr_Header rq))"

definition director :: "string \<Rightarrow> string \<Rightarrow> bool \<Rightarrow> proxyRequest \<Rightarrow> proxyRequest" where
  "director scheme host rewriteHost rq =
     (let rq = rq\<lparr>pr_Scheme := scheme, pr_URLHost := host, pr_Header := forwardedFor rq\<rparr> in
      if rewriteHost then rq\<lparr>pr_Host := pr_URLHost rq\<rparr> else rq)"

text \<open>The listeners runMasqTCPServer starts; the first of them to end ends the process if it ends with an
  error.\<close>

definition masqListeners :: "'k MasqTCPServer \<Rightarrow> (bool \<times> string) list" where
  "masqListeners s =
     (if mt_http s \<noteq> [] then [(False, mt_http s)] else []) @
     (if mt_https s \<noteq> [] then [(True, mt_https s)] else [])"

definition runMasqTCPServer :: "((bool \<times> string) \<Rightarrow> err) \<Rightarrow> (bool \<times> string) \<Rightarrow> unit outcome" where
  "runMasqTCPServer serve first = (case serve first of None \<Rightarrow> Ret () | Some e \<Rightarrow> Panic)"

section \<open>getHyConfig\<close>

fun connOf :: "'c packetConn \<Rightarrow> 'c" where
  "connOf (PlainConn c) = c"
| "connOf (SalamanderConn p c) = c"

definition getHyConfig ::
  "('k, 'c, 'w) hy2_env \<Rightarrow> NodeInfo \<Rightarrow> Options \<Rightarrow> serverConfig \<Rightarrow> 'w \<Rightarrow> (('k, 'c) HyConfig res \<times> 'w) outcome" where
  "getHyConfig E info config c w =
     (case getTLSConfig E config of
        Inl e \<Rightarrow> Ret (Inl e, w)
      | Inr tls \<Rightarrow> (case getQUICConfig c of
          Inl e \<Rightarrow> Ret (Inl e, w)
        | Inr quic \<Rightarrow> (case getConn E info config w of
            Panic \<Rightarrow> Panic
          | Ret (Inl e, w) \<Rightarrow> Ret (Inl e, w)
          | Ret (Inr conn, w) \<Rightarrow> (case getRequestHook E c of
              Inl e \<Rightarrow> Ret (Inl e, w)
            | Inr sniff \<Rightarrow> (case getOutboundConfig E c of
                Inl e \<Rightarrow> Ret (Inl e, w)
              | Inr ob \<Rightarrow> (case getMasqHandler E tls (connOf conn) c of
                  Inl e \<Rightarrow> Ret (Inl e, w)
                | Inr (masq, srv) \<Rightarrow> (case ni_Hysteria2 info of
                    None \<Rightarrow> Panic
                  | Some n \<Rightarrow> Ret (Inr \<lparr>hc_TLSConfig = tls, hc_QUICConfig = quic, hc_Conn = conn,
                      hc_RequestHook = sniff, hc_Outbound = ob, hc_MaxTx = fst (getBandwidthConfig n),
                      hc_MaxRx = snd (getBandwidthConfig n),
                      hc_IgnoreClientBandwidth = h2_Ignore_Client_Bandwidth n,
                      hc_DisableUDP = sc_DisableUDP c, hc_UDPIdleTimeout = sc_UDPIdleTimeout c,
                      hc_MasqHandler = masq, hc_masqServer = srv\<rparr>, w))))))))"

section \<open>Lemmas\<close>

text \<open>An address made of an IP without brackets and a port splits into the two again.\<close>

lemma splitAtLast_append: "c \<notin> set p \<Longrightarrow> splitAtLast c (a @ c # p) = Some (a, p)"
proof -
  assume c: "c \<notin> set p"
  have t: "takeWhile (\<lambda>x. x \<noteq> c) (rev p @ c # rev a) = rev p"
    using c by (subst takeWhile_append2) auto
  have d: "dropWhile (\<lambda>x. x \<noteq> c) (rev p @ c # rev a) = c # rev a"
    using c by (subst dropWhile_append2) auto
  show ?thesis using t d by (simp add: splitAtLast_def)
qed

lemma itoa_chars: "x \<in> set (itoa n) \<Longrightarrow> x \<notin> {CHR '':'', CHR ''['', CHR '']''}"
  using digits_of_digit [of x "nat (- n)"] digits_of_digit [of x "nat n"]
  by (auto simp: itoa_def split: if_splits)

lemma contains_char: "contains s [c] \<longleftrightarrow> c \<in> set s"
  by (induction s) (auto simp: has_prefix_iff)

lemma SplitHostPort_formatAddress:
  assumes "CHR ''['' \<notin> set ip" "CHR '']'' \<notin> set ip"
  shows "SplitHostPort (formatAddress ip port) = Inr (ip, itoa port)"
proof (cases "CHR '':'' \<in> set ip")
  case False
  have "splitAtLast (CHR '':'') (ip @ '':'' @ itoa port) = Some (ip, itoa port)"
    using splitAtLast_append [of "CHR '':''" "itoa port" ip] itoa_chars [of "CHR '':''" port] by auto
  moreover have "\<not> has_prefix (ip @ '':'' @ itoa port) ''[''"
    using assms(1) by (cases ip) (auto simp: has_prefix_iff)
  ultimately show ?thesis
    using False assms itoa_chars [of _ port] by (auto simp: SplitHostPort_def formatAddress_def contains_char)
next
  case True
  let ?s = "''['' @ ip @ '']:'' @ itoa port"
  have "splitAtLast (CHR '':'') ((''['' @ ip @ '']'') @ CHR '':'' # itoa port) = Some (''['' @ ip @ '']'', itoa port)"
    by (rule splitAtLast_append) (use itoa_chars [of "CHR '':''" port] in auto)
  then have sp: "splitAtLast (CHR '':'') ?s = Some (''['' @ ip @ '']'', itoa port)"
    by simp
  have tw: "takeWhile (\<lambda>x. x \<noteq> CHR '']'') (tl ?s) = ip"
    "dropWhile (\<lambda>x. x \<noteq> CHR '']'') (tl ?s) = '']:'' @ itoa port"
  proof -
    have "\<And>x. x \<in> set ip \<Longrightarrow> x \<noteq> CHR '']''"
      using assms(2) by blast
    then show "takeWhile (\<lambda>x. x \<noteq> CHR '']'') (tl ?s) = ip"
      "dropWhile (\<lambda>x. x \<noteq> CHR '']'') (tl ?s) = '']:'' @ itoa port"
      by (simp_all add: takeWhile_append2 dropWhile_append2)
  qed
  have "has_prefix ?s ''[''"
    by (simp add: has_prefix_iff)
  moreover have "CHR ''['' \<notin> set (tl ?s)" "CHR '']'' \<notin> set ('':'' @ itoa port)"
    using assms itoa_chars [of _ port] by auto
  ultimately show ?thesis
    using True sp tw by (simp add: SplitHostPort_def formatAddress_def contains_char Let_def)
qed

section \<open>Properties\<close>

text \<open>The address a node listens on, an IPv6 address in brackets, splits again into the listen address
  and the port, so the masquerade server learns the right QUIC port from it.\<close>

theorem formatAddress_roundtrip:
  assumes "CHR ''['' \<notin> set ip" "CHR '']'' \<notin> set ip" "in_int64 port"
  shows "SplitHostPort (formatAddress ip port) = Inr (ip, itoa port) \<and>
    extractPortFromAddr (formatAddress ip port) = port"
  using SplitHostPort_formatAddress [OF assms(1,2)] atoi_itoa [OF assms(3)]
  by (simp add: extractPortFromAddr_def)

lemma windowOr_Inr:
  assumes "windowOr d least e v = Inr x"
  shows "x = (if v = 0 then d else v)" "least \<le> d \<Longrightarrow> least \<le> x"
  using assms by (auto simp: windowOr_def split: if_split_asm)

text \<open>The QUIC parameters of a hysteria2 node: every one of them is the configured value, or the
  default when the file leaves it out, and lies within its bounds, except the initial stream window:
  when the file sets it, it is dropped and stays zero.\<close>

theorem getQUICConfig_spec:
  assumes "getQUICConfig c = Inr k"
  shows "qc_InitialStreamReceiveWindow k = (if sq_InitStreamReceiveWindow (sc_QUIC c) = 0 then 8388608 else 0) \<and>
    qc_MaxStreamReceiveWindow k = (if sq_MaxStreamReceiveWindow (sc_QUIC c) = 0 then 8388608
      else sq_MaxStreamReceiveWindow (sc_QUIC c)) \<and>
    qc_InitialConnectionReceiveWindow k = (if sq_InitConnectionReceiveWindow (sc_QUIC c) = 0 then 20971520
      else sq_InitConnectionReceiveWindow (sc_QUIC c)) \<and>
    qc_MaxConnectionReceiveWindow k = (if sq_MaxConnectionReceiveWindow (sc_QUIC c) = 0 then 20971520
      else sq_MaxConnectionReceiveWindow (sc_QUIC c)) \<and>
    16384 \<le> qc_MaxStreamReceiveWindow k \<and> 16384 \<le> qc_InitialConnectionReceiveWindow k \<and>
    16384 \<le> qc_MaxConnectionReceiveWindow k \<and>
    4 * 1000000000 \<le> qc_MaxIdleTimeout k \<and> qc_MaxIdleTimeout k \<le> 120 * 1000000000 \<and>
    8 \<le> qc_MaxIncomingStreams k"
proof -
  let ?q = "sc_QUIC c"
  obtain w1 w2 w3 n where w: "windowOr defaultStreamReceiveWindow 16384 ''QUICConfig.MaxStreamReceiveWindowf must be at least 16384''
      (sq_MaxStreamReceiveWindow ?q) = Inr w1"
    "windowOr defaultConnReceiveWindow 16384 ''QUICConfig.InitialConnectionReceiveWindowf must be at least 16384''
      (sq_InitConnectionReceiveWindow ?q) = Inr w2"
    "windowOr defaultConnReceiveWindow 16384 ''QUICConfig.MaxConnectionReceiveWindowf must be at least 16384''
      (sq_MaxConnectionReceiveWindow ?q) = Inr w3"
    "windowOr defaultMaxIncomingStreams 8 ''QUICConfig.MaxIncomingStreamsf must be at least 8''
      (sq_MaxIncomingStreams ?q) = Inr n"
    and t: "sq_MaxIdleTimeout ?q \<noteq> 0 \<longrightarrow> 4 * 1000000000 \<le> sq_MaxIdleTimeout ?q \<and> sq_MaxIdleTimeout ?q \<le> 120 * 1000000000"
    and k: "k = \<lparr>qc_InitialStreamReceiveWindow = (if sq_InitStreamReceiveWindow ?q = 0 then defaultStreamReceiveWindow else 0),
      qc_MaxStreamReceiveWindow = w1, qc_InitialConnectionReceiveWindow = w2, qc_MaxConnectionReceiveWindow = w3,
      qc_MaxIdleTimeout = (if sq_MaxIdleTimeout ?q = 0 then defaultMaxIdleTimeout else sq_MaxIdleTimeout ?q),
      qc_MaxIncomingStreams = n, qc_DisablePathMTUDiscovery = False\<rparr>"
    using assms unfolding getQUICConfig_def Let_def
    by (simp only: sum.case_distrib split: if_split_asm sum.split_asm) (simp_all add: not_less)
  note defaults = defaultStreamReceiveWindow_def defaultConnReceiveWindow_def defaultMaxIdleTimeout_def
    defaultMaxIncomingStreams_def
  note v = w [THEN windowOr_Inr(1)] and b = w [THEN windowOr_Inr(2)]
  have "16384 \<le> w1" "16384 \<le> w2" "16384 \<le> w3" "8 \<le> n"
    using b by (simp_all add: defaults)
  moreover have "4 * 1000000000 \<le> qc_MaxIdleTimeout k \<and> qc_MaxIdleTimeout k \<le> 120 * 1000000000"
    using t by (simp add: k defaults)
  ultimately show ?thesis
    using v(1-3) by (simp add: k defaults del: if_split)
qed

text \<open>A configuration that fails after the socket was opened leaves it open: nothing closes it.\<close>

lemma getHyConfig_leaks:
  assumes "getTLSConfig E config = Inr tls" "getQUICConfig c = Inr quic"
    and "getConn E info config w = Ret (Inr conn, w')" "getRequestHook E c = Inl e"
  shows "getHyConfig E info config c w = Ret (Inl e, w')"
  using assms by (simp add: getHyConfig_def)

text \<open>The chain that is built: the resolver asked for, over the access list if there is one, over the
  entries of the file, or a direct outbound when it has none.\<close>

lemma outboundEntries_names:
  "outboundEntries E es = Inr obs \<Longrightarrow> map fst obs = map oe_Name es \<and> (\<forall>e\<in>set es. oe_Name e \<noteq> [])"
  by (induction es arbitrary: obs) (auto simp: entryOutbound_def split: sum.splits if_splits)

section \<open>Witnesses\<close>

theorem formatAddress_roundtrip_witness:
  "SplitHostPort (formatAddress ''::1'' 443) = Inr (''::1'', itoa 443) \<and>
   extractPortFromAddr (formatAddress ''::1'' 443) = 443"
  by (rule formatAddress_roundtrip) (simp_all add: in_int64_def)

theorem getQUICConfig_spec_witness:
  "\<exists>k. getQUICConfig (zeroServerConfig\<lparr>sc_QUIC := (sc_QUIC zeroServerConfig)\<lparr>sq_InitStreamReceiveWindow := 65536\<rparr>\<rparr>)
      = Inr k \<and> qc_InitialStreamReceiveWindow k = 0 \<and> qc_MaxStreamReceiveWindow k = 8388608"
proof -
  let ?c = "zeroServerConfig\<lparr>sc_QUIC := (sc_QUIC zeroServerConfig)\<lparr>sq_InitStreamReceiveWindow := 65536\<rparr>\<rparr>"
  have "\<exists>k. getQUICConfig ?c = Inr k"
    by (simp add: getQUICConfig_def zeroServerConfig_def windowOr_def Let_def)
  then obtain k where k: "getQUICConfig ?c = Inr k" by blast
  from getQUICConfig_spec [OF k] show ?thesis
    using k by (simp add: zeroServerConfig_def)
qed

end
