(* ===== verification/Hy2.thy ===== *)
theory Hy2
  imports Hy2_Config User_Sync Limiter Counter
begin

text \<open>
  The hysteria2 core: its users and traffic (core/hy2/user.go), the hook that counts and cuts
  (core/hy2/hook.go), the admission by the event logger (core/hy2/logger.go), the nodes
  (core/hy2/node.go) and the life cycle (core/hy2/hy2.go).

  The server of the hysteria library is the state \<open>'s\<close>; it calls Authenticate, the event logger and
  the traffic logger, which are operations on the core.  A fatal log message ends the process and is
  a panic here.
\<close>

section \<open>State\<close>

record HookServer =
  hk_Tag :: string
  hk_Counter :: "(string, TrafficCounter) gomap"
  hk_ReportMinTrafficBytes :: int

record 's Hysteria2node =
  hn_Hy2server :: 's
  hn_Tag :: string
  hn_TrafficLogger :: HookServer

record 's Hysteria2 =
  ht_Hy2nodes :: "(string, 's Hysteria2node) gomap"
  ht_Auth :: "(string, int) gomap"
  ht_heap :: heap

definition logLevels :: "string list" where
  "logLevels = [''debug'', ''info'', ''warn'', ''error'']"

definition logFormats :: "string list" where
  "logFormats = [''console'', ''json'']"

definition initLogger :: "(string \<Rightarrow> string \<Rightarrow> err) \<Rightarrow> string \<Rightarrow> string \<Rightarrow> err" where
  "initLogger build logLevel logFormat =
     (if to_lower logLevel \<notin> set logLevels then Some (''unsupported log level: '' @ logLevel)
      else if to_lower logFormat \<notin> set logFormats then Some (''unsupported log format: '' @ logFormat)
      else case build (to_lower logLevel) (to_lower logFormat) of
          Some e \<Rightarrow> Some (''failed to initialize logger: '' @ e)
        | None \<Rightarrow> None)"

definition newHysteria2 :: "(string \<Rightarrow> string \<Rightarrow> err) \<Rightarrow> CoreConfig \<Rightarrow> 's Hysteria2 res outcome" where
  "newHysteria2 build c =
     (case co_Hysteria2Config c of
        None \<Rightarrow> Panic
      | Some hc \<Rightarrow>
          let loglever = (if hy_LogLevel hc \<noteq> [] then hy_LogLevel hc else ''error'') in
          (case initLogger build loglever ''console'' of
             Some e \<Rightarrow> Ret (Inl e)
           | None \<Rightarrow> Ret (Inr \<lparr>ht_Hy2nodes = [], ht_Auth = [], ht_heap = []\<rparr>)))"

definition Hysteria2_Protocols :: "string list" where
  "Hysteria2_Protocols = [''hysteria2'']"

definition Hysteria2_Start :: "'s Hysteria2 \<Rightarrow> (err \<times> 's Hysteria2) outcome" where
  "Hysteria2_Start h = Ret (None, h)"

text \<open>The servers are closed in the order of the map, up to the first error.\<close>

fun closeNodes :: "('s \<Rightarrow> err \<times> 's) \<Rightarrow> (string \<times> 's Hysteria2node) list \<Rightarrow> err \<times> (string \<times> 's Hysteria2node) list" where
  "closeNodes close [] = (None, [])"
| "closeNodes close ((t, n) # ns) =
     (case close (hn_Hy2server n) of
        (Some e, s) \<Rightarrow> (Some e, (t, n\<lparr>hn_Hy2server := s\<rparr>) # ns)
      | (None, s) \<Rightarrow> (case closeNodes close ns of (e, ns) \<Rightarrow> (e, (t, n\<lparr>hn_Hy2server := s\<rparr>) # ns)))"

definition Hysteria2_Close :: "('s \<Rightarrow> err \<times> 's) \<Rightarrow> 's Hysteria2 \<Rightarrow> (err \<times> 's Hysteria2) outcome" where
  "Hysteria2_Close close h =
     (case closeNodes close (ht_Hy2nodes h) of (e, ns) \<Rightarrow> Ret (e, h\<lparr>ht_Hy2nodes := ns\<rparr>))"

section \<open>Users\<close>

definition Authenticate :: "string \<Rightarrow> 's Hysteria2 \<Rightarrow> bool \<times> string" where
  "Authenticate auth h = (if map_of (ht_Auth h) auth \<noteq> None then (True, auth) else (False, []))"

text \<open>Each user is stored by a goroutine of its own, under the mutex.\<close>

definition Hysteria2_AddUsers ::
  "nat list \<Rightarrow> string \<Rightarrow> UserInfo list \<Rightarrow> NodeInfo \<Rightarrow> 's Hysteria2 \<Rightarrow> ((int \<times> err) \<times> 's Hysteria2) outcome" where
  "Hysteria2_AddUsers sched tag us info h =
     Ret ((int (length us), None),
       h\<lparr>ht_Auth := fold (\<lambda>u. mstore (ui_Uuid u) (ui_Id u)) (goroutines sched us) (ht_Auth h)\<rparr>)"

definition dropCounter :: "string \<Rightarrow> string \<Rightarrow> HookServer \<Rightarrow> HookServer" where
  "dropCounter tag uuid k =
     (case map_of (hk_Counter k) tag of
        None \<Rightarrow> k
      | Some c \<Rightarrow> k\<lparr>hk_Counter := mstore tag (Delete uuid c) (hk_Counter k)\<rparr>)"

text \<open>For a tag without node the traffic logger is nil and the assertion panics.\<close>

definition Hysteria2_DelUsers ::
  "nat list \<Rightarrow> UserInfo list \<Rightarrow> string \<Rightarrow> NodeInfo \<Rightarrow> 's Hysteria2 \<Rightarrow> (err \<times> 's Hysteria2) outcome" where
  "Hysteria2_DelUsers sched us tag info h =
     (if us = [] then Ret (None, h)
      else case map_of (ht_Hy2nodes h) tag of
          None \<Rightarrow> Panic
        | Some n \<Rightarrow>
            let k = fold (\<lambda>u. dropCounter tag (ui_Uuid u)) us (hn_TrafficLogger n) in
            Ret (None, h\<lparr>ht_Hy2nodes := mstore tag (n\<lparr>hn_TrafficLogger := k\<rparr>) (ht_Hy2nodes h),
              ht_Auth := fold (\<lambda>u. mdelete (ui_Uuid u)) (goroutines sched us) (ht_Auth h)\<rparr>))"

definition Hysteria2_GetUserTrafficSlice ::
  "string \<Rightarrow> bool \<Rightarrow> 's Hysteria2 \<Rightarrow> ((UserTraffic list \<times> err) \<times> 's Hysteria2) outcome" where
  "Hysteria2_GetUserTrafficSlice tag reset h =
     (case map_of (ht_Hy2nodes h) tag of
        None \<Rightarrow> Ret (([], None), h)
      | Some n \<Rightarrow>
          let hook = hn_TrafficLogger n in
          (case map_of (hk_Counter hook) tag of
             None \<Rightarrow> Ret (([], None), h)
           | Some c \<Rightarrow>
               (case collectTraffic (hk_ReportMinTrafficBytes hook) (ht_Auth h) reset (ht_heap h, c) of
                  (ts, hp, c) \<Rightarrow> Ret ((ts, None), h\<lparr>ht_heap := hp,
                    ht_Hy2nodes := mstore tag (n\<lparr>hn_TrafficLogger := hook\<lparr>hk_Counter := mstore tag c (hk_Counter hook)\<rparr>\<rparr>)
                      (ht_Hy2nodes h)\<rparr>))))"

section \<open>Admission and counting\<close>

datatype netAddr = TCPAddr string | UDPAddr string | IPAddr string | OtherAddr string

fun extractIPFromAddr :: "netAddr \<Rightarrow> string" where
  "extractIPFromAddr (TCPAddr ip) = ip"
| "extractIPFromAddr (UDPAddr ip) = ip"
| "extractIPFromAddr (IPAddr ip) = ip"
| "extractIPFromAddr (OtherAddr n) = []"

fun networkOf :: "netAddr \<Rightarrow> string" where
  "networkOf (TCPAddr ip) = ''tcp''"
| "networkOf (UDPAddr ip) = ''udp''"
| "networkOf (IPAddr ip) = ''ip''"
| "networkOf (OtherAddr n) = n"

definition setOverLimit :: "bool \<Rightarrow> string \<Rightarrow> 'b Limiter \<Rightarrow> 'b Limiter" where
  "setOverLimit v taguuid l =
     (case map_of (l_UserLimitInfo l) taguuid of
        None \<Rightarrow> l
      | Some u \<Rightarrow> l\<lparr>l_UserLimitInfo := mstore taguuid (u\<lparr>uli_OverLimit := v\<rparr>) (l_UserLimitInfo l)\<rparr>)"

text \<open>The check that Connect, TCPRequest and UDPRequest make: its verdict is left in the user's entry,
  for the traffic logger to find.\<close>

definition markLimit ::
  "(int \<Rightarrow> int \<Rightarrow> int \<Rightarrow> 'b) \<Rightarrow> int \<Rightarrow> string \<Rightarrow> netAddr \<Rightarrow> string \<Rightarrow> 'b registry \<Rightarrow> 'b registry outcome" where
  "markLimit newBucket now tag addr uuid reg =
     (case GetLimiter tag reg of
        Inl e \<Rightarrow> Panic
      | Inr l \<Rightarrow>
          (case CheckLimit newBucket now (UserTag tag uuid) (extractIPFromAddr addr) (networkOf addr = ''tcp'') True l of
             ((b, r), l) \<Rightarrow> Ret (mstore tag (setOverLimit r (UserTag tag uuid) l) reg)))"

definition Connect ::
  "(int \<Rightarrow> int \<Rightarrow> int \<Rightarrow> 'b) \<Rightarrow> int \<Rightarrow> string \<Rightarrow> netAddr \<Rightarrow> string \<Rightarrow> 'b registry \<Rightarrow> 'b registry outcome" where
  "Connect newBucket now tag addr uuid reg = markLimit newBucket now tag addr uuid reg"

definition TCPRequest ::
  "(int \<Rightarrow> int \<Rightarrow> int \<Rightarrow> 'b) \<Rightarrow> int \<Rightarrow> string \<Rightarrow> netAddr \<Rightarrow> string \<Rightarrow> 'b registry \<Rightarrow> 'b registry outcome" where
  "TCPRequest newBucket now tag addr uuid reg = markLimit newBucket now tag addr uuid reg"

definition UDPRequest ::
  "(int \<Rightarrow> int \<Rightarrow> int \<Rightarrow> 'b) \<Rightarrow> int \<Rightarrow> string \<Rightarrow> netAddr \<Rightarrow> string \<Rightarrow> 'b registry \<Rightarrow> 'b registry outcome" where
  "UDPRequest newBucket now tag addr uuid reg = markLimit newBucket now tag addr uuid reg"

text \<open>The traffic logger: False makes the server disconnect the client.  tx and rx are uint64.\<close>

definition hookCount :: "string \<Rightarrow> int \<Rightarrow> int \<Rightarrow> HookServer \<Rightarrow> heap \<Rightarrow> HookServer \<times> heap" where
  "hookCount uuid tx rx k hp =
     (let c = (case map_of (hk_Counter k) (hk_Tag k) of None \<Rightarrow> NewTrafficCounter | Some c \<Rightarrow> c) in
      case Tx uuid (wrap64 tx) (Rx uuid (wrap64 rx) (hp, c)) of
        (hp, c) \<Rightarrow> (k\<lparr>hk_Counter := mstore (hk_Tag k) c (hk_Counter k)\<rparr>, hp))"

definition LogTraffic ::
  "string \<Rightarrow> int \<Rightarrow> int \<Rightarrow> HookServer \<Rightarrow> heap \<Rightarrow> 'b registry \<Rightarrow> bool \<times> HookServer \<times> heap \<times> 'b registry" where
  "LogTraffic uuid tx rx k hp reg =
     (case GetLimiter (hk_Tag k) reg of
        Inl e \<Rightarrow> (False, k, hp, reg)
      | Inr l \<Rightarrow>
          let over = (case map_of (l_UserLimitInfo l) (UserTag (hk_Tag k) uuid) of
                 None \<Rightarrow> False | Some u \<Rightarrow> uli_OverLimit u) in
          if over then (False, k, hp, mstore (hk_Tag k) (setOverLimit False (UserTag (hk_Tag k) uuid) l) reg)
          else (case hookCount uuid tx rx k hp of (k, hp) \<Rightarrow> (True, k, hp, reg)))"

section \<open>Nodes\<close>

text \<open>\<open>readConfig\<close> reads and decodes the file; \<open>newServer\<close> is server.NewServer.  Serve runs in a
  goroutine whose errors are only logged.\<close>

definition Hysteria2_AddNode ::
  "('k, 'c, 'w) hy2_env \<Rightarrow> (string \<Rightarrow> serverConfig res) \<Rightarrow> (('k, 'c) HyConfig \<Rightarrow> 's res) \<Rightarrow>
   string \<Rightarrow> NodeInfo \<Rightarrow> Options \<Rightarrow> 's Hysteria2 \<times> 'w \<Rightarrow> (err \<times> 's Hysteria2 \<times> 'w) outcome" where
  "Hysteria2_AddNode E readConfig newServer tag info config hw =
     (case hw of (h, w) \<Rightarrow>
      case (if op_Hysteria2ConfigPath config \<noteq> [] then readConfig (op_Hysteria2ConfigPath config)
            else Inr zeroServerConfig) of
        Inl e \<Rightarrow> Panic
      | Inr c \<Rightarrow>
          (case getHyConfig E info config c w of
             Panic \<Rightarrow> Panic
           | Ret (Inl e, w) \<Rightarrow> Ret (Some e, h, w)
           | Ret (Inr hyconfig, w) \<Rightarrow>
               (case newServer hyconfig of
                  Inl e \<Rightarrow> Ret (Some e, h, w)
                | Inr s \<Rightarrow> Ret (None, h\<lparr>ht_Hy2nodes := mstore tag \<lparr>hn_Hy2server = s, hn_Tag = tag,
                    hn_TrafficLogger = \<lparr>hk_Tag = tag, hk_Counter = [],
                      hk_ReportMinTrafficBytes = wrap64 (op_ReportMinTraffic config * 1024)\<rparr>\<rparr> (ht_Hy2nodes h)\<rparr>, w))))"

text \<open>A tag without node has a nil server.\<close>

definition Hysteria2_DelNode :: "('s \<Rightarrow> err \<times> 's) \<Rightarrow> string \<Rightarrow> 's Hysteria2 \<Rightarrow> (err \<times> 's Hysteria2) outcome" where
  "Hysteria2_DelNode close tag h =
     (case map_of (ht_Hy2nodes h) tag of
        None \<Rightarrow> Panic
      | Some n \<Rightarrow> (case close (hn_Hy2server n) of
          (Some e, s) \<Rightarrow> Ret (Some e, h\<lparr>ht_Hy2nodes := mstore tag (n\<lparr>hn_Hy2server := s\<rparr>) (ht_Hy2nodes h)\<rparr>)
        | (None, s) \<Rightarrow> Ret (None, h\<lparr>ht_Hy2nodes := mdelete tag (ht_Hy2nodes h)\<rparr>)))"

section \<open>The contract of the user operations\<close>

definition Hy2_uid :: "'s Hysteria2 \<Rightarrow> string \<Rightarrow> string \<Rightarrow> int" where
  "Hy2_uid h tag x = mget0 (ht_Auth h) x"

text \<open>Lists of the same users with distinct uuids give the same ids, in whatever order.\<close>

lemma idsOf_set:
  assumes "set us' = set us" "distinct (map ui_Uuid us')" "distinct (map ui_Uuid us)"
  shows "idsOf us' x = idsOf us x"
proof (cases "x \<in> uuids us")
  case True
  then obtain u where "u \<in> set us" "x = ui_Uuid u"
    by (auto simp: uuids_def)
  then show ?thesis
    using idsOf_in [of u us] idsOf_in [of u us'] assms by simp
next
  case False
  then show ?thesis
    using idsOf_notin [of x us] idsOf_notin [of x us'] assms(1) by (simp add: uuids_def)
qed

lemma uuids_goroutines: "uuids (goroutines sched us) = uuids us"
  by (simp add: uuids_def)

interpretation hy: core_users Hy2_uid "Hysteria2_AddUsers sched" "Hysteria2_DelUsers sched"
  for sched :: "nat list"
proof
  show "Hy2_uid c' tag x = (if x \<in> uuids us then idsOf us x else Hy2_uid c tag x)"
    if r: "Hysteria2_AddUsers sched tag us n c = Ret ((k, None), c')" and d: "distinct (map ui_Uuid us)"
    for tag us n k x and c c' :: "'s Hysteria2"
  proof -
    have "ht_Auth c' = fold (\<lambda>u. mstore (ui_Uuid u) (ui_Id u)) (goroutines sched us) (ht_Auth c)"
      using r by (auto simp: Hysteria2_AddUsers_def)
    then show ?thesis
      using idsOf_put [of id "goroutines sched us" "ht_Auth c" x]
        idsOf_set [OF goroutines_set goroutines_distinct [OF d] d, of sched x]
      by (simp add: Hy2_uid_def uuids_goroutines)
  qed
  show "k = int (length us)" if "Hysteria2_AddUsers sched tag us n c = Ret ((k, None), c')"
    for tag us n k and c c' :: "'s Hysteria2"
    using that by (auto simp: Hysteria2_AddUsers_def)
  show "Hy2_uid c' tag x = (if x \<in> uuids us then 0 else Hy2_uid c tag x)"
    if "Hysteria2_DelUsers sched us tag n c = Ret (None, c')" for tag us n x and c c' :: "'s Hysteria2"
    using that idsOf_delete [of id "goroutines sched us" "ht_Auth c" x]
    by (auto simp: Hysteria2_DelUsers_def Hy2_uid_def uuids_goroutines Let_def uuids_def
        split: if_splits option.splits)
qed

section \<open>Lemmas: admission and counting\<close>

definition counterOf :: "HookServer \<Rightarrow> TrafficCounter" where
  "counterOf k = (case map_of (hk_Counter k) (hk_Tag k) of None \<Rightarrow> NewTrafficCounter | Some c \<Rightarrow> c)"

lemma hookCount_counts:
  assumes "hookCount uuid tx rx k hp = (k', hp')" "wf_state (hp, counterOf k)"
  shows "hk_Tag k' = hk_Tag k \<and> wf_state (hp', counterOf k') \<and>
    GetUpCount j (hp', counterOf k') = (if j = uuid then wrap64 (GetUpCount j (hp, counterOf k) + wrap64 tx)
      else GetUpCount j (hp, counterOf k)) \<and>
    GetDownCount j (hp', counterOf k') = (if j = uuid then wrap64 (GetDownCount j (hp, counterOf k) + wrap64 rx)
      else GetDownCount j (hp, counterOf k))"
proof -
  let ?s1 = "Rx uuid (wrap64 rx) (hp, counterOf k)"
  obtain h2 c2 where t: "Tx uuid (wrap64 tx) ?s1 = (h2, c2)"
    by (metis surj_pair)
  have r: "k' = k\<lparr>hk_Counter := mstore (hk_Tag k) c2 (hk_Counter k)\<rparr>" "hp' = h2"
    using assms(1) t by (auto simp: hookCount_def counterOf_def Let_def)
  have c: "counterOf k' = c2"
    by (simp add: r counterOf_def map_of_mstore)
  note rx = Rx_laws [OF assms(2), where k = uuid and n = "wrap64 rx"]
  note tx = Tx_laws [OF rx(1), where k = uuid and n = "wrap64 tx", unfolded t]
  show ?thesis
    using rx tx unfolding r(2) c by (simp add: r(1))
qed

lemma setOverLimit_at:
  "map_of (l_UserLimitInfo (setOverLimit v t l)) t = map_option (\<lambda>u. u\<lparr>uli_OverLimit := v\<rparr>) (map_of (l_UserLimitInfo l) t)"
  by (simp add: setOverLimit_def map_of_mstore split: option.splits)

lemma markLimit_cases:
  assumes "markLimit nb now tag addr uuid reg = Ret reg'" "GetLimiter tag reg = Inr l"
    and "CheckLimit nb now (UserTag tag uuid) (extractIPFromAddr addr) (networkOf addr = ''tcp'') True l = ((w, r), l')"
  shows "reg' = mstore tag (setOverLimit r (UserTag tag uuid) l') reg"
  using assms by (simp add: markLimit_def)

lemma LogTraffic_over:
  assumes "GetLimiter (hk_Tag k) reg = Inr l" "map_of (l_UserLimitInfo l) (UserTag (hk_Tag k) uuid) = Some u" "uli_OverLimit u"
  shows "LogTraffic uuid tx rx k hp reg
    = (False, k, hp, mstore (hk_Tag k) (setOverLimit False (UserTag (hk_Tag k) uuid) l) reg)"
  using assms by (simp add: LogTraffic_def)

lemma LogTraffic_passes:
  assumes "GetLimiter (hk_Tag k) reg = Inr l"
    and "\<forall>u. map_of (l_UserLimitInfo l) (UserTag (hk_Tag k) uuid) = Some u \<longrightarrow> \<not> uli_OverLimit u"
  shows "LogTraffic uuid tx rx k hp reg = (case hookCount uuid tx rx k hp of (k, hp) \<Rightarrow> (True, k, hp, reg))"
  using assms by (simp add: LogTraffic_def split: option.splits)

section \<open>Properties\<close>

text \<open>C12: The limits of a hysteria2 node work with a delay of one report: after the check of a
  connection, the next traffic report of the user makes the server disconnect him exactly when the
  check refused him and he has an entry on the node.  Then nothing is counted, and the mark is taken
  back, so the report after that one passes.\<close>

theorem Connect_then_LogTraffic:
  assumes "Connect nb now tag addr uuid reg = Ret reg'" "GetLimiter tag reg = Inr l" "hk_Tag k = tag"
    and "CheckLimit nb now (UserTag tag uuid) (extractIPFromAddr addr) (networkOf addr = ''tcp'') True l = ((w, r), l')"
  shows "fst (LogTraffic uuid tx rx k hp reg') = (\<not> (r \<and> map_of (l_UserLimitInfo l') (UserTag tag uuid) \<noteq> None)) \<and>
    (r \<and> map_of (l_UserLimitInfo l') (UserTag tag uuid) \<noteq> None \<longrightarrow>
      (\<exists>reg''. LogTraffic uuid tx rx k hp reg' = (False, k, hp, reg'') \<and>
        fst (LogTraffic uuid tx' rx' k hp reg'')))"
proof -
  let ?t = "UserTag tag uuid" and ?l = "setOverLimit r (UserTag tag uuid) l'"
  have reg: "reg' = mstore tag ?l reg"
    using assms(1) markLimit_cases [OF _ assms(2,4)] by (simp add: Connect_def)
  have at: "GetLimiter (hk_Tag k) reg' = Inr ?l"
    by (simp add: reg assms(3) GetLimiter_def map_of_mstore)
  have info: "map_of (l_UserLimitInfo ?l) ?t = map_option (\<lambda>u. u\<lparr>uli_OverLimit := r\<rparr>) (map_of (l_UserLimitInfo l') ?t)"
    by (rule setOverLimit_at)
  show ?thesis
  proof (cases "r \<and> map_of (l_UserLimitInfo l') ?t \<noteq> None")
    case True
    then obtain u where u: "map_of (l_UserLimitInfo l') ?t = Some u"
      by auto
    let ?r2 = "mstore tag (setOverLimit False ?t ?l) reg'"
    have cut: "LogTraffic uuid tx rx k hp reg' = (False, k, hp, ?r2)"
      using LogTraffic_over [OF at] info u True assms(3) by simp
    have "GetLimiter (hk_Tag k) ?r2 = Inr (setOverLimit False ?t ?l)"
      by (simp add: assms(3) GetLimiter_def map_of_mstore)
    then have "fst (LogTraffic uuid tx' rx' k hp ?r2)"
      using LogTraffic_passes [of k ?r2 "setOverLimit False ?t ?l" uuid tx' rx' hp]
        setOverLimit_at [of False ?t ?l] info u assms(3)
      by (auto split: prod.split)
    then show ?thesis
      using cut True by simp
  next
    case False
    have "\<forall>u. map_of (l_UserLimitInfo ?l) (UserTag (hk_Tag k) uuid) = Some u \<longrightarrow> \<not> uli_OverLimit u"
      using info False assms(3) by auto
    from LogTraffic_passes [OF at this] have "fst (LogTraffic uuid tx rx k hp reg')"
      by (simp split: prod.split)
    then show ?thesis
      using False by blast
  qed
qed

text \<open>C32: The authenticator knows the users of all hysteria2 nodes of the core together, and the limits
  of a node only those of the node.  So a user of another node is let in, and although the check
  refuses him his traffic passes and is counted in full.\<close>

theorem foreign_user_served:
  assumes "map_of (ht_Auth h) uuid \<noteq> None"
    and "GetLimiter tag reg = Inr l" "map_of (l_UserLimitInfo l) (UserTag tag uuid) = None"
    and "Connect nb now tag addr uuid reg = Ret reg'" "hk_Tag k = tag" "wf_state (hp, counterOf k)"
  shows "Authenticate uuid h = (True, uuid) \<and>
    snd (fst (CheckLimit nb now (UserTag tag uuid) (extractIPFromAddr addr) (networkOf addr = ''tcp'') True l)) \<and>
    (\<exists>k' hp'. LogTraffic uuid tx rx k hp reg' = (True, k', hp', reg') \<and>
      GetUpCount uuid (hp', counterOf k') = wrap64 (GetUpCount uuid (hp, counterOf k) + wrap64 tx) \<and>
      GetDownCount uuid (hp', counterOf k') = wrap64 (GetDownCount uuid (hp, counterOf k) + wrap64 rx))"
proof -
  note refused = CheckLimit_unknown [OF assms(3), of nb now "extractIPFromAddr addr" "networkOf addr = ''tcp''" True]
  have reg: "reg' = mstore tag (setOverLimit True (UserTag tag uuid) l) reg"
    using assms(4) markLimit_cases [OF _ assms(2) refused] by (simp add: Connect_def)
  have at: "GetLimiter (hk_Tag k) reg' = Inr (setOverLimit True (UserTag tag uuid) l)"
    by (simp add: reg assms(5) GetLimiter_def map_of_mstore)
  obtain k' hp' where c: "hookCount uuid tx rx k hp = (k', hp')"
    by (metis surj_pair)
  have "LogTraffic uuid tx rx k hp reg' = (True, k', hp', reg')"
    using LogTraffic_passes [OF at, of uuid tx rx hp] setOverLimit_at [of True "UserTag tag uuid" l] assms(3,5) c
    by simp
  then show ?thesis
    using hookCount_counts [OF c assms(6), of uuid] refused assms(1) by (auto simp: Authenticate_def)
qed

text \<open>A user who leaves one node is refused by every node of the core, also where he is still a user.\<close>

lemma Hysteria2_DelUsers_locks_out:
  assumes "Hysteria2_DelUsers sched us tag info h = Ret (None, h')" "u \<in> set us"
  shows "Authenticate (ui_Uuid u) h' = (False, [])"
proof -
  have "map_of (ht_Auth h') (ui_Uuid u) = None"
    using assms gm.load_del_all [of ui_Uuid "goroutines sched us" "ht_Auth h"]
    by (auto simp: Hysteria2_DelUsers_def Let_def split: if_splits option.splits)
  then show ?thesis by (simp add: Authenticate_def)
qed

text \<open>Deleting users on a tag that has no node ends the process, the mutex not held.\<close>

lemma Hysteria2_DelUsers_unknown_tag:
  "map_of (ht_Hy2nodes h) tag = None \<Longrightarrow> us \<noteq> [] \<Longrightarrow> Hysteria2_DelUsers sched us tag info h = Panic"
  by (simp add: Hysteria2_DelUsers_def)

text \<open>A node that is added again starts with empty counters: what was not reported is lost.\<close>

lemma Hysteria2_AddNode_resets:
  assumes "Hysteria2_AddNode E rc ns tag info config (h, w) = Ret (None, h', w')"
  shows "Hysteria2_GetUserTrafficSlice tag reset h' = Ret (([], None), h')"
proof -
  obtain n where "map_of (ht_Hy2nodes h') tag = Some n" "hk_Counter (hn_TrafficLogger n) = []"
    using assms by (auto simp: Hysteria2_AddNode_def map_of_mstore split: sum.splits outcome.splits prod.splits if_splits)
  then show ?thesis by (simp add: Hysteria2_GetUserTrafficSlice_def Let_def)
qed

section \<open>Witnesses\<close>

definition wit_hook :: HookServer where
  "wit_hook = \<lparr>hk_Tag = ''n'', hk_Counter = [], hk_ReportMinTrafficBytes = 0\<rparr>"

definition wit_hy :: "unit Hysteria2" where
  "wit_hy = \<lparr>ht_Hy2nodes = [], ht_Auth = [(''z'', 9)], ht_heap = []\<rparr>"

theorem Connect_then_LogTraffic_witness:
  "\<exists>reg'. Connect wit_bucket 0 ''n'' (UDPAddr ''1.2.3.4'') ''u'' [(''n'', wit_limiter [(7, 1)])] = Ret reg' \<and>
     \<not> fst (LogTraffic ''u'' 5 6 wit_hook [] reg')"
proof -
  let ?l = "wit_limiter [(7, 1)]"
  have g: "GetLimiter ''n'' [(''n'', ?l)] = Inr ?l"
    by (simp add: GetLimiter_def)
  have "\<exists>reg'. Connect wit_bucket 0 ''n'' (UDPAddr ''1.2.3.4'') ''u'' [(''n'', ?l)] = Ret reg'"
    by (simp add: Connect_def markLimit_def g split: prod.split)
  then obtain reg' where c: "Connect wit_bucket 0 ''n'' (UDPAddr ''1.2.3.4'') ''u'' [(''n'', ?l)] = Ret reg'"
    by blast
  have "(case CheckLimit wit_bucket 0 (UserTag ''n'' ''u'') (extractIPFromAddr (UDPAddr ''1.2.3.4''))
      (networkOf (UDPAddr ''1.2.3.4'') = ''tcp'') True ?l of
      ((w, r), l') \<Rightarrow> r \<and> map_of (l_UserLimitInfo l') (UserTag ''n'' ''u'') \<noteq> None)"
    by code_simp
  then obtain w l' where k: "CheckLimit wit_bucket 0 (UserTag ''n'' ''u'') (extractIPFromAddr (UDPAddr ''1.2.3.4''))
      (networkOf (UDPAddr ''1.2.3.4'') = ''tcp'') True ?l = ((w, True), l')"
    and i: "map_of (l_UserLimitInfo l') (UserTag ''n'' ''u'') \<noteq> None"
    by (auto split: prod.split_asm)
  have h: "hk_Tag wit_hook = ''n''"
    by (simp add: wit_hook_def)
  show ?thesis
    using Connect_then_LogTraffic [OF c g h k, of 5 6 "[]"] c i by blast
qed

theorem foreign_user_served_witness:
  "\<exists>reg' k' hp'. Connect wit_bucket 0 ''n'' (UDPAddr ''1.2.3.4'') ''z'' [(''n'', wit_limiter [])] = Ret reg' \<and>
     Authenticate ''z'' wit_hy = (True, ''z'') \<and>
     LogTraffic ''z'' 5 6 wit_hook [] reg' = (True, k', hp', reg') \<and> GetUpCount ''z'' (hp', counterOf k') = 5"
proof -
  let ?l = "wit_limiter []"
  have g: "GetLimiter ''n'' [(''n'', ?l)] = Inr ?l"
    by (simp add: GetLimiter_def)
  have "\<exists>reg'. Connect wit_bucket 0 ''n'' (UDPAddr ''1.2.3.4'') ''z'' [(''n'', ?l)] = Ret reg'"
    by (simp add: Connect_def markLimit_def g split: prod.split)
  then obtain reg' where c: "Connect wit_bucket 0 ''n'' (UDPAddr ''1.2.3.4'') ''z'' [(''n'', ?l)] = Ret reg'"
    by blast
  have a: "map_of (ht_Auth wit_hy) ''z'' \<noteq> None"
    by (simp add: wit_hy_def)
  have n: "map_of (l_UserLimitInfo ?l) (UserTag ''n'' ''z'') = None"
    by code_simp
  have h: "hk_Tag wit_hook = ''n''" "wf_state ([], counterOf wit_hook)"
    by (simp_all add: wit_hook_def counterOf_def NewTrafficCounter_def wf_state_def wf_counter_def wf_map_def)
  have z: "GetUpCount ''z'' ([], counterOf wit_hook) = 0"
    by (simp add: wit_hook_def counterOf_def NewTrafficCounter_def GetUpCount_def)
  show ?thesis
    using foreign_user_served [OF a g n c h, of 5 6] c z by (auto simp: wrap64_def)
qed

end
