(* ===== verification/Cores.thy ===== *)
theory Cores
  imports Core_Selector Xray Sing_Build Hy2
begin

text \<open>
  The three cores of the program as implementations of the interface: a value of the interface is one
  of the cores, and \<open>anyCore\<close> is the table of its methods.  With the contract of core_table
  interpreted here, what holds of each core's users holds of a selector over them.
\<close>

section \<open>The interface on the three cores\<close>

datatype ('x, 'b, 'y, 's, 'w) AnyCore =
    XrayCore "('x, 'b) Xray"
  | SingCore "'y Sing"
  | Hy2Core "'s Hysteria2" 'w

record ('x, 'a, 'h, 'o, 'm, 'b, 'y, 'k, 'c, 's, 'w) cores_env =
  ce_xray :: "('x, 'a, 'h, 'o, 'm) xray_env"
  ce_dns :: dns_env
  ce_dispatcher :: "'b DefaultDispatcher"
  ce_sing :: "'y sing_env"
  ce_decode :: sing_decode
  ce_create :: "string \<Rightarrow> Inbound \<Rightarrow> 'y \<Rightarrow> err \<times> 'y"
  ce_remove :: "string \<Rightarrow> 'y \<Rightarrow> err \<times> 'y"
  ce_hy2 :: "('k, 'c, 'w) hy2_env"
  ce_readConfig :: "string \<Rightarrow> serverConfig res"
  ce_newServer :: "('k, 'c) HyConfig \<Rightarrow> 's res"
  ce_closeServer :: "'s \<Rightarrow> err \<times> 's"
  ce_sched :: "nat list"

fun put :: "('c \<Rightarrow> 'd) \<Rightarrow> ('r \<times> 'c) outcome \<Rightarrow> ('r \<times> 'd) outcome" where
  "put f Panic = Panic"
| "put f (Ret (r, c)) = Ret (r, f c)"

fun any_Start where
  "any_Start E (XrayCore c) = put XrayCore (Ret (Xray_Start (ce_xray E) (ce_dispatcher E) c))"
| "any_Start E (SingCore b) = put SingCore (Sing_Start (ce_sing E) b)"
| "any_Start E (Hy2Core h w) = put (\<lambda>h. Hy2Core h w) (Hysteria2_Start h)"

fun any_Close where
  "any_Close E (XrayCore c) = put XrayCore (Ret (Xray_Close (ce_xray E) c))"
| "any_Close E (SingCore b) = put SingCore (Sing_Close (ce_sing E) b)"
| "any_Close E (Hy2Core h w) = put (\<lambda>h. Hy2Core h w) (Hysteria2_Close (ce_closeServer E) h)"

text \<open>No core changes the options it is given.\<close>

fun any_AddNode where
  "any_AddNode E tag info p (XrayCore c) =
     put XrayCore (case Xray_AddNode (ce_xray E) (ce_dns E) tag info p c of
       Panic \<Rightarrow> Panic | Ret (e, c) \<Rightarrow> Ret ((e, p), c))"
| "any_AddNode E tag info p (SingCore b) =
     put SingCore (case Sing_AddNode (ce_decode E) (ce_create E) tag info p b of
       Panic \<Rightarrow> Panic | Ret (e, b) \<Rightarrow> Ret ((e, p), b))"
| "any_AddNode E tag info p (Hy2Core h w) =
     put (\<lambda>(h, w). Hy2Core h w)
       (case Hysteria2_AddNode (ce_hy2 E) (ce_readConfig E) (ce_newServer E) tag info p (h, w) of
         Panic \<Rightarrow> Panic | Ret (e, hw) \<Rightarrow> Ret ((e, p), hw))"

fun any_DelNode where
  "any_DelNode E tag (XrayCore c) = put XrayCore (Xray_DelNode (ce_xray E) tag c)"
| "any_DelNode E tag (SingCore b) = put SingCore (Sing_DelNode (ce_remove E) tag b)"
| "any_DelNode E tag (Hy2Core h w) = put (\<lambda>h. Hy2Core h w) (Hysteria2_DelNode (ce_closeServer E) tag h)"

fun any_AddUsers where
  "any_AddUsers E tag us info (XrayCore c) = put XrayCore (Xray_AddUsers (ce_xray E) tag us info c)"
| "any_AddUsers E tag us info (SingCore b) = put SingCore (Sing_AddUsers (ce_sing E) tag us info b)"
| "any_AddUsers E tag us info (Hy2Core h w) =
     put (\<lambda>h. Hy2Core h w) (Hysteria2_AddUsers (ce_sched E) tag us info h)"

fun any_GetUserTrafficSlice where
  "any_GetUserTrafficSlice E tag reset (XrayCore c) =
     put XrayCore (case Xray_GetUserTrafficSlice tag reset c of
       Panic \<Rightarrow> Panic | Ret (ts, c) \<Rightarrow> Ret ((ts, None), c))"
| "any_GetUserTrafficSlice E tag reset (SingCore b) = put SingCore (Sing_GetUserTrafficSlice tag reset b)"
| "any_GetUserTrafficSlice E tag reset (Hy2Core h w) =
     put (\<lambda>h. Hy2Core h w) (Hysteria2_GetUserTrafficSlice tag reset h)"

fun any_DelUsers where
  "any_DelUsers E us tag info (XrayCore c) = put XrayCore (Xray_DelUsers (ce_xray E) us tag info c)"
| "any_DelUsers E us tag info (SingCore b) = put SingCore (Sing_DelUsers (ce_sing E) us tag info b)"
| "any_DelUsers E us tag info (Hy2Core h w) =
     put (\<lambda>h. Hy2Core h w) (Hysteria2_DelUsers (ce_sched E) us tag info h)"

fun any_Protocols where
  "any_Protocols (XrayCore c) = Xray_Protocols"
| "any_Protocols (SingCore b) = Sing_Protocols"
| "any_Protocols (Hy2Core h w) = Hysteria2_Protocols"

fun any_Type where
  "any_Type (XrayCore c) = ''xray''"
| "any_Type (SingCore b) = ''sing''"
| "any_Type (Hy2Core h w) = ''hysteria2''"

definition anyCore ::
  "('x, 'a, 'h, 'o, 'm, 'b, 'y, 'k, 'c, 's, 'w) cores_env \<Rightarrow> ('x, 'b, 'y, 's, 'w) AnyCore Core" where
  "anyCore E = \<lparr>cr_Start = any_Start E, cr_Close = any_Close E, cr_AddNode = any_AddNode E,
     cr_DelNode = any_DelNode E, cr_AddUsers = any_AddUsers E,
     cr_GetUserTrafficSlice = any_GetUserTrafficSlice E, cr_DelUsers = any_DelUsers E,
     cr_Protocols = any_Protocols, cr_Type = any_Type\<rparr>"

section \<open>The contract of the user operations\<close>

fun any_uid :: "('x, 'b, 'y, 's, 'w) AnyCore \<Rightarrow> string \<Rightarrow> string \<Rightarrow> int" where
  "any_uid (XrayCore c) tag x = Xray_uid c tag x"
| "any_uid (SingCore b) tag x = Sing_uid b tag x"
| "any_uid (Hy2Core h w) tag x = Hy2_uid h tag x"

lemma put_Ret: "put f r = Ret (x, d) \<longleftrightarrow> (\<exists>c. r = Ret (x, c) \<and> d = f c)"
  by (cases r) auto

interpretation ac: core_table any_uid "anyCore E"
  for E :: "('x, 'a, 'h, 'o, 'm, 'b, 'y, 'k, 'c, 's, 'w) cores_env"
proof
  show "any_uid c' tag x = (if x \<in> uuids us then idsOf us x else any_uid c tag x)"
    if "cr_AddUsers (anyCore E) tag us n c = Ret ((k, None), c')" "distinct (map ui_Uuid us)"
    for tag us n c k c' x
    using that
    by (cases c) (auto simp: anyCore_def put_Ret xr.add_uid sg.add_uid hy.add_uid simp del: distinct_map)
  show "k = int (length us)" if "cr_AddUsers (anyCore E) tag us n c = Ret ((k, None), c')"
    for tag us n c k c'
    using that
    by (cases c) (auto simp: anyCore_def put_Ret dest: xr.add_count sg.add_count hy.add_count)
  show "any_uid c' tag x = (if x \<in> uuids us then 0 else any_uid c tag x)"
    if "cr_DelUsers (anyCore E) us tag n c = Ret (None, c')" for us tag n c c' x
    using that
    by (cases c) (auto simp: anyCore_def put_Ret xr.del_uid sg.del_uid hy.del_uid)
qed

text \<open>The selector over them is again a core under the contract.\<close>

lemma selectorCore_simps [simp]:
  "cr_AddUsers (selectorCore J I) = Selector_AddUsers I"
  "cr_DelUsers (selectorCore J I) = Selector_DelUsers I"
  "cr_AddNode (selectorCore J I) = Selector_AddNode J I"
  "cr_DelNode (selectorCore J I) = Selector_DelNode I"
  "cr_GetUserTrafficSlice (selectorCore J I) = Selector_GetUserTrafficSlice I"
  by (simp_all add: selectorCore_def)

interpretation sc: core_table "sel_uid any_uid" "selectorCore J (anyCore E)"
  for J :: json_env and E :: "('x, 'a, 'h, 'o, 'm, 'b, 'y, 'k, 'c, 's, 'w) cores_env"
  by unfold_locales (unfold selectorCore_simps, fact ac.sel.add_uid, fact ac.sel.add_count, fact ac.sel.del_uid)

section \<open>Properties\<close>

text \<open>C10: Whatever cores the program runs, and however nodes are placed on them by the selector: if the
  core of a node accounts exactly the old list, sending it the difference to the panel's new list,
  deletions first, makes it account exactly the new list.\<close>

theorem Selector_follows_list:
  assumes "user_lists old new" "compareUserList old new = (deleted, added)"
    and "\<And>x. sel_uid any_uid s tag x = idsOf old x"
    and "deleteAll (Selector_DelUsers (anyCore E)) deleted tag n s = Ret (None, s1)"
    and "addAll (Selector_AddUsers (anyCore E)) tag added n' s1 = Ret ((k, None), s2)"
  shows "sel_uid any_uid s2 tag x = idsOf new x"
  by (rule ac.sel.sync [OF assms])

section \<open>Witnesses\<close>

text \<open>A selector over one hysteria2 core with the node \<open>n\<close>; the libraries refuse everything else.\<close>

definition wit_hy2_env :: "(unit, unit, unit) hy2_env" where
  "wit_hy2_env = \<lparr>he_keyPair = (\<lambda>c k. Inr ()), he_resolveUDP = Inr, he_listenUDP = (\<lambda>a w. (Inr (), w)),
     he_localAddr = (\<lambda>c. ''1.2.3.4:443''), he_salamander = (\<lambda>p. None), he_ports = (\<lambda>s. None),
     he_outbound = (\<lambda>x. None), he_parseIP = (\<lambda>s. None), he_parseURL = (\<lambda>s. Inl ''no'')\<rparr>"

definition wit_decode :: sing_decode where
  "wit_decode = \<lparr>sd_addr = Inr, sd_http = (\<lambda>s. Inl ''no''), sd_request = (\<lambda>s. Inl ''no''),
     sd_ws = (\<lambda>s. Inl ''no''), sd_url = (\<lambda>s. Inl ''no''), sd_grpc = (\<lambda>s. Inl ''no''),
     sd_httpupgrade = (\<lambda>s. Inl ''no''), sd_duration = (\<lambda>s. 0), sd_random = (\<lambda>n. [])\<rparr>"

definition wit_cores ::
  "(unit, string, string InboundDetourConfig, string InboundDetourConfig, xrayUser, int, unit, unit, unit, unit, unit) cores_env" where
  "wit_cores = \<lparr>ce_xray = wit_xenv,
     ce_dns = \<lparr>de_split = (\<lambda>s. Inl ''no''), de_marshal = (\<lambda>s. Inl ''no''), de_indent = Inr,
       de_unmarshal = (\<lambda>s. None), de_build = (\<lambda>s. None), de_truncate = None, de_write = None\<rparr>,
     ce_dispatcher = newDispatcher, ce_sing = wit_box, ce_decode = wit_decode,
     ce_create = (\<lambda>t i x. (None, x)), ce_remove = (\<lambda>t x. (None, x)), ce_hy2 = wit_hy2_env,
     ce_readConfig = (\<lambda>p. Inl ''no''), ce_newServer = (\<lambda>c. Inr ()), ce_closeServer = (\<lambda>s. (None, s)),
     ce_sched = [3]\<rparr>"

definition wit_running :: "(unit, int, unit, unit, unit) AnyCore Selector" where
  "wit_running = \<lparr>sl_cores = [(''h'', Hy2Core \<lparr>ht_Hy2nodes = [(''n'', \<lparr>hn_Hy2server = (), hn_Tag = ''n'',
       hn_TrafficLogger = wit_hook\<rparr>)], ht_Auth = [(''u'', 7)], ht_heap = []\<rparr> ())],
     sl_nodes = [(''n'', ''h'')]\<rparr>"

lemma wit_core_users:
  "\<exists>s1 k s2. Selector_DelUsers (anyCore wit_cores) [wit_u 7 ''u'' 0] ''n'' info wit_running = Ret (None, s1) \<and>
     Selector_AddUsers (anyCore wit_cores) ''n'' [wit_u 8 ''v'' 0] info s1 = Ret ((k, None), s2)"
  by (simp add: Selector_DelUsers_def Selector_AddUsers_def nodeCore_def wit_running_def anyCore_def
      Hysteria2_DelUsers_def Hysteria2_AddUsers_def mstore_def)

lemma wit_compare: "compareUserList [wit_u 7 ''u'' 0] [wit_u 8 ''v'' 0] = ([wit_u 7 ''u'' 0], [wit_u 8 ''v'' 0])"
  by (simp add: compareUserList_def userKey_def wit_u_def mstore_def)

theorem Selector_follows_list_witness:
  "\<exists>k s1 s2. Selector_DelUsers (anyCore wit_cores) [wit_u 7 ''u'' 0] ''n'' wit_node wit_running = Ret (None, s1) \<and>
     Selector_AddUsers (anyCore wit_cores) ''n'' [wit_u 8 ''v'' 0] wit_node s1 = Ret ((k, None), s2) \<and>
     sel_uid any_uid s2 ''n'' ''v'' = 8 \<and> sel_uid any_uid s2 ''n'' ''u'' = 0"
proof -
  obtain s1 k s2 where r: "Selector_DelUsers (anyCore wit_cores) [wit_u 7 ''u'' 0] ''n'' wit_node wit_running = Ret (None, s1)"
    "Selector_AddUsers (anyCore wit_cores) ''n'' [wit_u 8 ''v'' 0] wit_node s1 = Ret ((k, None), s2)"
    using wit_core_users by blast
  have d: "deleteAll (Selector_DelUsers (anyCore wit_cores)) [wit_u 7 ''u'' 0] ''n'' wit_node wit_running = Ret (None, s1)"
    and a: "addAll (Selector_AddUsers (anyCore wit_cores)) ''n'' [wit_u 8 ''v'' 0] wit_node s1 = Ret ((k, None), s2)"
    using r by (simp_all add: deleteAll_def addAll_def)
  have l: "user_lists [wit_u 7 ''u'' 0] [wit_u 8 ''v'' 0]"
    by (simp add: user_lists_def wit_u_def)
  have b: "sel_uid any_uid wit_running ''n'' x = idsOf [wit_u 7 ''u'' 0] x" for x
    by (simp add: sel_uid_def nodeCore_def wit_running_def Hy2_uid_def mget0_def idsOf_def wit_u_def)
  note f = Selector_follows_list [OF l wit_compare b d a]
  have "idsOf [wit_u 8 ''v'' 0] ''v'' = 8" "idsOf [wit_u 8 ''v'' 0] ''u'' = 0"
    by (simp_all add: idsOf_def wit_u_def)
  then show ?thesis
    using r f [of "''v''"] f [of "''u''"] by auto
qed

end
