(* ===== verification/Cert.thy ===== *)
theory Cert
  imports Conf
begin

text \<open>
  Certificates of a node: which operation requestCert makes (node/cert.go), and obtaining, renewing and
  storing certificates and the ACME account (node/lego.go).

  The state is the part of the machine the code touches: files, directories, environment variables,
  and the paths of which Stat cannot tell, as when a directory above them may not be searched.
  \<open>cert_env\<close> holds the rest: the ACME client, key generation, PEM and JSON, the path functions, the
  clock.  Private keys appear in their encoded form.
\<close>

section \<open>State\<close>

record certFS =
  fs_files :: "(string, string) gomap"
  fs_dirs :: "string list"
  fs_env :: "(string, string) gomap"
  fs_hidden :: "string list"

record User =
  us_Email :: string
  us_Registration :: "string option"
  us_key :: string
  us_KeyEncoded :: string

record cert_env =
  lv_dir :: "string \<Rightarrow> string"
  lv_join :: "string list \<Rightarrow> string"
  lv_mkdirAll :: "string \<Rightarrow> string list res"
  lv_open :: "string \<Rightarrow> certFS \<Rightarrow> err"
  lv_read :: "string \<Rightarrow> err"
  lv_genKey :: "string res"
  lv_newClient :: "string \<Rightarrow> string \<Rightarrow> err"
  lv_register :: "string \<Rightarrow> string \<Rightarrow> string res"
  lv_http01 :: err
  lv_dnsProvider :: "string \<Rightarrow> (string, string) gomap \<Rightarrow> err"
  lv_dns01 :: err
  lv_obtain :: "string \<Rightarrow> (string \<times> string) res"
  lv_renew :: "string \<Rightarrow> string \<Rightarrow> (string \<times> string) res"
  lv_notAfter :: "string \<Rightarrow> int res"
  lv_now :: int
  lv_pem :: "string \<Rightarrow> string \<Rightarrow> string"
  lv_selfSigned :: "string \<Rightarrow> (string \<times> string) res"
  lv_decodeUser :: "string \<Rightarrow> User \<Rightarrow> User \<times> err"
  lv_encodeUser :: "User \<Rightarrow> string"
  lv_decodeKey :: "string \<Rightarrow> string res outcome"

datatype statError = NotExist | StatFailed

definition osStat :: "string \<Rightarrow> certFS \<Rightarrow> statError option" where
  "osStat p s =
     (if map_of (fs_files s) p \<noteq> None \<or> p \<in> set (fs_dirs s) then None
      else if p \<in> set (fs_hidden s) then Some StatFailed
      else Some NotExist)"

text \<open>Any other error than the one for a missing file counts as existing.\<close>

definition IsExist :: "string \<Rightarrow> certFS \<Rightarrow> bool" where
  "IsExist p s \<longleftrightarrow> (let err = osStat p s in err = None \<or> err \<noteq> Some NotExist)"

text \<open>os.ReadFile, os.WriteFile (which truncates), and writing into a file opened without truncation.\<close>

definition readFile :: "cert_env \<Rightarrow> string \<Rightarrow> certFS \<Rightarrow> string res" where
  "readFile E p s =
     (case map_of (fs_files s) p of
        None \<Rightarrow> Inl ''no such file''
      | Some c \<Rightarrow> (case lv_read E p of Some e \<Rightarrow> Inl e | None \<Rightarrow> Inr c))"

definition writeFile :: "cert_env \<Rightarrow> string \<Rightarrow> string \<Rightarrow> certFS \<Rightarrow> err \<times> certFS" where
  "writeFile E p c s =
     (case lv_open E p s of Some e \<Rightarrow> (Some e, s) | None \<Rightarrow> (None, s\<lparr>fs_files := mstore p c (fs_files s)\<rparr>))"

definition overwriteFile :: "cert_env \<Rightarrow> string \<Rightarrow> string \<Rightarrow> certFS \<Rightarrow> err \<times> certFS" where
  "overwriteFile E p c s =
     (case lv_open E p s of
        Some e \<Rightarrow> (Some e, s)
      | None \<Rightarrow>
          let old = (case map_of (fs_files s) p of None \<Rightarrow> [] | Some x \<Rightarrow> x) in
          (None, s\<lparr>fs_files := mstore p (c @ drop (length c) old) (fs_files s)\<rparr>))"

definition checkPath :: "cert_env \<Rightarrow> string \<Rightarrow> certFS \<Rightarrow> err \<times> certFS" where
  "checkPath E p s =
     (if IsExist (lv_dir E p) s then (None, s)
      else case lv_mkdirAll E (lv_dir E p) of
          Inl e \<Rightarrow> (Some (''create dir error: '' @ e), s)
        | Inr ds \<Rightarrow> (None, s\<lparr>fs_dirs := ds @ fs_dirs s\<rparr>))"

section \<open>The account\<close>

definition User_Save :: "cert_env \<Rightarrow> string \<Rightarrow> User \<Rightarrow> certFS \<Rightarrow> err \<times> User \<times> certFS" where
  "User_Save E path u s =
     (case checkPath E path s of
        (Some e, s) \<Rightarrow> (Some (''check path error: '' @ e), u, s)
      | (None, s) \<Rightarrow>
          let u = u\<lparr>us_KeyEncoded := us_key u\<rparr> in
          (case writeFile E path (lv_encodeUser E u) s of
             (Some e, s) \<Rightarrow> (Some e, u, s)
           | (None, s) \<Rightarrow> (None, u\<lparr>us_KeyEncoded := []\<rparr>, s)))"

text \<open>A key that is no PEM block is a nil pointer.\<close>

definition User_Load :: "cert_env \<Rightarrow> string \<Rightarrow> User \<Rightarrow> certFS \<Rightarrow> (err \<times> User) outcome" where
  "User_Load E path u s =
     (case readFile E path s of
        Inl e \<Rightarrow> Ret (Some (''open file error: '' @ e), u)
      | Inr data \<Rightarrow> (case lv_decodeUser E data u of
          (u, Some e) \<Rightarrow> Ret (Some (''unmarshal json error: '' @ e), u)
        | (u, None) \<Rightarrow> (case lv_decodeKey E (us_KeyEncoded u) of
            Panic \<Rightarrow> Panic
          | Ret (Inl e) \<Rightarrow> Ret (Some (''decode private key error: '' @ e), u)
          | Ret (Inr k) \<Rightarrow> Ret (None, u\<lparr>us_key := k\<rparr>))))"

definition registerUser :: "cert_env \<Rightarrow> string \<Rightarrow> User \<Rightarrow> certFS \<Rightarrow> err \<times> User \<times> certFS" where
  "registerUser E path u s =
     (case lv_genKey E of
        Inl e \<Rightarrow> (Some (''generate key error: '' @ e), u, s)
      | Inr k \<Rightarrow>
          let u = u\<lparr>us_key := k\<rparr> in
          (case lv_newClient E k (us_Email u) of
             Some e \<Rightarrow> (Some (''create lego client error: '' @ e), u, s)
           | None \<Rightarrow> (case lv_register E k (us_Email u) of
               Inl e \<Rightarrow> (Some e, u, s)
             | Inr reg \<Rightarrow> (case User_Save E path (u\<lparr>us_Registration := Some reg\<rparr>) s of
                 (Some e, u, s) \<Rightarrow> (Some (''save user error: '' @ e), u, s)
               | (None, u, s) \<Rightarrow> (None, u, s)))))"

definition NewLegoUser :: "cert_env \<Rightarrow> string \<Rightarrow> string \<Rightarrow> certFS \<Rightarrow> (User res \<times> certFS) outcome" where
  "NewLegoUser E path email s =
     (let zero = \<lparr>us_Email = [], us_Registration = None, us_key = [], us_KeyEncoded = []\<rparr>;
          register = (\<lambda>u. case registerUser E path u s of
            (Some e, u, s) \<Rightarrow> Ret (Inl e, s) | (None, u, s) \<Rightarrow> Ret (Inr u, s)) in
      if IsExist path s then
        (case User_Load E path zero s of
           Panic \<Rightarrow> Panic
         | Ret (Some e, u) \<Rightarrow> Ret (Inl e, s)
         | Ret (None, u) \<Rightarrow>
             if us_Email u \<noteq> email then register (u\<lparr>us_Registration := None, us_Email := email\<rparr>)
             else Ret (Inr u, s))
      else register (zero\<lparr>us_Email := email\<rparr>))"

section \<open>Obtaining and renewing\<close>

definition SetProvider :: "cert_env \<Rightarrow> CertConfig \<Rightarrow> certFS \<Rightarrow> err \<times> certFS" where
  "SetProvider E c s =
     (if cc_CertMode c = ''http'' then (lv_http01 E, s)
      else if cc_CertMode c = ''dns'' then
        (let s = s\<lparr>fs_env := fold (\<lambda>(k, v). mstore k v) (cc_DNSEnv c) (fs_env s)\<rparr> in
         (case lv_dnsProvider E (cc_Provider c) (fs_env s) of
            Some e \<Rightarrow> (Some (''create dns challenge provider error: '' @ e), s)
          | None \<Rightarrow> (case lv_dns01 E of
              Some e \<Rightarrow> (Some (''set dns provider error: '' @ e), s)
            | None \<Rightarrow> (None, s))))
      else (None, s))"

definition NewLego :: "cert_env \<Rightarrow> CertConfig \<Rightarrow> certFS \<Rightarrow> (err \<times> certFS) outcome" where
  "NewLego E c s =
     (case NewLegoUser E (lv_join E [lv_dir E (cc_CertFile c), ''user'', ''user-'' @ cc_Email c @ ''.json''])
             (cc_Email c) s of
        Panic \<Rightarrow> Panic
      | Ret (Inl e, s) \<Rightarrow> Ret (Some (''create user error: '' @ e), s)
      | Ret (Inr u, s) \<Rightarrow> (case lv_newClient E (us_key u) (us_Email u) of
          Some e \<Rightarrow> Ret (Some e, s)
        | None \<Rightarrow> (case SetProvider E c s of
            (Some e, s) \<Rightarrow> Ret (Some (''set provider error: '' @ e), s)
          | (None, s) \<Rightarrow> Ret (None, s))))"

text \<open>strings.NewReplacer for the two parameters: at each place the first of them that fits.\<close>

fun parseParams :: "string \<Rightarrow> string \<Rightarrow> string \<Rightarrow> string" where
  "parseParams domain email [] = []"
| "parseParams domain email (x # xs) =
     (if has_prefix (x # xs) ''{domain}'' then domain @ parseParams domain email (drop 7 xs)
      else if has_prefix (x # xs) ''{email}'' then email @ parseParams domain email (drop 6 xs)
      else x # parseParams domain email xs)"

definition writeCert :: "cert_env \<Rightarrow> CertConfig \<Rightarrow> string \<times> string \<Rightarrow> certFS \<Rightarrow> err \<times> certFS" where
  "writeCert E c certs s =
     (let name = parseParams (cc_CertDomain c) (cc_Email c) in
      case checkPath E (cc_CertFile c) s of
        (Some e, s) \<Rightarrow> (Some (''check path error: '' @ e), s)
      | (None, s) \<Rightarrow> (case writeFile E (name (cc_CertFile c)) (fst certs) s of
          (Some e, s) \<Rightarrow> (Some e, s)
        | (None, s) \<Rightarrow> (case checkPath E (cc_KeyFile c) s of
            (Some e, s) \<Rightarrow> (Some (''check path error: '' @ e), s)
          | (None, s) \<Rightarrow> writeFile E (name (cc_KeyFile c)) (snd certs) s)))"

definition CreateCert :: "cert_env \<Rightarrow> CertConfig \<Rightarrow> certFS \<Rightarrow> err \<times> certFS" where
  "CreateCert E c s =
     (case lv_obtain E (cc_CertDomain c) of
        Inl e \<Rightarrow> (Some (''obtain certificate error: '' @ e), s)
      | Inr certs \<Rightarrow> (case writeCert E c certs s of
          (Some e, s) \<Rightarrow> (Some (''write certificate error: '' @ e), s)
        | (None, s) \<Rightarrow> (None, s)))"

text \<open>Whole days until the end, up to the rounding of the floating-point division.\<close>

definition CheckCert :: "cert_env \<Rightarrow> string \<Rightarrow> bool \<times> err" where
  "CheckCert E file =
     (case lv_notAfter E file of
        Inl e \<Rightarrow> (False, Some e)
      | Inr notAfter \<Rightarrow> if go_div (notAfter - lv_now E) (24 * 3600 * 1000000000) > 30 then (False, None) else (True, None))"

definition RenewCert :: "cert_env \<Rightarrow> CertConfig \<Rightarrow> certFS \<Rightarrow> err \<times> certFS" where
  "RenewCert E c s =
     (case readFile E (cc_CertFile c) s of
        Inl e \<Rightarrow> (Some (''read cert file error: '' @ e), s)
      | Inr file \<Rightarrow>
          (case CheckCert E file of
             (False, _) \<Rightarrow> (None, s)
           | (True, Some e) \<Rightarrow> (Some (''check cert error: '' @ e), s)
           | (True, None) \<Rightarrow> (case lv_renew E (cc_CertDomain c) file of
               Inl e \<Rightarrow> (Some e, s)
             | Inr res \<Rightarrow> (case writeCert E c res s of
                 (Some e, s) \<Rightarrow> (Some (''write certificate error: '' @ e), s)
               | (None, s) \<Rightarrow> (None, s)))))"

section \<open>The controller's operations\<close>

text \<open>Errors are only logged.\<close>

definition renewCertTask :: "cert_env \<Rightarrow> CertConfig option \<Rightarrow> certFS \<Rightarrow> certFS outcome" where
  "renewCertTask E cc s =
     (case cc of
        None \<Rightarrow> Panic
      | Some c \<Rightarrow> (case NewLego E c s of
          Panic \<Rightarrow> Panic
        | Ret (Some e, s) \<Rightarrow> Ret s
        | Ret (None, s) \<Rightarrow> Ret (snd (RenewCert E c s))))"

definition generateSelfSslCertificate :: "cert_env \<Rightarrow> string \<Rightarrow> string \<Rightarrow> string \<Rightarrow> certFS \<Rightarrow> err \<times> certFS" where
  "generateSelfSslCertificate E domain certPath keyPath s =
     (case lv_selfSigned E domain of
        Inl e \<Rightarrow> (Some e, s)
      | Inr (cert, key) \<Rightarrow> (case overwriteFile E certPath (lv_pem E ''CERTIFICATE'' cert) s of
          (Some e, s) \<Rightarrow> (Some e, s)
        | (None, s) \<Rightarrow> overwriteFile E keyPath (lv_pem E ''EC PRIVATE KEY'' key) s))"

definition requestCert :: "cert_env \<Rightarrow> CertConfig option \<Rightarrow> certFS \<Rightarrow> (err \<times> certFS) outcome" where
  "requestCert E cc s =
     (case cc of
        None \<Rightarrow> Panic
      | Some c \<Rightarrow>
          let mode = cc_CertMode c; unnamed = cc_CertFile c = [] \<or> cc_KeyFile c = [];
              present = IsExist (cc_CertFile c) s \<and> IsExist (cc_KeyFile c) s;
              noPath = Some ''cert file path or key file path not exist'' in
          if mode = ''none'' \<or> mode = [] then Ret (None, s)
          else if mode = ''file'' then Ret (if unnamed then noPath else None, s)
          else if mode = ''dns'' \<or> mode = ''http'' then
            (if unnamed then Ret (noPath, s)
             else if present then Ret (None, s)
             else case NewLego E c s of
                 Panic \<Rightarrow> Panic
               | Ret (Some e, s) \<Rightarrow> Ret (Some (''create lego object error: '' @ e), s)
               | Ret (None, s) \<Rightarrow> (case CreateCert E c s of
                   (Some e, s) \<Rightarrow> Ret (Some (''create lego cert error: '' @ e), s)
                 | (None, s) \<Rightarrow> Ret (None, s)))
          else if mode = ''self'' then
            (if unnamed then Ret (noPath, s)
             else if present then Ret (None, s)
             else case generateSelfSslCertificate E (cc_CertDomain c) (cc_CertFile c) (cc_KeyFile c) s of
                 (Some e, s) \<Rightarrow> Ret (Some (''generate self cert error: '' @ e), s)
               | (None, s) \<Rightarrow> Ret (None, s))
          else Ret (Some (''unsupported certmode: '' @ mode), s))"

section \<open>Lemmas\<close>

lemma parseParams_id: "CHR ''{'' \<notin> set p \<Longrightarrow> parseParams domain email p = p"
  by (induction p) auto

lemma checkPath_frame:
  assumes "checkPath E p s = (e, s')"
  shows "fs_files s' = fs_files s"
  using assms by (auto simp: checkPath_def split: if_splits sum.splits)

lemma writeFile_ok:
  "writeFile E p c s = (None, s') \<Longrightarrow> map_of (fs_files s') = (map_of (fs_files s))(p \<mapsto> c)"
  by (auto simp: writeFile_def map_of_mstore fun_eq_iff split: option.splits)

lemma writeCert_ok:
  assumes "writeCert E c certs s = (None, s')"
  shows "map_of (fs_files s') = (map_of (fs_files s))
    (parseParams (cc_CertDomain c) (cc_Email c) (cc_CertFile c) \<mapsto> fst certs,
     parseParams (cc_CertDomain c) (cc_Email c) (cc_KeyFile c) \<mapsto> snd certs)"
proof -
  let ?n = "parseParams (cc_CertDomain c) (cc_Email c)"
  obtain s1 s2 s3 where r: "checkPath E (cc_CertFile c) s = (None, s1)"
    "writeFile E (?n (cc_CertFile c)) (fst certs) s1 = (None, s2)"
    "checkPath E (cc_KeyFile c) s2 = (None, s3)" "writeFile E (?n (cc_KeyFile c)) (snd certs) s3 = (None, s')"
    using assms by (auto simp: writeCert_def Let_def split: prod.splits option.splits)
  show ?thesis
    using writeFile_ok [OF r(2)] writeFile_ok [OF r(4)] checkPath_frame [OF r(1)] checkPath_frame [OF r(3)]
    by simp
qed

lemma self_signed_ok:
  assumes "generateSelfSslCertificate E domain cp kp s = (None, s')"
  shows "map_of (fs_files s') cp \<noteq> None \<and> map_of (fs_files s') kp \<noteq> None"
  using assms
  by (auto simp: generateSelfSslCertificate_def overwriteFile_def Let_def map_of_mstore
      split: sum.splits option.splits)

lemma CreateCert_ok:
  assumes "CreateCert E c s = (None, s')"
  shows "\<exists>certs. lv_obtain E (cc_CertDomain c) = Inr certs \<and> writeCert E c certs s = (None, s')"
  using assms by (auto simp: CreateCert_def split: sum.splits prod.splits option.splits)

section \<open>Properties\<close>

text \<open>C14: requestCert without error, in a mode that makes certificates: when neither Stat said that a file
  is missing nothing is done; otherwise both files are there afterwards, the ones of the ACME server
  holding what it gave.  The names of the files must not use the parameters {domain} and {email}: the
  files written have the parameters replaced, the files looked for have not.  A file whose Stat fails
  for another reason than being missing counts as present, so then nothing is made.\<close>

theorem requestCert_provides:
  assumes "requestCert E (Some c) s = Ret (None, s')" "cc_CertMode c \<in> {''dns'', ''http'', ''self''}"
    and "CHR ''{'' \<notin> set (cc_CertFile c)" "CHR ''{'' \<notin> set (cc_KeyFile c)"
  shows "if osStat (cc_CertFile c) s \<noteq> Some NotExist \<and> osStat (cc_KeyFile c) s \<noteq> Some NotExist then s' = s
    else map_of (fs_files s') (cc_CertFile c) \<noteq> None \<and> map_of (fs_files s') (cc_KeyFile c) \<noteq> None \<and>
      (cc_CertMode c \<noteq> ''self'' \<longrightarrow> (\<exists>cert key. lv_obtain E (cc_CertDomain c) = Inr (cert, key) \<and>
        map_of (fs_files s') (cc_KeyFile c) = Some key \<and>
        (cc_CertFile c \<noteq> cc_KeyFile c \<longrightarrow> map_of (fs_files s') (cc_CertFile c) = Some cert)))"
proof (cases "IsExist (cc_CertFile c) s \<and> IsExist (cc_KeyFile c) s")
  case True
  then have "s' = s"
    using assms(1,2) by (auto simp: requestCert_def Let_def split: if_splits)
  then show ?thesis
    using True by (auto simp: IsExist_def)
next
  case False
  then have missing: "\<not> (osStat (cc_CertFile c) s \<noteq> Some NotExist \<and> osStat (cc_KeyFile c) s \<noteq> Some NotExist)"
    by (auto simp: IsExist_def Let_def)
  show ?thesis
  proof (cases "cc_CertMode c = ''self''")
    case True
    then have "generateSelfSslCertificate E (cc_CertDomain c) (cc_CertFile c) (cc_KeyFile c) s = (None, s')"
      using assms(1) False
      by (auto simp: requestCert_def Let_def split: if_splits prod.splits option.splits)
    then show ?thesis
      using self_signed_ok missing True by auto
  next
    case other: False
    then obtain s1 where "CreateCert E c s1 = (None, s')"
      using assms(1,2) False
      by (auto simp: requestCert_def Let_def split: if_splits outcome.splits prod.splits option.splits)
    then obtain cert key where "lv_obtain E (cc_CertDomain c) = Inr (cert, key)"
      and w: "writeCert E c (cert, key) s1 = (None, s')"
      using CreateCert_ok by fastforce
    then show ?thesis
      using missing writeCert_ok [OF w]
      by (auto simp: parseParams_id [OF assms(3)] parseParams_id [OF assms(4)])
  qed
qed

text \<open>C29: Renewal: a certificate that is still valid for more than thirty days, and one that cannot be
  parsed, are left alone without an error; any other is replaced by what the ACME server gives, key
  included.\<close>

theorem RenewCert_decides:
  assumes "RenewCert E c s = (None, s')" "readFile E (cc_CertFile c) s = Inr file"
  shows "(case lv_notAfter E file of
      Inl e \<Rightarrow> s' = s
    | Inr t \<Rightarrow>
        if go_div (t - lv_now E) (24 * 3600 * 1000000000) > 30 then s' = s
        else \<exists>cert key. lv_renew E (cc_CertDomain c) file = Inr (cert, key) \<and>
          map_of (fs_files s') = (map_of (fs_files s))
            (parseParams (cc_CertDomain c) (cc_Email c) (cc_CertFile c) \<mapsto> cert,
             parseParams (cc_CertDomain c) (cc_Email c) (cc_KeyFile c) \<mapsto> key))"
proof (cases "lv_notAfter E file")
  case (Inl e)
  then show ?thesis using assms by (simp add: RenewCert_def CheckCert_def)
next
  case (Inr t)
  show ?thesis
  proof (cases "go_div (t - lv_now E) (24 * 3600 * 1000000000) > 30")
    case True
    then show ?thesis using assms Inr by (simp add: RenewCert_def CheckCert_def)
  next
    case False
    then obtain certs where "lv_renew E (cc_CertDomain c) file = Inr certs" "writeCert E c certs s = (None, s')"
      using assms Inr by (auto simp: RenewCert_def CheckCert_def split: sum.splits prod.splits option.splits)
    then show ?thesis
      using writeCert_ok [of E c certs s s'] Inr False by (cases certs) simp
  qed
qed

text \<open>With a parameter in its name the certificate is obtained anew on every start.\<close>

lemma requestCert_parameter_repeats:
  assumes "cc_CertMode c = ''dns''" "cc_CertFile c \<noteq> []" "cc_KeyFile c \<noteq> []" "\<not> IsExist (cc_CertFile c) s"
    and "NewLego E c s = Ret (None, s1)" "lv_obtain E (cc_CertDomain c) = Inl e"
  shows "requestCert E (Some c) s = Ret (Some (''create lego cert error: obtain certificate error: '' @ e), s1)"
  using assms by (simp add: requestCert_def CreateCert_def Let_def)

section \<open>Witnesses\<close>

definition wit_cert_env :: cert_env where
  "wit_cert_env = \<lparr>lv_dir = (\<lambda>p. ''d''), lv_join = concat, lv_mkdirAll = (\<lambda>d. Inr [d]), lv_open = (\<lambda>p s. None),
     lv_read = (\<lambda>p. None), lv_genKey = Inr ''k'', lv_newClient = (\<lambda>k e. None), lv_register = (\<lambda>k e. Inr ''r''),
     lv_http01 = None, lv_dnsProvider = (\<lambda>p e. None), lv_dns01 = None, lv_obtain = (\<lambda>d. Inr (''C'', ''K'')),
     lv_renew = (\<lambda>d c. Inr (''C2'', ''K2'')), lv_notAfter = (\<lambda>c. Inr 0), lv_now = 0, lv_pem = (\<lambda>t b. b),
     lv_selfSigned = (\<lambda>d. Inr (''C'', ''K'')), lv_decodeUser = (\<lambda>d u. (u, None)), lv_encodeUser = (\<lambda>u. ''{}''),
     lv_decodeKey = (\<lambda>k. Ret (Inr k))\<rparr>"

definition wit_cert :: CertConfig where
  "wit_cert = NewCertConfig\<lparr>cc_CertMode := ''http'', cc_CertFile := ''c'', cc_KeyFile := ''k''\<rparr>"

definition wit_fs :: certFS where
  "wit_fs = \<lparr>fs_files = [(''c'', ''old'')], fs_dirs = [], fs_env = [], fs_hidden = []\<rparr>"

theorem requestCert_provides_witness:
  "\<exists>s'. requestCert wit_cert_env (Some wit_cert) wit_fs = Ret (None, s') \<and> map_of (fs_files s') ''k'' = Some ''K''"
proof -
  have "(case requestCert wit_cert_env (Some wit_cert) wit_fs of Ret (None, s') \<Rightarrow> True | _ \<Rightarrow> False)"
    by code_simp
  then obtain s' where r: "requestCert wit_cert_env (Some wit_cert) wit_fs = Ret (None, s')"
    by (auto split: outcome.split_asm prod.split_asm option.split_asm)
  show ?thesis
    using requestCert_provides [OF r] r
    by (auto simp: wit_cert_def NewCertConfig_def osStat_def wit_fs_def wit_cert_env_def)
qed

theorem RenewCert_decides_witness:
  "\<exists>s'. RenewCert wit_cert_env wit_cert wit_fs = (None, s') \<and> map_of (fs_files s') ''c'' = Some ''C2''"
proof -
  have "(case RenewCert wit_cert_env wit_cert wit_fs of (None, s') \<Rightarrow> True | _ \<Rightarrow> False)"
    by code_simp
  then obtain s' where r: "RenewCert wit_cert_env wit_cert wit_fs = (None, s')"
    by (auto split: prod.split_asm option.split_asm)
  have f: "readFile wit_cert_env (cc_CertFile wit_cert) wit_fs = Inr ''old''"
    by (simp add: readFile_def wit_fs_def wit_cert_def wit_cert_env_def)
  show ?thesis
    using RenewCert_decides [OF r f] r
    by (simp add: wit_cert_env_def wit_cert_def NewCertConfig_def go_div_def)
qed

end
