(* ===== verification/Periodic_Task.thy ===== *)
theory Periodic_Task
  imports Prelude
begin

text \<open>
  The periodic task of common/task/task.go as a state machine: the fields of the struct, the
  channels that have been closed, and the program counters of the goroutines that Start has
  spawned.  Goroutines interleave with Start and Close calls (also calls made from inside
  Execute); Start, Close and the error branch of the loop are atomic, being under the mutex.

  A loop evaluates \<open>t.stop\<close> each time it enters its select statement, so a waiting loop
  remembers the channel it waits on.
\<close>

section \<open>State and operations\<close>

datatype pc = Enter | Waiting nat | Executing

record Task =
  t_running :: bool
  t_stop :: nat
  t_fresh :: nat
  t_closed :: "nat list"
  t_loops :: "pc list"

text \<open>Channel 0 stands for the nil channel of a task never started: nothing closes it.\<close>

definition newTask :: Task where
  "newTask = \<lparr>t_running = False, t_stop = 0, t_fresh = 1, t_closed = [], t_loops = []\<rparr>"

text \<open>close of a channel panics when it is nil or already closed.\<close>

definition closeStop :: "Task \<Rightarrow> Task outcome" where
  "closeStop t = (if t_stop t = 0 \<or> t_stop t \<in> set (t_closed t) then Panic
     else Ret (t\<lparr>t_closed := t_stop t # t_closed t\<rparr>))"

definition Start :: "bool \<Rightarrow> Task \<Rightarrow> Task" where
  "Start first t =
     (if t_running t then t
      else t\<lparr>t_running := True, t_stop := t_fresh t, t_fresh := t_fresh t + 1,
             t_loops := t_loops t @ [if first then Executing else Enter]\<rparr>)"

definition Close :: "Task \<Rightarrow> Task outcome" where
  "Close t = (if t_running t then closeStop (t\<lparr>t_running := False\<rparr>) else Ret t)"

text \<open>The steps of the i-th goroutine: it enters the select, the timer fires, the stop channel is
  found closed, Execute returns nil, Execute returns an error.\<close>

definition setLoop :: "nat \<Rightarrow> pc \<Rightarrow> Task \<Rightarrow> Task" where
  "setLoop i p t = t\<lparr>t_loops := (t_loops t)[i := p]\<rparr>"

definition endLoop :: "nat \<Rightarrow> Task \<Rightarrow> Task" where
  "endLoop i t = t\<lparr>t_loops := take i (t_loops t) @ drop (Suc i) (t_loops t)\<rparr>"

definition loopEnter :: "nat \<Rightarrow> Task \<Rightarrow> Task" where
  "loopEnter i t = setLoop i (Waiting (t_stop t)) t"

definition loopTimer :: "nat \<Rightarrow> Task \<Rightarrow> Task" where
  "loopTimer i t = setLoop i Executing t"

definition loopOk :: "nat \<Rightarrow> Task \<Rightarrow> Task" where
  "loopOk i t = setLoop i Enter t"

definition loopErr :: "nat \<Rightarrow> Task \<Rightarrow> Task outcome" where
  "loopErr i t = closeStop (endLoop i (t\<lparr>t_running := False\<rparr>))"

section \<open>Steps\<close>

inductive task_step :: "bool \<Rightarrow> Task \<Rightarrow> Task outcome \<Rightarrow> bool" for errs where
  start: "task_step errs t (Ret (Start first t))"
| close: "task_step errs t (Close t)"
| enter: "i < length (t_loops t) \<Longrightarrow> t_loops t ! i = Enter \<Longrightarrow> task_step errs t (Ret (loopEnter i t))"
| timer: "i < length (t_loops t) \<Longrightarrow> t_loops t ! i = Waiting ch \<Longrightarrow> task_step errs t (Ret (loopTimer i t))"
| stop: "i < length (t_loops t) \<Longrightarrow> t_loops t ! i = Waiting ch \<Longrightarrow> ch \<in> set (t_closed t) \<Longrightarrow>
     task_step errs t (Ret (endLoop i t))"
| ok: "i < length (t_loops t) \<Longrightarrow> t_loops t ! i = Executing \<Longrightarrow> task_step errs t (Ret (loopOk i t))"
| err: "errs \<Longrightarrow> i < length (t_loops t) \<Longrightarrow> t_loops t ! i = Executing \<Longrightarrow> task_step errs t (loopErr i t)"

text \<open>\<open>errs\<close> says whether Execute may return an error; the program's tasks never do.\<close>

inductive task_reach :: "bool \<Rightarrow> Task \<Rightarrow> bool" for errs where
  init: "task_reach errs newTask"
| step: "task_reach errs t \<Longrightarrow> task_step errs t (Ret t') \<Longrightarrow> task_reach errs t'"

inductive_cases task_panicE: "task_step errs t Panic"

section \<open>Invariant\<close>

text \<open>The task runs iff its stop channel is open; a waiting loop waits on the current channel or
  on a closed one; no channel is reused.\<close>

definition task_inv :: "Task \<Rightarrow> bool" where
  "task_inv t \<longleftrightarrow>
     (t_running t \<longleftrightarrow> t_stop t \<noteq> 0 \<and> t_stop t \<notin> set (t_closed t)) \<and>
     t_stop t < t_fresh t \<and> (\<forall>ch \<in> set (t_closed t). ch < t_fresh t) \<and>
     (\<forall>ch. Waiting ch \<in> set (t_loops t) \<longrightarrow> ch = t_stop t \<or> ch \<in> set (t_closed t)) \<and>
     (t_stop t = 0 \<longrightarrow> t_loops t = [])"

lemma task_inv_init: "task_inv newTask"
  by (simp add: task_inv_def newTask_def)

lemma task_inv_Start: "task_inv t \<Longrightarrow> task_inv (Start first t)"
  by (auto simp: task_inv_def Start_def)

lemma task_inv_Close: "task_inv t \<Longrightarrow> \<exists>t'. Close t = Ret t' \<and> task_inv t' \<and> \<not> t_running t'"
  by (auto simp: task_inv_def Close_def closeStop_def)

lemma set_endLoop: "set (t_loops (endLoop i t)) \<subseteq> set (t_loops t)"
  by (auto simp: endLoop_def dest: in_set_takeD in_set_dropD)

lemma set_setLoop: "set (t_loops (setLoop i p t)) \<subseteq> insert p (set (t_loops t))"
  by (auto simp: setLoop_def dest: set_update_subset_insert [THEN subsetD])

lemma task_inv_setLoop:
  assumes "task_inv t" and "i < length (t_loops t)" and "\<And>ch. p = Waiting ch \<Longrightarrow> ch = t_stop t"
  shows "task_inv (setLoop i p t)"
  using assms set_setLoop [of i p t]
  by (auto simp: task_inv_def setLoop_def)

lemma task_inv_endLoop: "task_inv t \<Longrightarrow> task_inv (endLoop i t)"
  using set_endLoop [of i t] by (auto simp: task_inv_def endLoop_def)

lemma task_inv_err:
  assumes "task_inv t" and "i < length (t_loops t)" and "loopErr i t = Ret t'"
  shows "task_inv t'"
proof -
  have "ch = t_stop t \<or> ch \<in> set (t_closed t)" if "Waiting ch \<in> set (t_loops (endLoop i t))" for ch
    using that assms(1) set_endLoop [of i t] by (auto simp: task_inv_def)
  then show ?thesis
    using assms by (auto simp: loopErr_def closeStop_def task_inv_def endLoop_def split: if_splits)
qed

lemma task_step_inv: "task_step errs t r \<Longrightarrow> task_inv t \<Longrightarrow> r = Ret t' \<Longrightarrow> task_inv t'"
proof (induction rule: task_step.induct)
  case (close t)
  then show ?case using task_inv_Close by fastforce
next
  case (err i t)
  then show ?case by (auto intro: task_inv_err)
qed (auto intro: task_inv_Start task_inv_setLoop task_inv_endLoop
       simp: loopEnter_def loopTimer_def loopOk_def)

lemma task_reach_inv_aux: "task_reach errs t \<Longrightarrow> task_inv t"
  by (induction rule: task_reach.induct) (auto intro: task_inv_init task_step_inv)

text \<open>C27: In every reachable state, whatever the interleaving and whether or not Execute fails,
  the task is marked running exactly when its stop channel is open, every waiting loop waits on
  that channel or on a closed one, and Close succeeds: it never closes a channel twice.\<close>

theorem task_reach_inv:
  assumes "task_reach errs t"
  shows "task_inv t \<and> Close t \<noteq> Panic"
  using task_reach_inv_aux [OF assms] task_inv_Close by fastforce

text \<open>The only way to a panic: Execute returns an error on a goroutine while the task is
  not running any more (a Close came in between), and the loop closes the closed channel again.
  In particular the task never panics as long as Execute never fails.\<close>

theorem task_panic_iff:
  assumes "task_reach errs t"
  shows "task_step errs t Panic \<longleftrightarrow> errs \<and> \<not> t_running t \<and> Executing \<in> set (t_loops t)"
proof
  assume "task_step errs t Panic"
  then show "errs \<and> \<not> t_running t \<and> Executing \<in> set (t_loops t)"
  proof (rule task_panicE)
    assume "Panic = Close t"
    then show ?thesis using task_reach_inv_aux [OF assms] task_inv_Close by force
  next
    fix i
    assume "Panic = loopErr i t" "errs" and i: "i < length (t_loops t)" "t_loops t ! i = Executing"
    then have "t_stop t = 0 \<or> t_stop t \<in> set (t_closed t)"
      by (auto simp: loopErr_def closeStop_def endLoop_def split: if_splits)
    with i \<open>errs\<close> task_reach_inv_aux [OF assms] show ?thesis
      by (auto simp: task_inv_def in_set_conv_nth)
  qed
next
  assume a: "errs \<and> \<not> t_running t \<and> Executing \<in> set (t_loops t)"
  then obtain i where i: "i < length (t_loops t)" "t_loops t ! i = Executing"
    by (auto simp: in_set_conv_nth)
  have "loopErr i t = Panic"
    using a task_reach_inv_aux [OF assms]
    by (auto simp: loopErr_def closeStop_def endLoop_def task_inv_def)
  with a i show "task_step errs t Panic" using task_step.err [of errs i t] by simp
qed

text \<open>A run of steps without panic.\<close>

inductive task_steps :: "Task \<Rightarrow> Task \<Rightarrow> bool" where
  refl: "task_steps t t"
| more: "task_step False t (Ret t') \<Longrightarrow> task_steps t' t'' \<Longrightarrow> task_steps t t''"

lemma task_steps_trans: "task_steps a b \<Longrightarrow> task_steps b c \<Longrightarrow> task_steps a c"
  by (induction rule: task_steps.induct) (auto intro: task_steps.more)

lemma setLoop_set_same: "i < length (t_loops t) \<Longrightarrow> setLoop i q (setLoop i p t) = setLoop i q t"
  by (simp add: setLoop_def)

lemma wind_down_first:
  assumes "task_inv t" and "\<not> t_running t" and "t_loops t = p # ps"
  shows "task_steps t (t\<lparr>t_loops := ps\<rparr>)"
proof -
  have nonnil: "t_stop t \<noteq> 0" and closed: "t_stop t \<in> set (t_closed t)"
    using assms by (auto simp: task_inv_def)
  have waiting: "task_steps (setLoop 0 (Waiting ch) t) (t\<lparr>t_loops := ps\<rparr>)"
    if "ch \<in> set (t_closed t)" for ch
  proof -
    have "endLoop 0 (setLoop 0 (Waiting ch) t) = t\<lparr>t_loops := ps\<rparr>"
      using assms(3) by (simp add: endLoop_def setLoop_def)
    then have "task_step False (setLoop 0 (Waiting ch) t) (Ret (t\<lparr>t_loops := ps\<rparr>))"
      using that assms(3) task_step.stop [of 0 "setLoop 0 (Waiting ch) t" ch False]
      by (simp add: setLoop_def)
    then show ?thesis by (rule task_steps.more [OF _ task_steps.refl])
  qed
  have entered: "task_steps (setLoop 0 Enter t) (t\<lparr>t_loops := ps\<rparr>)"
  proof -
    have "task_step False (setLoop 0 Enter t) (Ret (setLoop 0 (Waiting (t_stop t)) t))"
      using assms(3) task_step.enter [of 0 "setLoop 0 Enter t" False]
      by (simp add: setLoop_def loopEnter_def)
    then show ?thesis using waiting [OF closed] by (rule task_steps.more)
  qed
  have self: "setLoop 0 p t = t" using assms(3) by (simp add: setLoop_def)
  show ?thesis
  proof (cases p)
    case Enter
    with entered self show ?thesis by simp
  next
    case (Waiting ch)
    with assms have "ch \<in> set (t_closed t)" using closed by (auto simp: task_inv_def)
    with waiting [of ch] self Waiting show ?thesis by simp
  next
    case Executing
    have "task_step False t (Ret (setLoop 0 Enter t))"
      using assms(3) Executing task_step.ok [of 0 t False] by (simp add: loopOk_def)
    then show ?thesis using entered by (rule task_steps.more)
  qed
qed

text \<open>C28: Once closed, a task can wind down: from every reachable state in which it is not
  running there is a run, without a panic, that ends every goroutine it has spawned.\<close>

theorem task_winds_down:
  assumes "task_reach errs t" and "\<not> t_running t"
  shows "\<exists>t'. task_steps t t' \<and> t_loops t' = []"
proof -
  have "task_inv t \<Longrightarrow> \<not> t_running t \<Longrightarrow> t_loops t = ps \<Longrightarrow> \<exists>t'. task_steps t t' \<and> t_loops t' = []" for ps t
  proof (induction ps arbitrary: t)
    case Nil
    then show ?case by (auto intro: task_steps.refl)
  next
    case (Cons p ps)
    let ?t = "t\<lparr>t_loops := ps\<rparr>"
    have "task_inv ?t" "\<not> t_running ?t"
      using Cons.prems by (auto simp: task_inv_def)
    with Cons.IH [of ?t] obtain t' where "task_steps ?t t'" "t_loops t' = []" by auto
    then show ?case
      using wind_down_first [OF Cons.prems] by (blast intro: task_steps_trans)
  qed
  then show ?thesis using assms task_reach_inv_aux by blast
qed

text \<open>A task that restarts itself doubles itself.  When Execute, running on the only goroutine
  of a running task, calls Close and then Start(false) on its own task (which nodeInfoMonitor does
  when the pull interval changes), the old goroutine returns into its loop, picks up the new stop
  channel, and waits beside the new goroutine: two loops run from then on.\<close>

theorem self_restart_doubles:
  assumes "task_reach errs t" and "t_running t" and "t_loops t = [Executing]"
  shows "\<exists>t1 t2. Close t = Ret t1 \<and> t2 = loopEnter 1 (loopEnter 0 (loopOk 0 (Start False t1)))
    \<and> task_reach errs t2 \<and> t_running t2
    \<and> t_loops t2 = [Waiting (t_stop t2), Waiting (t_stop t2)] \<and> t_stop t2 \<notin> set (t_closed t2)"
proof -
  have inv: "task_inv t" using assms(1) by (rule task_reach_inv_aux)
  let ?t1 = "t\<lparr>t_running := False, t_closed := t_stop t # t_closed t\<rparr>"
  let ?s = "Start False ?t1"
  let ?t2 = "loopEnter 1 (loopEnter 0 (loopOk 0 ?s))"
  have close: "Close t = Ret ?t1"
    using inv assms(2) by (simp add: Close_def closeStop_def task_inv_def)
  have s: "t_loops ?s = [Executing, Enter]" "t_running ?s" "t_stop ?s = t_fresh t"
    "t_closed ?s = t_stop t # t_closed t"
    using assms(3) by (simp_all add: Start_def)
  have "task_reach errs ?t1"
    using assms(1) close task_step.close [of errs t] by (auto intro: task_reach.step)
  then have "task_reach errs ?s" by (rule task_reach.step [OF _ task_step.start])
  then have "task_reach errs (loopOk 0 ?s)"
    by (rule task_reach.step [OF _ task_step.ok]) (simp_all add: s)
  then have "task_reach errs (loopEnter 0 (loopOk 0 ?s))"
    by (rule task_reach.step [OF _ task_step.enter]) (simp_all add: s loopOk_def setLoop_def)
  then have reach: "task_reach errs ?t2"
    by (rule task_reach.step [OF _ task_step.enter])
       (simp_all add: s loopOk_def loopEnter_def setLoop_def)
  have "t_loops ?t2 = [Waiting (t_stop ?t2), Waiting (t_stop ?t2)]" "t_running ?t2"
    "t_stop ?t2 \<notin> set (t_closed ?t2)"
    using inv s by (auto simp: loopOk_def loopEnter_def setLoop_def task_inv_def)
  with close reach show ?thesis by blast
qed

section \<open>Witnesses\<close>

text \<open>A task that has been started with an immediate first run, and the same task closed.\<close>

lemma wit_started: "task_reach errs (Start True newTask)"
  by (rule task_reach.step [OF task_reach.init task_step.start])

lemma wit_closed:
  "task_reach errs ((Start True newTask)\<lparr>t_running := False, t_closed := [1]\<rparr>)"
proof -
  have "Close (Start True newTask) = Ret ((Start True newTask)\<lparr>t_running := False, t_closed := [1]\<rparr>)"
    by (simp add: Close_def closeStop_def Start_def newTask_def)
  with task_step.close [of errs "Start True newTask"] show ?thesis
    by (auto intro: task_reach.step [OF wit_started])
qed

theorem task_reach_inv_witness: "task_inv (Start True newTask) \<and> Close (Start True newTask) \<noteq> Panic"
  by (rule task_reach_inv [OF wit_started])

theorem task_panic_iff_witness:
  "task_step True ((Start True newTask)\<lparr>t_running := False, t_closed := [1]\<rparr>) Panic"
  using task_panic_iff [OF wit_closed, of True] by (simp add: Start_def newTask_def)

theorem task_winds_down_witness:
  "\<exists>t'. task_steps ((Start True newTask)\<lparr>t_running := False, t_closed := [1]\<rparr>) t' \<and> t_loops t' = []"
  by (rule task_winds_down [OF wit_closed]) simp

theorem self_restart_doubles_witness:
  "\<exists>t1 t2. Close (Start True newTask) = Ret t1
    \<and> t2 = loopEnter 1 (loopEnter 0 (loopOk 0 (Start False t1))) \<and> length (t_loops t2) = 2"
  using self_restart_doubles [OF wit_started]
  by (fastforce simp: Start_def newTask_def)

end
