(* ===== verification/Controller.thy ===== *)
theory Controller
  imports Cores Cert Periodic_Task
begin

text \<open>
  The controller of a node: node/controller.go (start and stop), node/task.go (the periodic poll of the
  panel), node/user.go (the report) and node/node.go (all nodes of the configuration).

  The controllers of a process share the core, the registry of limiters and the files; that is the
  record \<open>World\<close>.  A limiter is a pointer: the registry and the controller hold addresses of one store.
  A log message of level panic is a panic.  The answers of the panel may change from call to call, so
  the environment is an argument of every operation.
\<close>

section \<open>State\<close>

record Periodic =
  pd_Interval :: int
  pd_task :: Task

record Controller =
  ct_apiClient :: Client
  ct_tag :: string
  ct_limiter :: "nat option"
  ct_traffic :: "(string, int) gomap"
  ct_userList :: "UserInfo list"
  ct_aliveMap :: "(int, int) gomap option"
  ct_info :: "NodeInfo option"
  ct_nodeInfoMonitorPeriodic :: "Periodic option"
  ct_userReportPeriodic :: "Periodic option"
  ct_renewCertPeriodic :: "Periodic option"
  ct_dynamicSpeedLimitPeriodic :: "Periodic option"
  ct_onlineIpReportPeriodic :: "Periodic option"
  ct_Options :: Options

record ('c, 'b) World =
  wd_core :: 'c
  wd_store :: "'b Limiter list"
  wd_limiters :: "(string, nat) gomap"
  wd_certs :: certFS

record ctl_env =
  cv_node :: node_env
  cv_user :: user_env
  cv_server :: "report_body Request \<Rightarrow> Response option \<times> err"
  cv_compile :: "string \<Rightarrow> (string \<Rightarrow> bool) option"
  cv_cert :: cert_env
  cv_now :: int

definition NewController :: "Client \<Rightarrow> Options \<Rightarrow> Controller" where
  "NewController api config = \<lparr>ct_apiClient = api, ct_tag = [], ct_limiter = None, ct_traffic = [],
     ct_userList = [], ct_aliveMap = None, ct_info = None, ct_nodeInfoMonitorPeriodic = None,
     ct_userReportPeriodic = None, ct_renewCertPeriodic = None, ct_dynamicSpeedLimitPeriodic = None,
     ct_onlineIpReportPeriodic = None, ct_Options = config\<rparr>"

section \<open>Limiters by address\<close>

definition addLimiter ::
  "string \<Rightarrow> LimitConfig \<Rightarrow> UserInfo list \<Rightarrow> (int, int) gomap option \<Rightarrow> ('c, 'b) World \<Rightarrow> nat \<times> ('c, 'b) World" where
  "addLimiter tag lc us alive w =
     (let l = makeLimiter tag (lc_SpeedLimit lc) us (case alive of None \<Rightarrow> [] | Some m \<Rightarrow> m);
          a = length (wd_store w) in
      (a, w\<lparr>wd_store := wd_store w @ [l], wd_limiters := mstore tag a (wd_limiters w)\<rparr>))"

definition deleteLimiter :: "string \<Rightarrow> ('c, 'b) World \<Rightarrow> ('c, 'b) World" where
  "deleteLimiter tag w = w\<lparr>wd_limiters := mdelete tag (wd_limiters w)\<rparr>"

definition updateLimiter :: "nat \<Rightarrow> ('b Limiter \<Rightarrow> 'b Limiter) \<Rightarrow> ('c, 'b) World \<Rightarrow> ('c, 'b) World" where
  "updateLimiter a f w = w\<lparr>wd_store := (wd_store w)[a := f (wd_store w ! a)]\<rparr>"

definition updateRule ::
  "(string \<Rightarrow> (string \<Rightarrow> bool) option) \<Rightarrow> Rules \<Rightarrow> nat \<Rightarrow> ('c, 'b) World \<Rightarrow> (err \<times> ('c, 'b) World) outcome" where
  "updateRule compile rules a w =
     (case UpdateRule compile rules (wd_store w ! a) of
        Panic \<Rightarrow> Panic
      | Ret (e, l) \<Rightarrow> Ret (e, updateLimiter a (\<lambda>_. l) w))"

text \<open>The registry as the cores' hooks see it.\<close>

definition limitersOf :: "('c, 'b) World \<Rightarrow> 'b registry" where
  "limitersOf w = map (\<lambda>(t, a). (t, wd_store w ! a)) (wd_limiters w)"

section \<open>Tasks\<close>

definition startTask :: "int \<Rightarrow> bool \<Rightarrow> Periodic" where
  "startTask interval first = \<lparr>pd_Interval = interval, pd_task = Periodic_Task.Start first newTask\<rparr>"

text \<open>A changed interval closes the task and starts it again.\<close>

definition restartTask :: "int \<Rightarrow> Periodic \<Rightarrow> Periodic outcome" where
  "restartTask interval p =
     (case Periodic_Task.Close (pd_task p) of
        Panic \<Rightarrow> Panic
      | Ret t \<Rightarrow> Ret \<lparr>pd_Interval = interval, pd_task = Periodic_Task.Start False t\<rparr>)"

definition closeTask :: "Periodic option \<Rightarrow> Periodic option outcome" where
  "closeTask p =
     (case p of
        None \<Rightarrow> Ret None
      | Some p \<Rightarrow> (case Periodic_Task.Close (pd_task p) of Panic \<Rightarrow> Panic | Ret t \<Rightarrow> Ret (Some (p\<lparr>pd_task := t\<rparr>))))"

definition startTasks :: "NodeInfo \<Rightarrow> Controller \<Rightarrow> Controller outcome" where
  "startTasks node c =
     (let p = ct_Options c; lc = op_LimitConfig p;
          c = c\<lparr>ct_nodeInfoMonitorPeriodic := Some (startTask (ni_PullInterval node) False),
                ct_userReportPeriodic := Some (startTask (ni_PushInterval node) False)\<rparr>;
          cert = (if ni_Security node = secTls then
              (case op_CertConfig p of
                 None \<Rightarrow> Panic
               | Some cc \<Rightarrow> Ret (cc_CertMode cc \<notin> {''none'', [], ''file'', ''self''}))
            else Ret False) in
      case cert of
        Panic \<Rightarrow> Panic
      | Ret renew \<Rightarrow>
          let c = (if renew then c\<lparr>ct_renewCertPeriodic := Some (startTask (24 * 3600 * 1000000000) True)\<rparr> else c) in
          if lc_EnableDynamicSpeedLimit lc then
            (case lc_DynamicSpeedLimitConfig lc of
               None \<Rightarrow> Panic
             | Some ds \<Rightarrow> Ret (c\<lparr>ct_traffic := [], ct_dynamicSpeedLimitPeriodic :=
                 Some \<lparr>pd_Interval = wrap64 (ds_Periodic ds * 1000000000), pd_task = newTask\<rparr>\<rparr>))
          else Ret c)"

section \<open>Start and Close\<close>

definition buildNodeTag :: "Controller \<Rightarrow> NodeInfo \<Rightarrow> string" where
  "buildNodeTag c node =
     ''['' @ cl_APIHost (ct_apiClient c) @ '']-'' @ ni_Type node @ '':'' @ itoa (ni_Id node)"

text \<open>The second half of Start: the node is put on the core.\<close>

definition installNode ::
  "ctl_env \<Rightarrow> 'c Core \<Rightarrow> NodeInfo \<Rightarrow> Controller \<Rightarrow> ('c, 'b) World \<Rightarrow> (err \<times> Controller \<times> ('c, 'b) World) outcome" where
  "installNode E I node c w =
     (case (if ni_Security node = secTls then requestCert (cv_cert E) (op_CertConfig (ct_Options c)) (wd_certs w)
            else Ret (None, wd_certs w)) of
        Panic \<Rightarrow> Panic
      | Ret (Some e, s) \<Rightarrow> Ret (Some (''request cert error: '' @ e), c, w\<lparr>wd_certs := s\<rparr>)
      | Ret (None, s) \<Rightarrow>
          (case cr_AddNode I (ct_tag c) node (ct_Options c) (wd_core w) of
             Panic \<Rightarrow> Panic
           | Ret ((Some e, p), core) \<Rightarrow>
               Ret (Some (''add new node error: '' @ e), c\<lparr>ct_Options := p\<rparr>, w\<lparr>wd_certs := s, wd_core := core\<rparr>)
           | Ret ((None, p), core) \<Rightarrow>
               (case cr_AddUsers I (ct_tag c) (ct_userList c) node core of
                  Panic \<Rightarrow> Panic
                | Ret ((_, Some e), core) \<Rightarrow>
                    Ret (Some (''add users error: '' @ e), c\<lparr>ct_Options := p\<rparr>, w\<lparr>wd_certs := s, wd_core := core\<rparr>)
                | Ret ((_, None), core) \<Rightarrow>
                    (case startTasks node (c\<lparr>ct_Options := p, ct_info := Some node\<rparr>) of
                       Panic \<Rightarrow> Panic
                     | Ret c \<Rightarrow> Ret (None, c, w\<lparr>wd_certs := s, wd_core := core\<rparr>)))))"

definition Controller_Start ::
  "ctl_env \<Rightarrow> 'c Core \<Rightarrow> Controller \<Rightarrow> ('c, 'b) World \<Rightarrow> (err \<times> Controller \<times> ('c, 'b) World) outcome" where
  "Controller_Start E I c w =
     (case GetNodeInfo (cv_node E) (cv_server E) (ct_apiClient c) of
        Panic \<Rightarrow> Panic
      | Ret ((_, Some e), cl) \<Rightarrow> Ret (Some (''get node info error: '' @ e), c\<lparr>ct_apiClient := cl\<rparr>, w)
      | Ret ((node, None), cl) \<Rightarrow>
          (case GetUserList (cv_user E) (cv_server E) cl of
             Panic \<Rightarrow> Panic
           | Ret ((us, Some e), cl) \<Rightarrow>
               Ret (Some (''get user list error: '' @ e), c\<lparr>ct_apiClient := cl, ct_userList := []\<rparr>, w)
           | Ret ((us, None), cl) \<Rightarrow>
               let us = (case us of None \<Rightarrow> [] | Some us \<Rightarrow> us);
                   c = c\<lparr>ct_apiClient := cl, ct_userList := us\<rparr> in
               if us = [] then Ret (Some ''add users error: not have any user'', c, w)
               else (case GetUserAlive (cv_user E) (cv_server E) cl of
                   Panic \<Rightarrow> Panic
                 | Ret ((alive, Some e), cl) \<Rightarrow>
                     Ret (Some (''failed to get user alive list: '' @ e), c\<lparr>ct_apiClient := cl, ct_aliveMap := alive\<rparr>, w)
                 | Ret ((alive, None), cl) \<Rightarrow>
                     (case node of
                        None \<Rightarrow> Panic
                      | Some node \<Rightarrow>
                          let c = c\<lparr>ct_apiClient := cl, ct_aliveMap := alive\<rparr>;
                              tag = (if op_Name (ct_Options c) = [] then buildNodeTag c node else op_Name (ct_Options c));
                              (a, w) = addLimiter tag (op_LimitConfig (ct_Options c)) us alive w;
                              c = c\<lparr>ct_tag := tag\<rparr> in
                          (case updateRule (cv_compile E) (ni_Rules node) a w of
                             Panic \<Rightarrow> Panic
                           | Ret (Some e, w) \<Rightarrow> Ret (Some (''update rule error: '' @ e), c, w)
                           | Ret (None, w) \<Rightarrow> installNode E I node (c\<lparr>ct_limiter := Some a\<rparr>) w)))))"

definition Controller_Close ::
  "'c Core \<Rightarrow> Controller \<Rightarrow> ('c, 'b) World \<Rightarrow> (err \<times> Controller \<times> ('c, 'b) World) outcome" where
  "Controller_Close I c w =
     (let w = deleteLimiter (ct_tag c) w in
      case closeTask (ct_nodeInfoMonitorPeriodic c) of Panic \<Rightarrow> Panic | Ret p1 \<Rightarrow>
      (case closeTask (ct_userReportPeriodic c) of Panic \<Rightarrow> Panic | Ret p2 \<Rightarrow>
      (case closeTask (ct_renewCertPeriodic c) of Panic \<Rightarrow> Panic | Ret p3 \<Rightarrow>
      (case closeTask (ct_dynamicSpeedLimitPeriodic c) of Panic \<Rightarrow> Panic | Ret p4 \<Rightarrow>
      (case closeTask (ct_onlineIpReportPeriodic c) of Panic \<Rightarrow> Panic | Ret p5 \<Rightarrow>
      let c = c\<lparr>ct_nodeInfoMonitorPeriodic := p1, ct_userReportPeriodic := p2, ct_renewCertPeriodic := p3,
                ct_dynamicSpeedLimitPeriodic := p4, ct_onlineIpReportPeriodic := p5\<rparr> in
      (case cr_DelNode I (ct_tag c) (wd_core w) of
         Panic \<Rightarrow> Panic
       | Ret (Some e, core) \<Rightarrow> Ret (Some (''del node error: '' @ e), c, w\<lparr>wd_core := core\<rparr>)
       | Ret (None, core) \<Rightarrow> Ret (None, c, w\<lparr>wd_core := core\<rparr>)))))))"

section \<open>The poll\<close>

text \<open>\<open>c.limiter.AliveList = newA\<close>, unless the map is nil; a nil limiter panics.\<close>

definition setAlive :: "(int, int) gomap option \<Rightarrow> Controller \<Rightarrow> ('c, 'b) World \<Rightarrow> ('c, 'b) World outcome" where
  "setAlive alive c w =
     (case alive of
        None \<Rightarrow> Ret w
      | Some m \<Rightarrow> (case ct_limiter c of
          None \<Rightarrow> Panic
        | Some a \<Rightarrow> Ret (updateLimiter a (\<lambda>l. l\<lparr>l_AliveList := m\<rparr>) w)))"

text \<open>The checks of the two intervals; the second one stores the pull interval.\<close>

definition checkIntervals :: "NodeInfo \<Rightarrow> Controller \<Rightarrow> Controller outcome" where
  "checkIntervals n c =
     (case (ct_nodeInfoMonitorPeriodic c, ct_userReportPeriodic c) of
        (Some p, Some q) \<Rightarrow>
          (case (if pd_Interval p \<noteq> ni_PullInterval n \<and> ni_PullInterval n \<noteq> 0
                 then restartTask (ni_PullInterval n) p else Ret p) of
             Panic \<Rightarrow> Panic
           | Ret p \<Rightarrow>
               (case (if pd_Interval q \<noteq> ni_PushInterval n \<and> ni_PushInterval n \<noteq> 0
                      then restartTask (ni_PullInterval n) q else Ret q) of
                  Panic \<Rightarrow> Panic
                | Ret q \<Rightarrow> Ret (c\<lparr>ct_nodeInfoMonitorPeriodic := Some p, ct_userReportPeriodic := Some q\<rparr>)))
      | _ \<Rightarrow> Panic)"

text \<open>The limiter of the new configuration: rebuilt when the tag is built from the node, else kept.\<close>

definition reloadLimiter ::
  "NodeInfo \<Rightarrow> (int, int) gomap option \<Rightarrow> Controller \<Rightarrow> ('c, 'b) World \<Rightarrow> Controller \<times> ('c, 'b) World" where
  "reloadLimiter newN newA c w =
     (if op_Name (ct_Options c) = [] then
        (let tag = buildNodeTag c newN;
             (a, w) = addLimiter tag (op_LimitConfig (ct_Options c)) (ct_userList c) newA (deleteLimiter tag w) in
         (c\<lparr>ct_tag := tag, ct_limiter := Some a\<rparr>, w))
      else (c, w))"

text \<open>The node changed: it is taken off the core and put on again.\<close>

definition reloadNode ::
  "ctl_env \<Rightarrow> 'c Core \<Rightarrow> NodeInfo \<Rightarrow> UserInfo list option \<Rightarrow> (int, int) gomap option \<Rightarrow> Controller \<Rightarrow> ('c, 'b) World \<Rightarrow>
   (Controller \<times> ('c, 'b) World) outcome" where
  "reloadNode E I newN newU newA c w =
     (let c = c\<lparr>ct_info := Some newN, ct_userList := (case newU of None \<Rightarrow> ct_userList c | Some us \<Rightarrow> us),
                ct_traffic := []\<rparr> in
      case cr_DelNode I (ct_tag c) (wd_core w) of
        Panic \<Rightarrow> Panic
      | Ret (Some e, core) \<Rightarrow> Panic
      | Ret (None, core) \<Rightarrow>
          (case reloadLimiter newN newA c (w\<lparr>wd_core := core\<rparr>) of (c, w) \<Rightarrow>
          (case setAlive newA c w of
             Panic \<Rightarrow> Panic
           | Ret w \<Rightarrow> (case ct_limiter c of
               None \<Rightarrow> Panic
             | Some a \<Rightarrow>
                 (case updateRule (cv_compile E) (ni_Rules newN) a w of
                    Panic \<Rightarrow> Panic
                  | Ret (Some e, w) \<Rightarrow> Ret (c, w)
                  | Ret (None, w) \<Rightarrow>
                      (case (if ni_Security newN = secTls
                             then requestCert (cv_cert E) (op_CertConfig (ct_Options c)) (wd_certs w)
                             else Ret (None, wd_certs w)) of
                         Panic \<Rightarrow> Panic
                       | Ret (Some e, s) \<Rightarrow> Ret (c, w\<lparr>wd_certs := s\<rparr>)
                       | Ret (None, s) \<Rightarrow>
                           (case cr_AddNode I (ct_tag c) newN (ct_Options c) (wd_core w) of
                              Panic \<Rightarrow> Panic
                            | Ret ((Some e, p), core) \<Rightarrow> Panic
                            | Ret ((None, p), core) \<Rightarrow>
                                (case cr_AddUsers I (ct_tag c) (ct_userList c) newN core of
                                   Panic \<Rightarrow> Panic
                                 | Ret ((_, Some e), core) \<Rightarrow>
                                     Ret (c\<lparr>ct_Options := p\<rparr>, w\<lparr>wd_certs := s, wd_core := core\<rparr>)
                                 | Ret ((_, None), core) \<Rightarrow>
                                     (case checkIntervals newN (c\<lparr>ct_Options := p\<rparr>) of
                                        Panic \<Rightarrow> Panic
                                      | Ret c \<Rightarrow> Ret (c, w\<lparr>wd_certs := s, wd_core := core\<rparr>))))))))))"

text \<open>The node did not change: the users are compared.\<close>

definition updateUsers ::
  "'c Core \<Rightarrow> UserInfo list \<Rightarrow> NodeInfo \<Rightarrow> Controller \<Rightarrow> ('c, 'b) World \<Rightarrow> (Controller \<times> ('c, 'b) World) outcome" where
  "updateUsers I newU info c w =
     (case compareUserList (ct_userList c) newU of (deleted, added) \<Rightarrow>
      (case deleteAll (cr_DelUsers I) deleted (ct_tag c) info (wd_core w) of
         Panic \<Rightarrow> Panic
       | Ret (Some e, core) \<Rightarrow> Ret (c, w\<lparr>wd_core := core\<rparr>)
       | Ret (None, core) \<Rightarrow>
           (case addAll (cr_AddUsers I) (ct_tag c) added info core of
              Panic \<Rightarrow> Panic
            | Ret ((_, Some e), core) \<Rightarrow> Ret (c, w\<lparr>wd_core := core\<rparr>)
            | Ret ((_, None), core) \<Rightarrow>
                let w = w\<lparr>wd_core := core\<rparr> in
                if added \<noteq> [] \<or> deleted \<noteq> [] then
                  (case ct_limiter c of
                     None \<Rightarrow> Panic
                   | Some a \<Rightarrow>
                       let c = (if lc_EnableDynamicSpeedLimit (op_LimitConfig (ct_Options c))
                                then c\<lparr>ct_traffic := fold (\<lambda>u. mdelete (ui_Uuid u)) deleted (ct_traffic c)\<rparr> else c) in
                       Ret (c\<lparr>ct_userList := newU\<rparr>, updateLimiter a (UpdateUser (ct_tag c) added deleted) w))
                else Ret (c\<lparr>ct_userList := newU\<rparr>, w))))"

text \<open>The error it returns is nil on every path.  The node information is never nil here: the task that runs
  this is started after it was stored.\<close>

definition nodeInfoMonitor ::
  "ctl_env \<Rightarrow> 'c Core \<Rightarrow> Controller \<Rightarrow> ('c, 'b) World \<Rightarrow> (Controller \<times> ('c, 'b) World) outcome" where
  "nodeInfoMonitor E I c w =
     (case GetNodeInfo (cv_node E) (cv_server E) (ct_apiClient c) of
        Panic \<Rightarrow> Panic
      | Ret ((_, Some e), cl) \<Rightarrow> Ret (c\<lparr>ct_apiClient := cl\<rparr>, w)
      | Ret ((newN, None), cl) \<Rightarrow>
          (case GetUserList (cv_user E) (cv_server E) cl of
             Panic \<Rightarrow> Panic
           | Ret ((_, Some e), cl) \<Rightarrow> Ret (c\<lparr>ct_apiClient := cl\<rparr>, w)
           | Ret ((newU, None), cl) \<Rightarrow>
               (case GetUserAlive (cv_user E) (cv_server E) cl of
                  Panic \<Rightarrow> Panic
                | Ret ((_, Some e), cl) \<Rightarrow> Ret (c\<lparr>ct_apiClient := cl\<rparr>, w)
                | Ret ((newA, None), cl) \<Rightarrow>
                    let c = c\<lparr>ct_apiClient := cl\<rparr> in
                    (case newN of
                       Some n \<Rightarrow> reloadNode E I n newU newA c w
                     | None \<Rightarrow> (case setAlive newA c w of
                         Panic \<Rightarrow> Panic
                       | Ret w \<Rightarrow>
                           let us = (case newU of None \<Rightarrow> [] | Some us \<Rightarrow> us) in
                           if us = [] then Ret (c, w)
                           else (case ct_info c of
                               None \<Rightarrow> Panic
                             | Some info \<Rightarrow> updateUsers I us info c w))))))"

section \<open>The reports\<close>

text \<open>The uids whose reported traffic is under the threshold, the online users without them, and the
  request body.\<close>

definition nocountUID :: "int \<Rightarrow> UserTraffic list \<Rightarrow> int list" where
  "nocountUID minTraffic ts =
     map ut_UID (filter (\<lambda>t. wrap64 (ut_Upload t + ut_Download t) < wrap64 (minTraffic * 1000)) ts)"

definition onlineResult :: "int \<Rightarrow> UserTraffic list \<Rightarrow> OnlineUser list \<Rightarrow> OnlineUser list" where
  "onlineResult minTraffic ts online = filter (\<lambda>o1. ou_UID o1 \<notin> set (nocountUID minTraffic ts)) online"

definition addOnline :: "OnlineUser \<Rightarrow> (int, string list) gomap \<Rightarrow> (int, string list) gomap" where
  "addOnline u data =
     mstore (ou_UID u) ((case map_of data (ou_UID u) of None \<Rightarrow> [] | Some ips \<Rightarrow> ips) @ [ou_IP u]) data"

definition onlineData :: "OnlineUser list \<Rightarrow> (int, string list) gomap" where
  "onlineData us = fold addOnline us []"

text \<open>The bodies that were posted, in order; errors are only logged.\<close>

definition reportUserTrafficTask ::
  "ctl_env \<Rightarrow> 'c Core \<Rightarrow> Controller \<Rightarrow> ('c, 'b) World \<Rightarrow> (report_body list \<times> ('c, 'b) World) outcome" where
  "reportUserTrafficTask E I c w =
     (case cr_GetUserTrafficSlice I (ct_tag c) True (wd_core w) of
        Panic \<Rightarrow> Panic
      | Ret ((ts, _), core) \<Rightarrow>
          let w = w\<lparr>wd_core := core\<rparr>; pushed = (if ts = [] then [] else [Push (pushData ts)]) in
          (case (if ts = [] then Ret None else ReportUserTraffic (cv_server E) (ct_apiClient c) ts) of
             Panic \<Rightarrow> Panic
           | Ret _ \<Rightarrow> (case ct_limiter c of
               None \<Rightarrow> Panic
             | Some a \<Rightarrow>
                 (case GetOnlineDevice (wd_store w ! a) of (online, l) \<Rightarrow>
                  let w = updateLimiter a (\<lambda>_. l) w in
                  if online = [] then Ret (pushed, w)
                  else let data = onlineData (onlineResult (op_DeviceOnlineMinTraffic (ct_Options c)) ts online) in
                    (case ReportNodeOnlineUsers (cv_server E) (ct_apiClient c) data of
                       Panic \<Rightarrow> Panic
                     | Ret _ \<Rightarrow> Ret (pushed @ [Alive data], w))))))"

text \<open>The check of the dynamic speed limit.\<close>

fun checkSpeeds ::
  "int \<Rightarrow> DynamicSpeedLimitConfig \<Rightarrow> string \<Rightarrow> (string \<times> int) list \<Rightarrow> (string, int) gomap \<times> 'b Limiter \<Rightarrow>
   (string, int) gomap \<times> 'b Limiter" where
  "checkSpeeds now ds tag [] s = s"
| "checkSpeeds now ds tag ((u, t) # es) s =
     checkSpeeds now ds tag es
       (if t \<ge> ds_Traffic ds then
          (mdelete u (fst s),
           snd (UpdateDynamicSpeedLimit tag u (ds_SpeedLimit ds) (wrap64 (now + ds_ExpireTime ds * 60)) (snd s)))
        else s)"

definition SpeedChecker :: "ctl_env \<Rightarrow> Controller \<Rightarrow> ('c, 'b) World \<Rightarrow> (Controller \<times> ('c, 'b) World) outcome" where
  "SpeedChecker E c w =
     (if ct_traffic c = [] then Ret (c, w)
      else case lc_DynamicSpeedLimitConfig (op_LimitConfig (ct_Options c)) of
          None \<Rightarrow> Panic
        | Some ds \<Rightarrow> (case ct_limiter c of
            None \<Rightarrow> if list_ex (\<lambda>e. snd e \<ge> ds_Traffic ds) (ct_traffic c) then Panic else Ret (c, w)
          | Some a \<Rightarrow>
              (case checkSpeeds (cv_now E) ds (ct_tag c) (ct_traffic c) (ct_traffic c, wd_store w ! a) of
                 (tr, l) \<Rightarrow> Ret (c\<lparr>ct_traffic := tr\<rparr>, updateLimiter a (\<lambda>_. l) w))))"

section \<open>All nodes\<close>

text \<open>A client that cannot be made, or a node that does not start, ends the loop; the controllers already
  started go on, and the slots behind stay nil.\<close>

fun startNodes ::
  "(NodeConfig \<Rightarrow> ctl_env) \<Rightarrow> (string \<Rightarrow> string) \<Rightarrow> 'c Core \<Rightarrow> NodeConfig list \<Rightarrow> ('c, 'b) World \<Rightarrow>
   (err \<times> Controller option list \<times> ('c, 'b) World) outcome" where
  "startNodes E parseIP I [] w = Ret (None, [], w)"
| "startNodes E parseIP I (n # ns) w =
     (case newClient parseIP (nc_ApiConfig n) of
        Inl e \<Rightarrow> Ret (Some e, None # map (\<lambda>_. None) ns, w)
      | Inr p \<Rightarrow>
          (case Controller_Start (E n) I (NewController p (nc_Options n)) w of
             Panic \<Rightarrow> Panic
           | Ret (Some e, c, w) \<Rightarrow>
               Ret (Some (''start node controller ['' @ ac_APIHost (nc_ApiConfig n) @ ''-'' @ ac_NodeType (nc_ApiConfig n)
                 @ ''-'' @ itoa (ac_NodeID (nc_ApiConfig n)) @ ''] error: '' @ e), Some c # map (\<lambda>_. None) ns, w)
           | Ret (None, c, w) \<Rightarrow>
               (case startNodes E parseIP I ns w of
                  Panic \<Rightarrow> Panic
                | Ret (e, cs, w) \<Rightarrow> Ret (e, Some c # cs, w))))"

text \<open>Close of a nil controller reads its tag and panics; so does an error of Close.\<close>

fun closeControllers ::
  "'c Core \<Rightarrow> Controller option list \<Rightarrow> ('c, 'b) World \<Rightarrow> ('c, 'b) World outcome" where
  "closeControllers I [] w = Ret w"
| "closeControllers I (None # cs) w = Panic"
| "closeControllers I (Some c # cs) w =
     (case Controller_Close I c w of
        Panic \<Rightarrow> Panic
      | Ret (Some e, c, w) \<Rightarrow> Panic
      | Ret (None, c, w) \<Rightarrow> closeControllers I cs w)"

end
