(* ===== verification/Controller_Sync.thy ===== *)
theory Controller_Sync
  imports Controller
begin

text \<open>
  What the controller's operations guarantee: that core, limiter and list stay together over a poll, what
  a start sets up, what a reload and a report miss, and that the dynamic speed limit never acts.
  The limiter's user set is shown to keep the contract \<open>core_users\<close> too, so one lemma serves both sides.
\<close>

section \<open>Lemmas: calls\<close>

text \<open>How a call with a value and an error, and one with an error only, can have gone.\<close>

lemma valued_call:
  "(case r of Panic \<Rightarrow> Panic | Ret ((x, Some e), c) \<Rightarrow> f x e c | Ret ((x, None), c) \<Rightarrow> g x c) = Ret y \<Longrightarrow>
   (\<exists>x e c. r = Ret ((x, Some e), c) \<and> f x e c = Ret y) \<or> (\<exists>x c. r = Ret ((x, None), c) \<and> g x c = Ret y)"
  by (cases r) (auto split: prod.split_asm option.split_asm)

lemma plain_call:
  "(case r of Panic \<Rightarrow> Panic | Ret (Some e, c) \<Rightarrow> f e c | Ret (None, c) \<Rightarrow> g c) = Ret y \<Longrightarrow>
   (\<exists>e c. r = Ret (Some e, c) \<and> f e c = Ret y) \<or> (\<exists>c. r = Ret (None, c) \<and> g c = Ret y)"
  by (cases r) (auto split: prod.split_asm option.split_asm)

lemma node_call:
  "(case r of Panic \<Rightarrow> Panic | Ret ((Some e, p), c) \<Rightarrow> f e p c | Ret ((None, p), c) \<Rightarrow> g p c) = Ret y \<Longrightarrow>
   (\<exists>e p c. r = Ret ((Some e, p), c) \<and> f e p c = Ret y) \<or> (\<exists>p c. r = Ret ((None, p), c) \<and> g p c = Ret y)"
  by (cases r) (auto split: prod.split_asm option.split_asm)

lemma sure_call:
  "(case r of Panic \<Rightarrow> Panic | Ret c \<Rightarrow> g c) = Ret y \<Longrightarrow> \<exists>c. r = Ret c \<and> g c = Ret y"
  by (cases r) auto

lemma last_call:
  "(case r of Panic \<Rightarrow> Panic | Ret c \<Rightarrow> Ret (f c)) = Ret y \<Longrightarrow> \<exists>c. r = Ret c \<and> f c = y"
  by (cases r) auto

section \<open>Lemmas: limiters\<close>

text \<open>The store with the registry is a registry of values: adding and deleting implement the operations of
  the package limiter.\<close>

lemma limitersOf_add:
  assumes "\<forall>e\<in>set (wd_limiters w). snd e < length (wd_store w)"
  shows "map_of (limitersOf (snd (addLimiter tag lc us alive w)))
    = map_of (snd (AddLimiter tag (lc_SpeedLimit lc) us (case alive of None \<Rightarrow> [] | Some m \<Rightarrow> m) (limitersOf w)))"
proof -
  have at: "map_of (limitersOf w) t = map_option (\<lambda>a. wd_store w ! a) (map_of (wd_limiters w) t)" for w :: "('c, 'b) World" and t
    by (simp add: limitersOf_def map_of_map)
  show ?thesis
    using assms
    by (auto simp: at AddLimiter_def addLimiter_def Let_def map_of_mstore fun_eq_iff nth_append
        dest!: map_of_SomeD intro!: map_option_cong)
qed

lemma limitersOf_delete: "map_of (limitersOf (deleteLimiter tag w)) = map_of (DeleteLimiter tag (limitersOf w))"
  by (simp add: limitersOf_def deleteLimiter_def DeleteLimiter_def map_of_map map_of_mdelete fun_eq_iff)

lemma addLimiter_parts:
  assumes "addLimiter tag lc us alive w = (a, w')"
  shows "a = length (wd_store w)" "a < length (wd_store w')" "map_of (wd_limiters w') tag = Some a"
    "wd_store w' ! a = makeLimiter tag (lc_SpeedLimit lc) us (case alive of None \<Rightarrow> [] | Some m \<Rightarrow> m)"
    "wd_core w' = wd_core w" "wd_certs w' = wd_certs w"
  using assms by (auto simp: addLimiter_def Let_def map_of_mstore nth_append)

lemma updateLimiter_parts [simp]:
  "wd_core (updateLimiter a f w) = wd_core w" "wd_limiters (updateLimiter a f w) = wd_limiters w"
  "length (wd_store (updateLimiter a f w)) = length (wd_store w)"
  "a < length (wd_store w) \<Longrightarrow> wd_store (updateLimiter a f w) ! a = f (wd_store w ! a)"
  by (simp_all add: updateLimiter_def)

text \<open>The user set of a limiter keeps the same contract as a core.\<close>

definition Limiter_uid :: "'b Limiter \<Rightarrow> string \<Rightarrow> string \<Rightarrow> int" where
  "Limiter_uid l tag x = (case map_of (l_UserLimitInfo l) (UserTag tag x) of None \<Rightarrow> 0 | Some u \<Rightarrow> uli_UID u)"

definition limiterAdd :: "string \<Rightarrow> UserInfo list \<Rightarrow> NodeInfo \<Rightarrow> 'b Limiter \<Rightarrow> ((int \<times> err) \<times> 'b Limiter) outcome" where
  "limiterAdd tag us n l = Ret ((int (length us), None), UpdateUser tag us [] l)"

definition limiterDel :: "UserInfo list \<Rightarrow> string \<Rightarrow> NodeInfo \<Rightarrow> 'b Limiter \<Rightarrow> (err \<times> 'b Limiter) outcome" where
  "limiterDel us tag n l = Ret (None, UpdateUser tag [] us l)"

lemma newUserLimit_uid [simp]: "uli_UID (newUserLimit u) = ui_Id u"
  by (simp add: newUserLimit_def)

lemma UserLimitInfo_put:
  assumes "distinct (map ui_Uuid us)"
  shows "(case map_of (fold (\<lambda>u. mstore (UserTag tag (ui_Uuid u)) (newUserLimit u)) us m) (UserTag tag x) of
      None \<Rightarrow> 0 | Some u \<Rightarrow> uli_UID u)
    = (if x \<in> uuids us then idsOf us x
       else case map_of m (UserTag tag x) of None \<Rightarrow> 0 | Some u \<Rightarrow> uli_UID u)"
proof (cases "x \<in> uuids us")
  case True
  have inj: "inj_on (\<lambda>u. UserTag tag (ui_Uuid u)) (set us)"
    using assms by (auto simp: distinct_map inj_on_def)
  show ?thesis
    using True idsOf_in [OF _ assms] by (auto simp: uuids_def gm.load_put_all_in [OF _ inj])
next
  case False
  then have "UserTag tag x \<notin> (\<lambda>u. UserTag tag (ui_Uuid u)) ` set us"
    by (auto simp: uuids_def)
  then show ?thesis
    using False by (simp add: gm.load_put_all_other)
qed

interpretation li: core_users Limiter_uid limiterAdd limiterDel
proof
  show "Limiter_uid l' tag x = (if x \<in> uuids us then idsOf us x else Limiter_uid l tag x)"
    if "limiterAdd tag us n l = Ret ((k, None), l')" "distinct (map ui_Uuid us)" for tag us n k x and l l' :: "'b Limiter"
    using that UserLimitInfo_put [OF that(2), of tag "l_UserLimitInfo l" x]
    by (auto simp: limiterAdd_def Limiter_uid_def UpdateUser_def fold_addUser)
  show "k = int (length us)" if "limiterAdd tag us n l = Ret ((k, None), l')" for tag us n k and l l' :: "'b Limiter"
    using that by (simp add: limiterAdd_def)
  show "Limiter_uid l' tag x = (if x \<in> uuids us then 0 else Limiter_uid l tag x)"
    if "limiterDel us tag n l = Ret (None, l')" for tag us n x and l l' :: "'b Limiter"
    using that gm.load_del_all [of "\<lambda>u. UserTag tag (ui_Uuid u)" us "l_UserLimitInfo l"]
    by (auto simp: limiterDel_def Limiter_uid_def UpdateUser_def fold_deleteUser uuids_def)
qed

lemma limiter_sync:
  assumes "user_lists old new" "compareUserList old new = (deleted, added)"
    and "\<And>x. Limiter_uid l tag x = idsOf old x"
  shows "Limiter_uid (UpdateUser tag added deleted l) tag x = idsOf new x"
proof -
  let ?n = "emptyNode 0 []"
  have d: "deleteAll limiterDel deleted tag ?n l = Ret (None, UpdateUser tag [] deleted l)"
    by (simp add: deleteAll_def limiterDel_def UpdateUser_def)
  have "\<exists>k. addAll limiterAdd tag added ?n (UpdateUser tag [] deleted l)
      = Ret ((k, None), UpdateUser tag added deleted l)"
    by (simp add: addAll_def limiterAdd_def UpdateUser_def)
  then obtain k where a: "addAll limiterAdd tag added ?n (UpdateUser tag [] deleted l)
      = Ret ((k, None), UpdateUser tag added deleted l)" by blast
  show ?thesis
    by (rule li.sync [OF assms d a])
qed

lemma makeLimiter_uid:
  "distinct (map ui_Uuid us) \<Longrightarrow> Limiter_uid (makeLimiter tag speed us alive) tag x = idsOf us x"
  using UserLimitInfo_put [of us tag "[]" x] idsOf_notin [of x us] by (simp add: Limiter_uid_def makeLimiter_def)

lemma compareUserList_same:
  assumes "distinct (map userKey us)"
  shows "compareUserList us us = ([], [])"
proof -
  obtain d a where c: "compareUserList us us = (d, a)"
    by (metis surj_pair)
  have "set d = {}" "a = []"
    using compareUserList_sets [OF assms assms c] by (auto simp: filter_empty_conv)
  then show ?thesis using c by simp
qed

section \<open>Lemmas: the poll\<close>

text \<open>Core, limiter and list agree: the controller's limiter is the one registered under its tag, and both
  it and the core know exactly the users of the list, by their ids.\<close>

definition synced :: "('c \<Rightarrow> string \<Rightarrow> string \<Rightarrow> int) \<Rightarrow> Controller \<Rightarrow> ('c, 'b) World \<Rightarrow> bool" where
  "synced uid c w \<longleftrightarrow> (\<exists>a. ct_limiter c = Some a \<and> a < length (wd_store w) \<and>
     map_of (wd_limiters w) (ct_tag c) = Some a \<and>
     (\<forall>x. uid (wd_core w) (ct_tag c) x = idsOf (ct_userList c) x) \<and>
     (\<forall>x. Limiter_uid (wd_store w ! a) (ct_tag c) x = idsOf (ct_userList c) x))"

lemma Limiter_uid_alive [simp]: "Limiter_uid (l\<lparr>l_AliveList := m\<rparr>) = Limiter_uid l"
  by (simp add: Limiter_uid_def fun_eq_iff)

lemma setAlive_parts:
  assumes "setAlive alive c w = Ret w'"
  shows "wd_core w' = wd_core w" "wd_limiters w' = wd_limiters w" "wd_certs w' = wd_certs w"
    "length (wd_store w') = length (wd_store w)"
    "ct_limiter c = Some a \<Longrightarrow> a < length (wd_store w) \<Longrightarrow>
      l_UserLimitInfo (wd_store w' ! a) = l_UserLimitInfo (wd_store w ! a)"
  using assms by (auto simp: setAlive_def updateLimiter_def split: option.splits)

lemma synced_setAlive:
  assumes "synced uid c w" "setAlive alive c w = Ret w'"
  shows "synced uid c w'"
  using assms setAlive_parts [OF assms(2)] by (fastforce simp: synced_def Limiter_uid_def)

lemma synced_client: "synced uid (c\<lparr>ct_apiClient := cl\<rparr>) w = synced uid c w"
  by (simp add: synced_def)

context core_table
begin

lemma updateUsers_synced:
  assumes s: "synced uid c w" and l: "user_lists (ct_userList c) newU"
    and r: "updateUsers I newU info c w = Ret (c', w')" and f: "ct_userList c' = newU"
  shows "synced uid c' w'"
proof -
  obtain a where a: "ct_limiter c = Some a" "a < length (wd_store w)" "map_of (wd_limiters w) (ct_tag c) = Some a"
    "\<And>x. uid (wd_core w) (ct_tag c) x = idsOf (ct_userList c) x"
    "\<And>x. Limiter_uid (wd_store w ! a) (ct_tag c) x = idsOf (ct_userList c) x"
    using s by (auto simp: synced_def)
  obtain deleted added where cmp: "compareUserList (ct_userList c) newU = (deleted, added)"
    by (metis surj_pair)
  have same: "deleted = [] \<and> added = []" if "ct_userList c = newU"
    using compareUserList_same [OF user_lists_keys(1) [OF l]] that cmp by simp
  obtain de core1 where d: "deleteAll (cr_DelUsers I) deleted (ct_tag c) info (wd_core w) = Ret (de, core1)"
    using r cmp by (auto simp: updateUsers_def split: outcome.splits)
  have de: "de = None"
  proof (cases de)
    case (Some x)
    then have "c' = c"
      using r cmp d by (simp add: updateUsers_def)
    then show ?thesis
      using same f d Some by (simp add: deleteAll_def)
  qed simp
  obtain k ae core2 where ad: "addAll (cr_AddUsers I) (ct_tag c) added info core1 = Ret ((k, ae), core2)"
    using r cmp d de by (auto simp: updateUsers_def split: outcome.splits)
  have ae: "ae = None"
  proof (cases ae)
    case (Some x)
    then have "c' = c"
      using r cmp d de ad by (simp add: updateUsers_def)
    then show ?thesis
      using same f ad Some by (simp add: addAll_def)
  qed simp
  have core: "uid core2 (ct_tag c) x = idsOf newU x" for x
    by (rule sync [OF l cmp a(4) d [unfolded de] ad [unfolded ae]])
  have lim: "Limiter_uid (UpdateUser (ct_tag c) added deleted (wd_store w ! a)) (ct_tag c) x = idsOf newU x" for x
    by (rule limiter_sync [OF l cmp a(5)])
  show ?thesis
  proof (cases "added = [] \<and> deleted = []")
    case True
    then have "c' = c\<lparr>ct_userList := newU\<rparr>" "w' = w\<lparr>wd_core := core2\<rparr>"
      using r cmp d de ad ae by (simp_all add: updateUsers_def Let_def)
    then show ?thesis
      using a core lim True by (simp add: synced_def UpdateUser_def)
  next
    case False
    then have "ct_limiter c' = Some a" "ct_tag c' = ct_tag c" "ct_userList c' = newU"
      "w' = updateLimiter a (UpdateUser (ct_tag c) added deleted) (w\<lparr>wd_core := core2\<rparr>)"
      using r cmp d de ad ae a(1) by (auto simp: updateUsers_def Let_def)
    then show ?thesis
      using a core lim by (simp add: synced_def)
  qed
qed

lemma poll_synced:
  assumes "synced uid c w"
    and "GetNodeInfo (cv_node E) (cv_server E) (ct_apiClient c) = Ret ((None, None), cl1)"
    and "GetUserList (cv_user E) (cv_server E) cl1 = Ret ((Some newU, None), cl2)"
    and "newU \<noteq> []" "user_lists (ct_userList c) newU"
    and "nodeInfoMonitor E I c w = Ret (c', w')" "ct_userList c' = newU"
  shows "synced uid c' w'"
proof -
  obtain newA ae cl3 where al: "GetUserAlive (cv_user E) (cv_server E) cl2 = Ret ((newA, ae), cl3)"
    using assms(2,3,6) by (auto simp: nodeInfoMonitor_def split: outcome.splits)
  show ?thesis
  proof (cases ae)
    case (Some e)
    then show ?thesis
      using assms(1,2,3,6) al by (auto simp: nodeInfoMonitor_def synced_client)
  next
    case None
    let ?c = "c\<lparr>ct_apiClient := cl3\<rparr>"
    obtain w1 where w1: "setAlive newA ?c w = Ret w1"
      using assms(2,3,6) al None by (cases "setAlive newA ?c w") (auto simp: nodeInfoMonitor_def Let_def)
    obtain info where u: "updateUsers I newU info ?c w1 = Ret (c', w')"
      using assms(2,3,4,6) al None w1 by (auto simp: nodeInfoMonitor_def Let_def split: option.split_asm)
    have "synced uid ?c w1"
      by (rule synced_setAlive [OF _ w1]) (simp add: synced_client assms(1))
    moreover have "user_lists (ct_userList ?c) newU"
      using assms(5) by simp
    ultimately show ?thesis
      by (rule updateUsers_synced [OF _ _ u assms(7)])
  qed
qed

end

section \<open>Lemmas: start and reload\<close>

text \<open>What installing a node leaves alone, and what it does.\<close>

lemma startTasks_parts:
  assumes "startTasks node c = Ret c'"
  shows "ct_tag c' = ct_tag c" "ct_limiter c' = ct_limiter c" "ct_userList c' = ct_userList c"
    "ct_info c' = ct_info c" "ct_traffic c' = ct_traffic c \<or> ct_traffic c' = []" "ct_Options c' = ct_Options c"
    "ct_nodeInfoMonitorPeriodic c' = Some (startTask (ni_PullInterval node) False)"
    "ct_userReportPeriodic c' = Some (startTask (ni_PushInterval node) False)"
    "\<forall>p. ct_dynamicSpeedLimitPeriodic c' = Some p \<longrightarrow>
      pd_task p = newTask \<or> ct_dynamicSpeedLimitPeriodic c = Some p"
  using assms by (auto simp: startTasks_def Let_def split: if_splits option.splits)

lemma installNode_ok:
  assumes "installNode E I node c w = Ret (None, c', w')"
  shows "\<exists>s p core k core'. cr_AddNode I (ct_tag c) node (ct_Options c) (wd_core w) = Ret ((None, p), core) \<and>
    cr_AddUsers I (ct_tag c) (ct_userList c) node core = Ret ((k, None), core') \<and>
    startTasks node (c\<lparr>ct_Options := p, ct_info := Some node\<rparr>) = Ret c' \<and>
    w' = w\<lparr>wd_certs := s, wd_core := core'\<rparr>"
proof -
  obtain s where c: "(if ni_Security node = secTls then requestCert (cv_cert E) (op_CertConfig (ct_Options c)) (wd_certs w)
      else Ret (None, wd_certs w)) = Ret (None, s)"
    using assms unfolding installNode_def by (auto split: outcome.split_asm prod.split_asm option.split_asm)
  obtain p core where n: "cr_AddNode I (ct_tag c) node (ct_Options c) (wd_core w) = Ret ((None, p), core)"
    using assms unfolding installNode_def c by (auto split: outcome.split_asm prod.split_asm option.split_asm)
  obtain k core' where u: "cr_AddUsers I (ct_tag c) (ct_userList c) node core = Ret ((k, None), core')"
    using assms unfolding installNode_def c n by (auto split: outcome.split_asm prod.split_asm option.split_asm)
  show ?thesis
    using assms n u unfolding installNode_def c by (auto split: outcome.split_asm)
qed

lemma UpdateRule_parts:
  assumes "UpdateRule compile rules l = Ret (e, l')"
  shows "e = None" "l_ProtocolRules l' = r_Protocol rules" "l_UserLimitInfo l' = l_UserLimitInfo l"
    "compileAll compile (r_Regexp rules) = Some (l_DomainRules l')" "l_AliveList l' = l_AliveList l"
  using assms by (auto simp: UpdateRule_def split: option.splits)

lemma updateRule_parts:
  assumes "updateRule compile rules a w = Ret (e, w')" "a < length (wd_store w)"
  shows "e = None" "wd_core w' = wd_core w" "wd_limiters w' = wd_limiters w"
    "length (wd_store w') = length (wd_store w)"
    "l_ProtocolRules (wd_store w' ! a) = r_Protocol rules"
    "l_UserLimitInfo (wd_store w' ! a) = l_UserLimitInfo (wd_store w ! a)"
    "compileAll compile (r_Regexp rules) = Some (l_DomainRules (wd_store w' ! a))"
proof -
  obtain l where u: "UpdateRule compile rules (wd_store w ! a) = Ret (e, l)" "w' = updateLimiter a (\<lambda>_. l) w"
    using assms(1) by (auto simp: updateRule_def split: outcome.splits)
  note p = UpdateRule_parts [OF u(1)]
  show "e = None" "wd_core w' = wd_core w" "wd_limiters w' = wd_limiters w"
    "length (wd_store w') = length (wd_store w)"
    "l_ProtocolRules (wd_store w' ! a) = r_Protocol rules"
    "l_UserLimitInfo (wd_store w' ! a) = l_UserLimitInfo (wd_store w ! a)"
    "compileAll compile (r_Regexp rules) = Some (l_DomainRules (wd_store w' ! a))"
    using p assms(2) by (simp_all add: u(2))
qed

lemma Controller_Start_ok:
  assumes "Controller_Start E I c w = Ret (None, c', w')"
  shows "\<exists>node us alive cl tag a w1 w2. us \<noteq> [] \<and> addLimiter tag (op_LimitConfig (ct_Options c)) us alive w = (a, w1) \<and>
    updateRule (cv_compile E) (ni_Rules node) a w1 = Ret (None, w2) \<and>
    installNode E I node (c\<lparr>ct_userList := us, ct_apiClient := cl, ct_aliveMap := alive, ct_tag := tag, ct_limiter := Some a\<rparr>) w2
      = Ret (None, c', w')"
proof -
  obtain n cl1 where n: "GetNodeInfo (cv_node E) (cv_server E) (ct_apiClient c) = Ret ((n, None), cl1)"
    using valued_call [OF assms [unfolded Controller_Start_def]] by auto
  note r1 = assms [unfolded Controller_Start_def n, simplified]
  obtain u cl2 where u: "GetUserList (cv_user E) (cv_server E) cl1 = Ret ((u, None), cl2)"
    using valued_call [OF r1] by auto
  define us where "us = (case u of None \<Rightarrow> [] | Some us \<Rightarrow> us)"
  note r2 = r1 [unfolded u, simplified, folded us_def, unfolded Let_def]
  have us: "us \<noteq> []"
    using r2 by auto
  note r3 = r2 [unfolded if_not_P [OF us]]
  obtain alive cl3 where al: "GetUserAlive (cv_user E) (cv_server E) cl2 = Ret ((alive, None), cl3)"
    using valued_call [OF r3] by auto
  note r4 = r3 [unfolded al, simplified]
  obtain node where node: "n = Some node"
    using r4 by (cases n) auto
  obtain tag a w1 w2 where "addLimiter tag (op_LimitConfig (ct_Options c)) us alive w = (a, w1)"
    "updateRule (cv_compile E) (ni_Rules node) a w1 = Ret (None, w2)"
    "installNode E I node (c\<lparr>ct_userList := us, ct_apiClient := cl3, ct_aliveMap := alive, ct_tag := tag, ct_limiter := Some a\<rparr>) w2
      = Ret (None, c', w')"
    using r4 node by (auto split: prod.split_asm outcome.split_asm option.split_asm)
  then show ?thesis
    using us by blast
qed

context core_table
begin

lemma start_serves:
  assumes "Controller_Start E I c w = Ret (None, c', w')" "distinct (map ui_Uuid (ct_userList c'))"
  shows "\<exists>node a. ct_info c' = Some node \<and> ct_userList c' \<noteq> [] \<and> ct_limiter c' = Some a \<and>
    map_of (wd_limiters w') (ct_tag c') = Some a \<and>
    (\<forall>x. Limiter_uid (wd_store w' ! a) (ct_tag c') x = idsOf (ct_userList c') x) \<and>
    (\<forall>u\<in>set (ct_userList c'). uid (wd_core w') (ct_tag c') (ui_Uuid u) = ui_Id u) \<and>
    l_ProtocolRules (wd_store w' ! a) = r_Protocol (ni_Rules node) \<and>
    compileAll (cv_compile E) (r_Regexp (ni_Rules node)) = Some (l_DomainRules (wd_store w' ! a)) \<and>
    ct_nodeInfoMonitorPeriodic c' = Some (startTask (ni_PullInterval node) False) \<and>
    ct_userReportPeriodic c' = Some (startTask (ni_PushInterval node) False)"
proof -
  obtain node us alive cl tag a w1 w2 where us: "us \<noteq> []"
    and add: "addLimiter tag (op_LimitConfig (ct_Options c)) us alive w = (a, w1)"
    and rule: "updateRule (cv_compile E) (ni_Rules node) a w1 = Ret (None, w2)"
    and inst: "installNode E I node (c\<lparr>ct_userList := us, ct_apiClient := cl, ct_aliveMap := alive, ct_tag := tag,
        ct_limiter := Some a\<rparr>) w2 = Ret (None, c', w')"
    using Controller_Start_ok [OF assms(1)] by blast
  let ?c = "c\<lparr>ct_userList := us, ct_apiClient := cl, ct_aliveMap := alive, ct_tag := tag, ct_limiter := Some a\<rparr>"
  obtain s p core k core' where i: "cr_AddUsers I (ct_tag ?c) (ct_userList ?c) node core = Ret ((k, None), core')"
    "startTasks node (?c\<lparr>ct_Options := p, ct_info := Some node\<rparr>) = Ret c'"
    "w' = w2\<lparr>wd_certs := s, wd_core := core'\<rparr>"
    using installNode_ok [OF inst] by blast
  note t = startTasks_parts [OF i(2)]
  note l = addLimiter_parts [OF add]
  note r = updateRule_parts [OF rule l(2)]
  have d: "distinct (map ui_Uuid us)"
    using assms(2) t(3) by simp
  have "Limiter_uid (wd_store w2 ! a) tag x = idsOf us x" for x
    using makeLimiter_uid [OF d] r(6) l(4) by (simp add: Limiter_uid_def)
  moreover have "uid core' tag (ui_Uuid u) = ui_Id u" if "u \<in> set us" for u
    using add_uid [OF i(1)] d idsOf_in [OF that d] that by (auto simp: uuids_def)
  ultimately show ?thesis
    using us t l r by (auto simp: i(3))
qed

end

lemma GetUserAlive_no_error: "GetUserAlive E server c = Ret ((m, e), c') \<Longrightarrow> e = None"
  by (auto simp: GetUserAlive_def Let_def split: prod.splits option.splits if_splits sum.splits)

text \<open>A node with a name of its own keeps its limiter over a reload, users and all.\<close>

lemma reloadNode_named:
  assumes "op_Name (ct_Options c) \<noteq> []" "ct_limiter c = Some a" "a < length (wd_store w)"
    and "reloadNode E I n newU newA c w = Ret (c', w')"
  shows "ct_userList c' = (case newU of None \<Rightarrow> ct_userList c | Some us \<Rightarrow> us) \<and> ct_tag c' = ct_tag c \<and>
    ct_limiter c' = Some a \<and> length (wd_store w') = length (wd_store w) \<and>
    l_UserLimitInfo (wd_store w' ! a) = l_UserLimitInfo (wd_store w ! a)"
proof -
  let ?us = "case newU of None \<Rightarrow> ct_userList c | Some us \<Rightarrow> us"
  let ?c = "c\<lparr>ct_info := Some n, ct_userList := ?us, ct_traffic := []\<rparr>"
  obtain core where dn: "cr_DelNode I (ct_tag ?c) (wd_core w) = Ret (None, core)"
    using plain_call [OF assms(4) [unfolded reloadNode_def Let_def]] by auto
  note r1 = assms(4) [unfolded reloadNode_def Let_def dn, simplified]
  have keep: "reloadLimiter n newA ?c (w\<lparr>wd_core := core\<rparr>) = (?c, w\<lparr>wd_core := core\<rparr>)"
    using assms(1) by (simp add: reloadLimiter_def)
  note r2 = r1 [unfolded keep, simplified]
  obtain w1 where w1: "setAlive newA ?c (w\<lparr>wd_core := core\<rparr>) = Ret w1"
    using sure_call [OF r2] by blast
  note p1 = setAlive_parts [OF w1]
  note r3 = r2 [unfolded w1, simplified, unfolded assms(2), simplified]
  obtain w2 e where w2: "updateRule (cv_compile E) (ni_Rules n) a w1 = Ret (e, w2)"
    using plain_call [OF r3] by blast
  have a: "a < length (wd_store w1)"
    using p1(4) assms(3) by simp
  note p2 = updateRule_parts [OF w2 a]
  have info: "l_UserLimitInfo (wd_store w2 ! a) = l_UserLimitInfo (wd_store w ! a)"
    using p1(5) [of a] p2(6) assms(2,3) by simp
  have "wd_store w' = wd_store w2 \<and> ct_userList c' = ?us \<and> ct_tag c' = ct_tag c \<and> ct_limiter c' = Some a"
    using plain_call [OF r3 [unfolded w2 p2(1)]] assms(2)
    by (auto dest!: plain_call valued_call sure_call simp: checkIntervals_def split: option.split_asm outcome.split_asm)
  then show ?thesis
    using info p1(4) p2 by simp
qed

text \<open>What can follow without the panel sending another configuration or another list: polls that find the
  configuration unchanged and the list unchanged, served again, or not served, connections, reports, and
  whatever the rest of the process does that leaves this limiter alone.\<close>

inductive quiet :: "'c Core \<Rightarrow> UserInfo list \<Rightarrow> nat \<Rightarrow> Controller \<times> ('c, 'b) World \<Rightarrow> Controller \<times> ('c, 'b) World \<Rightarrow> bool"
  for I us a where
  none: "quiet I us a p p"
| poll: "quiet I us a p (c, w) \<Longrightarrow>
     GetNodeInfo (cv_node E) (cv_server E) (ct_apiClient c) = Ret ((None, ne), cl) \<Longrightarrow>
     (\<And>u cl'. GetUserList (cv_user E) (cv_server E) cl = Ret ((u, None), cl') \<Longrightarrow> u \<in> {None, Some us}) \<Longrightarrow>
     nodeInfoMonitor E I c w = Ret (c', w') \<Longrightarrow> quiet I us a p (c', w')"
| connection: "quiet I us a p (c, w) \<Longrightarrow>
     quiet I us a p (c, updateLimiter a (\<lambda>l. snd (CheckLimit nb now t ip tcp noSSUDP l)) w)"
| report: "quiet I us a p (c, w) \<Longrightarrow> reportUserTrafficTask E I c w = Ret (bs, w') \<Longrightarrow> quiet I us a p (c, w')"
| elsewhere: "quiet I us a p (c, w) \<Longrightarrow> length (wd_store w) \<le> length (wd_store w') \<Longrightarrow>
     wd_store w' ! a = wd_store w ! a \<Longrightarrow> quiet I us a p (c, w')"

lemma CheckLimit_adds_none:
  "map_of (l_UserLimitInfo l) x = None \<Longrightarrow> map_of (l_UserLimitInfo (snd (CheckLimit nb now t ip tcp ns l))) x = None"
  by (auto simp: CheckLimit_def Let_def case_prod_beta limiter_frame userSpeed_def map_of_mstore map_of_mdelete
      split: option.split)

lemma poll_same_list:
  assumes "GetNodeInfo (cv_node E) (cv_server E) (ct_apiClient c) = Ret ((None, ne), cl)"
    and "\<And>u cl'. GetUserList (cv_user E) (cv_server E) cl = Ret ((u, None), cl') \<Longrightarrow> u \<in> {None, Some us}"
    and "nodeInfoMonitor E I c w = Ret (c', w')" "ct_userList c = us" "distinct (map userKey us)"
    and "ct_limiter c = Some a" "a < length (wd_store w)"
  shows "ct_userList c' = us \<and> ct_tag c' = ct_tag c \<and> ct_limiter c' = Some a \<and> length (wd_store w') = length (wd_store w) \<and>
    l_UserLimitInfo (wd_store w' ! a) = l_UserLimitInfo (wd_store w ! a)"
proof -
  note r1 = assms(3) [unfolded nodeInfoMonitor_def assms(1) outcome.case prod.case]
  show ?thesis
  proof (cases ne)
    case (Some e)
    then show ?thesis using r1 assms(4,6) by auto
  next
    case None
    note r2 = r1 [unfolded None option.case]
    obtain u e2 cl2 where u: "GetUserList (cv_user E) (cv_server E) cl = Ret ((u, e2), cl2)"
      using valued_call [OF r2] by blast
    note r3 = r2 [unfolded u outcome.case prod.case]
    show ?thesis
    proof (cases e2)
      case (Some e)
      then show ?thesis using r3 assms(4,6) by auto
    next
      case None
      note r4 = r3 [unfolded None option.case]
      obtain al cl3 where al: "GetUserAlive (cv_user E) (cv_server E) cl2 = Ret ((al, None), cl3)"
        using valued_call [OF r4] GetUserAlive_no_error by blast
      let ?c = "c\<lparr>ct_apiClient := cl3\<rparr>"
      note r5 = r4 [unfolded al outcome.case prod.case option.case Let_def]
      obtain w1 where w1: "setAlive al ?c w = Ret w1"
        using sure_call [OF r5] by blast
      note r6 = r5 [unfolded w1 outcome.case]
      have p: "length (wd_store w1) = length (wd_store w)"
        "l_UserLimitInfo (wd_store w1 ! a) = l_UserLimitInfo (wd_store w ! a)"
        using setAlive_parts(4) [OF w1] setAlive_parts(5) [OF w1, of a] assms(6,7) by simp_all
      have "wd_store w' = wd_store w1 \<and> ct_userList c' = us \<and> ct_tag c' = ct_tag c \<and> ct_limiter c' = ct_limiter c"
      proof (cases "(case u of None \<Rightarrow> [] | Some us \<Rightarrow> us) = []")
        case True
        then show ?thesis using r6 assms(4) by auto
      next
        case False
        then have us: "(case u of None \<Rightarrow> [] | Some us \<Rightarrow> us) = us"
          using assms(2) [of u cl2] u None by (cases u) auto
        obtain info where "updateUsers I us info ?c w1 = Ret (c', w')"
          using r6 [unfolded us] False us by (cases "ct_info c") auto
        then show ?thesis
          unfolding updateUsers_def using assms(4,5)
          by (auto simp: compareUserList_same deleteAll_def addAll_def)
      qed
      then show ?thesis
        using p assms(6) by simp
    qed
  qed
qed

lemma report_users:
  assumes "reportUserTrafficTask E I c w = Ret (bs, w')" "ct_limiter c = Some a" "a < length (wd_store w)"
  shows "length (wd_store w') = length (wd_store w) \<and>
    l_UserLimitInfo (wd_store w' ! a) = l_UserLimitInfo (wd_store w ! a)"
proof -
  obtain online l where g: "GetOnlineDevice (wd_store w ! a) = (online, l)"
    by (metis surj_pair)
  obtain k where "w' = updateLimiter a (\<lambda>_. l) (w\<lparr>wd_core := k\<rparr>)"
    using assms(1,2) g
    by (auto simp: reportUserTrafficTask_def Let_def split: outcome.split_asm prod.split_asm if_split_asm)
  moreover have "l_UserLimitInfo l = l_UserLimitInfo (wd_store w ! a)"
    using g by (auto simp: GetOnlineDevice_def Let_def)
  ultimately show ?thesis
    using assms(3) by simp
qed

text \<open>So the limiter of a quiet controller never gets to know a user it does not know.\<close>

lemma quiet_keeps:
  assumes "quiet I us a p q" "p = (c, w)" "q = (c', w')" "ct_userList c = us" "distinct (map userKey us)"
    and "ct_limiter c = Some a" "a < length (wd_store w)" "map_of (l_UserLimitInfo (wd_store w ! a)) x = None"
  shows "ct_userList c' = us \<and> ct_tag c' = ct_tag c \<and> ct_limiter c' = Some a \<and> a < length (wd_store w') \<and>
    map_of (l_UserLimitInfo (wd_store w' ! a)) x = None"
  using assms(1-3)
proof (induction arbitrary: c' w' rule: quiet.induct)
  case (none p)
  then show ?case using assms(4-8) by simp
next
  case (poll p c1 w1 E ne cl c2 w2)
  have k: "ct_userList c1 = us \<and> ct_tag c1 = ct_tag c \<and> ct_limiter c1 = Some a \<and> a < length (wd_store w1) \<and>
      map_of (l_UserLimitInfo (wd_store w1 ! a)) x = None"
    by (rule poll.IH [OF poll.prems(1) HOL.refl])
  from poll_same_list [OF poll.hyps(2,3,4) _ assms(5)] k poll.prems(2) show ?case
    by auto
next
  case (connection p c1 w1 nb now t ip tcp noSSUDP)
  have k: "ct_userList c1 = us \<and> ct_tag c1 = ct_tag c \<and> ct_limiter c1 = Some a \<and> a < length (wd_store w1) \<and>
      map_of (l_UserLimitInfo (wd_store w1 ! a)) x = None"
    by (rule connection.IH [OF connection.prems(1) HOL.refl])
  then show ?case
    using connection.prems(2) by (auto simp: CheckLimit_adds_none)
next
  case (report p c1 w1 E bs w2)
  have k: "ct_userList c1 = us \<and> ct_tag c1 = ct_tag c \<and> ct_limiter c1 = Some a \<and> a < length (wd_store w1) \<and>
      map_of (l_UserLimitInfo (wd_store w1 ! a)) x = None"
    by (rule report.IH [OF report.prems(1) HOL.refl])
  then show ?case
    using report_users [OF report.hyps(2), of a] report.prems(2) by auto
next
  case (elsewhere p c1 w1 w2)
  have k: "ct_userList c1 = us \<and> ct_tag c1 = ct_tag c \<and> ct_limiter c1 = Some a \<and> a < length (wd_store w1) \<and>
      map_of (l_UserLimitInfo (wd_store w1 ! a)) x = None"
    by (rule elsewhere.IH [OF elsewhere.prems(1) HOL.refl])
  then show ?case
    using elsewhere.hyps(2,3) elsewhere.prems(2) by auto
qed

lemma onlineData_mem:
  "(\<exists>ips. map_of (fold addOnline us d) uid = Some ips \<and> ip \<in> set ips) \<longleftrightarrow>
   (\<exists>ips. map_of d uid = Some ips \<and> ip \<in> set ips) \<or> \<lparr>ou_UID = uid, ou_IP = ip\<rparr> \<in> set us"
proof (induction us arbitrary: d)
  case (Cons u us)
  have "(\<exists>ips. map_of (addOnline u d) uid = Some ips \<and> ip \<in> set ips) \<longleftrightarrow>
      (\<exists>ips. map_of d uid = Some ips \<and> ip \<in> set ips) \<or> \<lparr>ou_UID = uid, ou_IP = ip\<rparr> = u"
    by (cases u; cases "map_of d uid") (auto simp: addOnline_def map_of_mstore split: option.splits)
  then show ?case
    using Cons.IH [of "addOnline u d"] by auto
qed simp

section \<open>A controller that never checks speeds\<close>

text \<open>The life of a controller: what can happen to it, with the world around it changing in any way, and the
  goroutines of its tasks taking steps.\<close>

inductive ctl_step :: "'c Core \<Rightarrow> Controller \<times> ('c, 'b) World \<Rightarrow> Controller \<times> ('c, 'b) World \<Rightarrow> bool" for I where
  start: "Controller_Start E I c w = Ret (e, c', w') \<Longrightarrow> ctl_step I (c, w) (c', w')"
| poll: "nodeInfoMonitor E I c w = Ret (c', w') \<Longrightarrow> ctl_step I (c, w) (c', w')"
| report: "reportUserTrafficTask E I c w = Ret (bs, w') \<Longrightarrow> ctl_step I (c, w) (c, w')"
| speed: "SpeedChecker E c w = Ret (c', w') \<Longrightarrow> ctl_step I (c, w) (c', w')"
| close: "Controller_Close I c w = Ret (e, c', w') \<Longrightarrow> ctl_step I (c, w) (c', w')"
| world: "ctl_step I (c, w) (c, w')"
| tasks: "ctl_step I (c, w) (c\<lparr>ct_nodeInfoMonitorPeriodic := p, ct_userReportPeriodic := q, ct_renewCertPeriodic := r\<rparr>, w)"
| dynamic: "ct_dynamicSpeedLimitPeriodic c = Some p \<Longrightarrow> t_loops (pd_task p) \<noteq> [] \<Longrightarrow>
     task_step False (pd_task p) (Ret t) \<Longrightarrow>
     ctl_step I (c, w) (c\<lparr>ct_dynamicSpeedLimitPeriodic := Some (p\<lparr>pd_task := t\<rparr>)\<rparr>, w)"

inductive ctl_reach :: "'c Core \<Rightarrow> Controller \<times> ('c, 'b) World \<Rightarrow> bool" for I where
  init: "ctl_reach I (NewController api config, w)"
| step: "ctl_reach I s \<Longrightarrow> ctl_step I s s' \<Longrightarrow> ctl_reach I s'"

definition idle :: "Controller \<Rightarrow> bool" where
  "idle c \<longleftrightarrow> ct_traffic c = [] \<and> (\<forall>p. ct_dynamicSpeedLimitPeriodic c = Some p \<longrightarrow> pd_task p = newTask)"

lemma idle_updates [simp]:
  "idle (c\<lparr>ct_apiClient := cl\<rparr>) = idle c" "idle (c\<lparr>ct_userList := us\<rparr>) = idle c"
  "idle (c\<lparr>ct_aliveMap := m\<rparr>) = idle c" "idle (c\<lparr>ct_tag := t\<rparr>) = idle c"
  "idle (c\<lparr>ct_limiter := l\<rparr>) = idle c" "idle (c\<lparr>ct_info := n\<rparr>) = idle c" "idle (c\<lparr>ct_Options := o1\<rparr>) = idle c"
  "idle (c\<lparr>ct_nodeInfoMonitorPeriodic := p\<rparr>) = idle c" "idle (c\<lparr>ct_userReportPeriodic := p\<rparr>) = idle c"
  "idle (c\<lparr>ct_renewCertPeriodic := p\<rparr>) = idle c" "idle (c\<lparr>ct_onlineIpReportPeriodic := p\<rparr>) = idle c"
  by (simp_all add: idle_def)

lemma idle_startTasks: "startTasks node c = Ret c' \<Longrightarrow> idle c \<longrightarrow> idle c'"
  using startTasks_parts [of node c c'] by (auto simp: idle_def)

lemma idle_installNode: "installNode E I node c w = Ret (e, c', w') \<Longrightarrow> idle c \<longrightarrow> idle c'"
  unfolding installNode_def
  by (auto dest!: plain_call node_call valued_call last_call idle_startTasks)

lemma idle_Start: "Controller_Start E I c w = Ret (e, c', w') \<Longrightarrow> idle c \<Longrightarrow> idle c'"
  unfolding Controller_Start_def Let_def
  by (auto dest!: plain_call valued_call idle_installNode
      split: if_split_asm option.split_asm prod.split_asm)

lemma idle_checkIntervals: "checkIntervals n c = Ret c' \<Longrightarrow> idle c \<longrightarrow> idle c'"
  by (auto simp: checkIntervals_def split: option.split_asm outcome.split_asm)

lemma idle_reloadLimiter: "reloadLimiter n a c w = (c', w') \<Longrightarrow> idle c \<longrightarrow> idle c'"
  by (auto simp: reloadLimiter_def Let_def split: if_split_asm prod.split_asm)

lemma idle_traffic [simp]: "idle c \<Longrightarrow> idle (c\<lparr>ct_traffic := []\<rparr>)"
  by (simp add: idle_def)

lemma idle_reloadNode: "reloadNode E I n newU newA c w = Ret (c', w') \<Longrightarrow> idle c \<longrightarrow> idle c'"
  unfolding reloadNode_def Let_def
  by (auto dest!: plain_call node_call valued_call last_call sure_call [where r = "setAlive m c w" for m c w]
      idle_reloadLimiter idle_checkIntervals split: option.split_asm prod.split_asm)

lemma idle_updateUsers: "updateUsers I us info c w = Ret (c', w') \<Longrightarrow> idle c \<longrightarrow> idle c'"
proof -
  have forget: "fold (\<lambda>u. mdelete (ui_Uuid u)) us [] = []" for us :: "UserInfo list"
    by (induction us) (simp_all add: mdelete_def)
  show "updateUsers I us info c w = Ret (c', w') \<Longrightarrow> idle c \<longrightarrow> idle c'"
    by (auto simp: updateUsers_def Let_def idle_def forget dest!: plain_call valued_call
        split: prod.split_asm if_split_asm option.split_asm)
qed

lemma idle_poll: "nodeInfoMonitor E I c w = Ret (c', w') \<Longrightarrow> idle c \<Longrightarrow> idle c'"
  unfolding nodeInfoMonitor_def Let_def
  by (auto dest!: valued_call sure_call [where r = "setAlive m c w" for m c w]
      idle_reloadNode idle_updateUsers split: option.split_asm if_split_asm)

lemma idle_Close: "Controller_Close I c w = Ret (e, c', w') \<Longrightarrow> idle c \<Longrightarrow> idle c'"
proof -
  have t: "closeTask p = Ret q \<Longrightarrow> \<forall>x. p = Some x \<longrightarrow> pd_task x = newTask \<Longrightarrow> \<forall>x. q = Some x \<longrightarrow> pd_task x = newTask" for p q
    by (auto simp: closeTask_def Periodic_Task.Close_def newTask_def split: option.split_asm)
  assume r: "Controller_Close I c w = Ret (e, c', w')" and i: "idle c"
  note r0 = r [unfolded Controller_Close_def Let_def]
  obtain p1 where p1: "closeTask (ct_nodeInfoMonitorPeriodic c) = Ret p1"
    using sure_call [OF r0] by blast
  note r1 = r0 [unfolded p1 outcome.case]
  obtain p2 where p2: "closeTask (ct_userReportPeriodic c) = Ret p2"
    using sure_call [OF r1] by blast
  note r2 = r1 [unfolded p2 outcome.case]
  obtain p3 where p3: "closeTask (ct_renewCertPeriodic c) = Ret p3"
    using sure_call [OF r2] by blast
  note r3 = r2 [unfolded p3 outcome.case]
  obtain p4 where p4: "closeTask (ct_dynamicSpeedLimitPeriodic c) = Ret p4"
    using sure_call [OF r3] by blast
  note r4 = r3 [unfolded p4 outcome.case]
  obtain p5 where p5: "closeTask (ct_onlineIpReportPeriodic c) = Ret p5"
    using sure_call [OF r4] by blast
  have c': "c' = c\<lparr>ct_nodeInfoMonitorPeriodic := p1, ct_userReportPeriodic := p2,
      ct_renewCertPeriodic := p3, ct_dynamicSpeedLimitPeriodic := p4, ct_onlineIpReportPeriodic := p5\<rparr>"
    using plain_call [OF r4 [unfolded p5 outcome.case]]
    by (elim disjE exE conjE) (simp_all only: outcome.inject prod.inject)
  have "\<forall>x. p4 = Some x \<longrightarrow> pd_task x = newTask"
    by (rule t [OF p4]) (use i in \<open>simp add: idle_def\<close>)
  then show "idle c'"
    using i by (simp add: c' idle_def)
qed

lemma SpeedChecker_idle: "idle c \<Longrightarrow> SpeedChecker E c w = Ret (c, w)"
  by (simp add: SpeedChecker_def idle_def)

lemma idle_step: "ctl_step I s s' \<Longrightarrow> idle (fst s) \<Longrightarrow> idle (fst s')"
proof (induction rule: ctl_step.induct)
  case (start E c w e c' w')
  then show ?case using idle_Start by auto
next
  case (poll E c w c' w')
  then show ?case using idle_poll by auto
next
  case (speed E c w c' w')
  then show ?case by (simp add: SpeedChecker_idle)
next
  case (close c w e c' w')
  then show ?case using idle_Close by auto
next
  case (dynamic c p t w)
  then show ?case by (auto simp: idle_def newTask_def)
qed simp_all

lemma ctl_reach_idle: "ctl_reach I s \<Longrightarrow> idle (fst s)"
proof (induction rule: ctl_reach.induct)
  case (init api config w)
  then show ?case by (simp add: idle_def NewController_def)
next
  case (step s s')
  then show ?case using idle_step by blast
qed

section \<open>Properties\<close>

text \<open>C1: a poll keeps core, limiter and list together: if the core of a node and its limiter know exactly
  the users of the controller's list, and the panel sends a new list for an unchanged node, then after
  a poll that adopted the list they know exactly the users of the new one.  This holds over a selector
  with any of the program's cores.\<close>

theorem poll_follows_panel:
  assumes "synced (sel_uid any_uid) c w"
    and "GetNodeInfo (cv_node E) (cv_server E) (ct_apiClient c) = Ret ((None, None), cl1)"
    and "GetUserList (cv_user E) (cv_server E) cl1 = Ret ((Some newU, None), cl2)"
    and "newU \<noteq> []" "user_lists (ct_userList c) newU"
    and "nodeInfoMonitor E (selectorCore J (anyCore X)) c w = Ret (c', w')" "ct_userList c' = newU"
  shows "synced (sel_uid any_uid) c' w'"
  by (rule sc.poll_synced [OF assms])

text \<open>C2: after a successful start the node is served: the controller's limiter is the one registered under
  its tag, its users are exactly those of the list, its rules those of the node, the core accounts
  every user of the list under his id, and the two periodic tasks run at the node's intervals.\<close>

theorem Start_serves_list:
  assumes "Controller_Start E (selectorCore J (anyCore X)) c w = Ret (None, c', w')" "distinct (map ui_Uuid (ct_userList c'))"
  shows "\<exists>node a. ct_info c' = Some node \<and> ct_userList c' \<noteq> [] \<and> ct_limiter c' = Some a \<and>
    map_of (wd_limiters w') (ct_tag c') = Some a \<and>
    (\<forall>x. Limiter_uid (wd_store w' ! a) (ct_tag c') x = idsOf (ct_userList c') x) \<and>
    (\<forall>u\<in>set (ct_userList c'). sel_uid any_uid (wd_core w') (ct_tag c') (ui_Uuid u) = ui_Id u) \<and>
    l_ProtocolRules (wd_store w' ! a) = r_Protocol (ni_Rules node) \<and>
    compileAll (cv_compile E) (r_Regexp (ni_Rules node)) = Some (l_DomainRules (wd_store w' ! a)) \<and>
    ct_nodeInfoMonitorPeriodic c' = Some (startTask (ni_PullInterval node) False) \<and>
    ct_userReportPeriodic c' = Some (startTask (ni_PushInterval node) False)"
  by (rule sc.start_serves [OF assms])

text \<open>C34: a new node configuration is lost when the user list of the same poll cannot be fetched: the poll
  changes nothing but the client, which has already remembered the configuration's hash, so as long as
  the panel answers the same the next poll sees no change.\<close>

theorem poll_loses_node_change:
  assumes "GetNodeInfo (cv_node E) (cv_server E) (ct_apiClient c) = Ret ((Some n, None), cl1)"
    and "GetUserList (cv_user E) (cv_server E) cl1 = Ret ((us, Some e), cl2)"
    and "cv_server E (nodeRequest (ct_apiClient c)) = (Some r, x)" "cv_server E' (nodeRequest cl2) = (Some r', x')"
    and "rp_body r' = rp_body r" "cv_node E' = cv_node E"
  shows "nodeInfoMonitor E I c w = Ret (c\<lparr>ct_apiClient := cl2\<rparr>, w) \<and>
    GetNodeInfo (cv_node E') (cv_server E') cl2 = Ret ((None, None), cl2)"
proof -
  have "cl2 = cl1"
    using assms(2)
    by (auto simp: GetUserList_def split: prod.split_asm option.split_asm if_split_asm outcome.split_asm sum.split_asm)
  moreover have "cl_responseBodyHash cl1 = ne_hash (cv_node E) (rp_body r)"
    using assms(1,3)
    by (auto simp: GetNodeInfo_def Let_def split: if_split_asm outcome.split_asm option.split_asm sum.split_asm prod.split_asm)
  ultimately show ?thesis
    using assms by (simp add: nodeInfoMonitor_def) (simp add: GetNodeInfo_def)
qed


text \<open>C13: the report of online users: an address of a user is posted exactly when the limiter recorded it
  and no entry of this period's traffic of the user is below the threshold; in particular a user with
  no entry at all is posted.\<close>

theorem online_report_filter:
  assumes "cr_GetUserTrafficSlice I (ct_tag c) True (wd_core w) = Ret ((ts, e), core)" "ct_limiter c = Some a"
    and "reportUserTrafficTask E I c w = Ret (posted, w')" "Alive data \<in> set posted"
  shows "(\<exists>ips. map_of data uid = Some ips \<and> ip \<in> set ips) \<longleftrightarrow>
    \<lparr>ou_UID = uid, ou_IP = ip\<rparr> \<in> set (fst (GetOnlineDevice (wd_store w ! a))) \<and>
    (\<forall>t\<in>set ts. ut_UID t = uid \<longrightarrow>
      \<not> wrap64 (ut_Upload t + ut_Download t) < wrap64 (op_DeviceOnlineMinTraffic (ct_Options c) * 1000))"
proof -
  let ?online = "fst (GetOnlineDevice (wd_store w ! a))"
  have "data = onlineData (onlineResult (op_DeviceOnlineMinTraffic (ct_Options c)) ts ?online)"
    using assms by (auto simp: reportUserTrafficTask_def Let_def split: outcome.split_asm if_split_asm prod.split_asm)
  then show ?thesis
    using onlineData_mem [of "onlineResult (op_DeviceOnlineMinTraffic (ct_Options c)) ts ?online" "[]" uid ip]
    by (auto simp: onlineData_def onlineResult_def nocountUID_def)
qed

text \<open>Whether the panel takes a report makes no difference to the node: the counters have been reset
  and the online addresses cleared before the answer is known, so what a failed report carried is lost.\<close>

lemma report_ignores_answer:
  assumes "reportUserTrafficTask E I c w = Ret (posted, w1)"
    and "reportUserTrafficTask (E\<lparr>cv_server := server\<rparr>) I c w = Ret (posted', w2)"
  shows "posted' = posted \<and> w2 = w1"
  using assms
  by (auto simp: reportUserTrafficTask_def Let_def split: outcome.split_asm prod.split_asm if_split_asm option.split_asm)

text \<open>C36: the dynamic speed limit is dead: in every state a controller can come to, no traffic is recorded
  for it and its task has no goroutine, so the check of the speeds does nothing.\<close>

theorem dynamic_limit_dead:
  assumes "ctl_reach I (c, w)"
  shows "ct_traffic c = [] \<and> (\<forall>p. ct_dynamicSpeedLimitPeriodic c = Some p \<longrightarrow> t_loops (pd_task p) = []) \<and>
    SpeedChecker E c w' = Ret (c, w')"
  using ctl_reach_idle [OF assms] SpeedChecker_idle [of c E w'] by (auto simp: idle_def newTask_def)

text \<open>A changed push interval sets the report task to the pull interval.\<close>

lemma checkIntervals_wrong:
  assumes "checkIntervals n c = Ret c'" "ct_userReportPeriodic c = Some q" "pd_Interval q \<noteq> ni_PushInterval n"
    and "ni_PushInterval n \<noteq> 0"
  shows "\<exists>q'. ct_userReportPeriodic c' = Some q' \<and> pd_Interval q' = ni_PullInterval n"
  using assms by (auto simp: checkIntervals_def restartTask_def split: option.split_asm outcome.split_asm)

text \<open>After a start that failed, closing the nodes panics on the first slot that was never filled.\<close>

lemma closeControllers_nil: "closeControllers I (None # cs) w = Panic"
  by simp

section \<open>Witnesses\<close>

text \<open>A panel that answers the configuration request with the given status and serves the given users; for
  no users it serves a body that does not decode.\<close>

definition wit_panel :: "int \<Rightarrow> UserInfo list \<Rightarrow> ctl_env" where
  "wit_panel status us = \<lparr>cv_node = wit_nodes\<lparr>ne_trojan := (\<lambda>b. Inr \<lparr>tj_CommonNode = wit_common\<lparr>cn_Routes := [],
       cn_BaseConfig := Some \<lparr>bc_PushInterval = JNum 60, bc_PullInterval = JNum 60\<rparr>\<rparr>,
       tj_Network = ''tcp'', tj_NetworkSettings = []\<rparr>)\<rparr>,
     cv_user = wit_users\<lparr>ue_msgpack := (\<lambda>b. if b = ''bad'' then Inl ''no'' else Inr (Some us))\<rparr>,
     cv_server = (\<lambda>rq. (Some \<lparr>rp_raw = True,
       rp_status = (if rq_path rq = ''/api/v1/server/UniProxy/config'' then status else 200),
       rp_body = (if us = [] then ''bad'' else ''b''), rp_etag = ''v1'', rp_ctype = ''application/x-msgpack''\<rparr>, None)),
     cv_compile = (\<lambda>p. Some (\<lambda>x. False)), cv_cert = wit_cert_env, cv_now = 0\<rparr>"

definition wit_options :: Options where
  "wit_options = defaultOptions\<lparr>op_Name := ''n'', op_Core := ''sing'', op_CoreName := ''s'',
     op_SingOptions := Some NewSingOptions, op_CertConfig := Some NewCertConfig\<rparr>"

definition wit_controller :: Controller where
  "wit_controller = (NewController wit_client wit_options)\<lparr>ct_tag := ''n'', ct_limiter := Some 0,
     ct_userList := [wit_u 7 ''u'' 0], ct_info := Some wit_node,
     ct_nodeInfoMonitorPeriodic := Some (startTask 60000000000 False),
     ct_userReportPeriodic := Some (startTask 60000000000 False)\<rparr>"

text \<open>A world over the given core with the limiter of that controller.\<close>

definition wit_over :: "'c \<Rightarrow> ('c, unit) World" where
  "wit_over c = \<lparr>wd_core = c, wd_store = [makeLimiter ''n'' 0 [wit_u 7 ''u'' 0] []],
     wd_limiters = [(''n'', 0)], wd_certs = wit_fs\<rparr>"

abbreviation wit_core :: "(unit, int, unit, unit, unit) AnyCore Selector Core" where
  "wit_core \<equiv> selectorCore wit_json (anyCore wit_cores)"

lemma wit_controller_parts:
  "ct_limiter wit_controller = Some 0" "ct_tag wit_controller = ''n''" "ct_userList wit_controller = [wit_u 7 ''u'' 0]"
  "ct_info wit_controller = Some wit_node" "ct_apiClient wit_controller = wit_client"
  "ct_Options wit_controller = wit_options" "op_Name wit_options = ''n''"
  "op_CertConfig wit_options = Some NewCertConfig" "op_SingOptions wit_options = Some NewSingOptions"
  "op_Core wit_options = ''sing''" "op_CoreName wit_options = ''s''" "op_LimitConfig wit_options = zeroLimit"
  "ct_nodeInfoMonitorPeriodic wit_controller = Some (startTask 60000000000 False)"
  "ct_userReportPeriodic wit_controller = Some (startTask 60000000000 False)"
  by (simp_all add: wit_controller_def NewController_def wit_options_def defaultOptions_def)

lemma wit_over_parts [simp]:
  "wd_core (wit_over c) = c" "wd_store (wit_over c) = [makeLimiter ''n'' 0 [wit_u 7 ''u'' 0] []]"
  by (simp_all add: wit_over_def)

lemma wit_poll_users:
  "GetNodeInfo (cv_node (wit_panel 304 us)) (cv_server (wit_panel 304 us)) cl = Ret ((None, None), cl)"
  "us \<noteq> [] \<Longrightarrow> GetUserList (cv_user (wit_panel st us)) (cv_server (wit_panel st us)) cl
     = Ret ((Some us, None), cl\<lparr>cl_userEtag := ''v1''\<rparr>)"
  "GetUserList (cv_user (wit_panel st [])) (cv_server (wit_panel st [])) cl
     = Ret ((None, Some ''decode user list error: no''), cl)"
  "us \<noteq> [] \<Longrightarrow> GetUserAlive (cv_user (wit_panel st us)) (cv_server (wit_panel st us)) cl
     = Ret ((Some [], None), cl\<lparr>cl_AliveMap := Some []\<rparr>)"
  by (simp_all add: wit_panel_def GetNodeInfo_def nodeRequest_def GetUserList_def usersRequest_def
      checkResponse_def wit_users_def contains.simps GetUserAlive_def)

text \<open>The node of the panel, and the client that has fetched it.\<close>

lemma wit_fetched:
  "\<exists>n. GetNodeInfo (cv_node (wit_panel 200 us)) (cv_server (wit_panel 200 us)) wit_client
       = Ret ((Some n, None), wit_client\<lparr>cl_responseBodyHash := ''h'' @ (if us = [] then ''bad'' else ''b''), cl_nodeEtag := ''v1''\<rparr>) \<and>
     ni_Type n = ''trojan'' \<and> ni_Security n = secTls \<and> ni_Rules n = \<lparr>r_Regexp = [], r_Protocol = []\<rparr> \<and>
     ni_PullInterval n = 60000000000 \<and> ni_PushInterval n = 60000000000 \<and>
     (\<exists>c. ni_Common n = Some c) \<and> (\<exists>t. ni_Trojan n = Some t \<and> tj_Network t = ''tcp'' \<and> tj_NetworkSettings t = [])"
  by (simp add: wit_panel_def GetNodeInfo_def nodeRequest_def checkResponse_def wit_nodes_def wit_client_def
      decodeNode_def finishNode_def emptyNode_def clearNode_def clearCommon_def truncRat_def wrap64_def wit_common_def secTls_def)

theorem poll_follows_panel_witness:
  "\<exists>c' w'. nodeInfoMonitor (wit_panel 304 [wit_u 8 ''v'' 0]) wit_core wit_controller (wit_over wit_running) = Ret (c', w') \<and>
     synced (sel_uid any_uid) c' w' \<and> ct_userList c' = [wit_u 8 ''v'' 0]"
proof -
  let ?us = "[wit_u 8 ''v'' 0]" and ?E = "wit_panel 304 [wit_u 8 ''v'' 0]" and ?w = "wit_over wit_running"
  obtain s1 k s2 where d: "Selector_DelUsers (anyCore wit_cores) [wit_u 7 ''u'' 0] ''n'' wit_node wit_running = Ret (None, s1)"
    and a: "Selector_AddUsers (anyCore wit_cores) ''n'' [wit_u 8 ''v'' 0] wit_node s1 = Ret ((k, None), s2)"
    using wit_core_users by blast
  have "\<exists>c' w'. nodeInfoMonitor ?E wit_core wit_controller ?w = Ret (c', w') \<and> ct_userList c' = ?us"
    by (simp add: nodeInfoMonitor_def wit_poll_users setAlive_def wit_controller_parts updateUsers_def wit_compare
        deleteAll_def addAll_def d a Let_def)
  then obtain c' w' where r: "nodeInfoMonitor ?E wit_core wit_controller ?w = Ret (c', w')"
    and u: "ct_userList c' = ?us"
    by blast
  have s: "synced (sel_uid any_uid) wit_controller ?w"
    by (simp add: synced_def wit_controller_parts wit_over_def sel_uid_def nodeCore_def
        wit_running_def Hy2_uid_def mget0_def idsOf_def wit_u_def makeLimiter_uid)
  have l: "user_lists (ct_userList wit_controller) ?us"
    by (simp add: wit_controller_parts user_lists_def wit_u_def)
  show ?thesis
    using poll_follows_panel [OF s wit_poll_users(1) wit_poll_users(2) _ l r u] r u by simp
qed

text \<open>A start over a selector with an empty sing core.\<close>

definition wit_fresh :: "((unit, int, unit, unit, unit) AnyCore Selector, unit) World" where
  "wit_fresh = \<lparr>wd_core = \<lparr>sl_cores = [(''s'', SingCore wit_sing)], sl_nodes = []\<rparr>, wd_store = [],
     wd_limiters = [], wd_certs = wit_fs\<rparr>"

lemma wit_sing_node:
  assumes "ni_Type n = ''trojan''" "ni_Security n = secTls" "ni_Common n = Some c" "ni_Trojan n = Some t"
    and "tj_Network t = ''tcp''" "op_CertConfig p = Some NewCertConfig" "op_SingOptions p = Some NewSingOptions"
  shows "\<exists>b'. Sing_AddNode wit_decode (\<lambda>t i x. (None, x)) ''n'' n p b = Ret (None, b')"
  using assms
  by (simp add: Sing_AddNode_def getInboundOptions_def wit_decode_def singTLS_def
      NewCertConfig_def protocolOptions_def trojanTransport_def Let_def)

lemma wit_sing_users:
  assumes "ni_Type n = ''trojan''"
  shows "\<exists>k b'. Sing_AddUsers wit_box ''n'' us n b = Ret ((k, None), b')"
  using assms by (simp add: Sing_AddUsers_def wit_box_def singUsers_def Let_def)

lemma wit_node_started:
  "\<exists>c' w'. Controller_Start (wit_panel 200 [wit_u 8 ''v'' 0]) wit_core (NewController wit_client wit_options) wit_fresh
     = Ret (None, c', w') \<and> ct_userList c' = [wit_u 8 ''v'' 0] \<and> ct_limiter c' \<noteq> None"
proof -
  let ?us = "[wit_u 8 ''v'' 0]"
  obtain n c t where n: "GetNodeInfo (cv_node (wit_panel 200 ?us)) (cv_server (wit_panel 200 ?us)) wit_client
      = Ret ((Some n, None), wit_client\<lparr>cl_responseBodyHash := ''hb'', cl_nodeEtag := ''v1''\<rparr>)"
    and f: "ni_Type n = ''trojan''" "ni_Security n = secTls" "ni_Rules n = \<lparr>r_Regexp = [], r_Protocol = []\<rparr>"
      "ni_Common n = Some c" "ni_Trojan n = Some t" "tj_Network t = ''tcp''" "tj_NetworkSettings t = []"
    using wit_fetched [of ?us] by auto
  obtain b where a: "Sing_AddNode wit_decode (\<lambda>t i x. (None, x)) ''n'' n wit_options wit_sing = Ret (None, b)"
    using wit_sing_node [OF f(1,2,4,5,6), of wit_options wit_sing] by (auto simp: wit_controller_parts)
  obtain k b' where u: "Sing_AddUsers wit_box ''n'' ?us n b = Ret ((k, None), b')"
    using wit_sing_users [OF f(1)] by blast
  have p: "cr_AddNode wit_core ''n'' n wit_options \<lparr>sl_cores = [(''s'', SingCore wit_sing)], sl_nodes = []\<rparr>
      = Ret ((None, wit_options), \<lparr>sl_cores = [(''s'', SingCore b)], sl_nodes = [(''n'', ''s'')]\<rparr>)"
    using a by (simp add: Selector_AddNode_def selectCore_def anyCore_def wit_cores_def completeOptions_def
        wit_controller_parts mstore_def)
  have q: "cr_AddUsers wit_core ''n'' ?us n \<lparr>sl_cores = [(''s'', SingCore b)], sl_nodes = [(''n'', ''s'')]\<rparr>
      = Ret ((k, None), \<lparr>sl_cores = [(''s'', SingCore b')], sl_nodes = [(''n'', ''s'')]\<rparr>)"
    using u by (simp add: Selector_AddUsers_def nodeCore_def anyCore_def wit_cores_def mstore_def)
  show ?thesis
    by (simp add: Controller_Start_def NewController_def n wit_poll_users Let_def wit_controller_parts
        addLimiter_def updateRule_def UpdateRule_def f installNode_def requestCert_def NewCertConfig_def
        wit_fresh_def p q startTasks_def updateLimiter_def zeroLimit_def del: selectorCore_simps)
qed

theorem Start_serves_list_witness:
  "\<exists>c' w'. Controller_Start (wit_panel 200 [wit_u 8 ''v'' 0]) wit_core (NewController wit_client wit_options) wit_fresh
     = Ret (None, c', w') \<and> sel_uid any_uid (wd_core w') (ct_tag c') ''v'' = 8"
proof -
  obtain c' w' where r: "Controller_Start (wit_panel 200 [wit_u 8 ''v'' 0]) wit_core (NewController wit_client wit_options) wit_fresh
      = Ret (None, c', w')"
    and u: "ct_userList c' = [wit_u 8 ''v'' 0]"
    using wit_node_started by blast
  have "distinct (map ui_Uuid (ct_userList c'))"
    by (simp add: u)
  from Start_serves_list [OF r this] show ?thesis
    using r u by (auto simp: wit_u_def)
qed

theorem poll_loses_node_change_witness:
  "nodeInfoMonitor (wit_panel 200 []) wit_table wit_controller (wit_over 0)
     = Ret (wit_controller\<lparr>ct_apiClient := wit_client\<lparr>cl_responseBodyHash := ''hbad'', cl_nodeEtag := ''v1''\<rparr>\<rparr>, wit_over 0)"
proof -
  let ?E = "wit_panel 200 []" and ?cl = "wit_client\<lparr>cl_responseBodyHash := ''hbad'', cl_nodeEtag := ''v1''\<rparr>"
  obtain n where n: "GetNodeInfo (cv_node ?E) (cv_server ?E) (ct_apiClient wit_controller) = Ret ((Some n, None), ?cl)"
    using wit_fetched [of "[]"] by (auto simp: wit_controller_parts)
  obtain r x where s: "cv_server ?E (nodeRequest (ct_apiClient wit_controller)) = (Some r, x)" "cv_server ?E (nodeRequest ?cl) = (Some r, x)"
    by (simp add: wit_panel_def nodeRequest_def)
  show ?thesis
    using poll_loses_node_change [OF n wit_poll_users(3) s HOL.refl HOL.refl] by blast
qed


text \<open>The same world with an address of the user recorded.\<close>

definition wit_online :: "(nat, unit) World" where
  "wit_online = (wit_over 0)\<lparr>wd_store := [(makeLimiter ''n'' 0 [wit_u 7 ''u'' 0] [])
     \<lparr>l_UserOnlineIP := [(''n|u'', [(''1.2.3.4'', 7)])]\<rparr>]\<rparr>"

lemma wit_report:
  "cr_GetUserTrafficSlice wit_table (ct_tag wit_controller) True (wd_core wit_online) = Ret (([], None), 0)"
  "\<exists>w'. reportUserTrafficTask (wit_panel st us) wit_table wit_controller wit_online = Ret ([Alive [(7, [''1.2.3.4''])]], w')"
  by (simp_all add: wit_online_def wit_table_def reportUserTrafficTask_def wit_controller_parts GetOnlineDevice_def
      onlineOf_def onlineResult_def nocountUID_def onlineData_def addOnline_def mstore_def wit_panel_def
      ReportNodeOnlineUsers_def checkResponse_def Let_def)

theorem online_report_filter_witness:
  "\<exists>w'. reportUserTrafficTask (wit_panel 200 []) wit_table wit_controller wit_online
     = Ret ([Alive [(7, [''1.2.3.4''])]], w') \<and>
   \<lparr>ou_UID = 7, ou_IP = ''1.2.3.4''\<rparr> \<in> set (fst (GetOnlineDevice (wd_store wit_online ! 0)))"
proof -
  obtain w' where r: "reportUserTrafficTask (wit_panel 200 []) wit_table wit_controller wit_online = Ret ([Alive [(7, [''1.2.3.4''])]], w')"
    using wit_report(2) by blast
  show ?thesis
    using online_report_filter [OF wit_report(1) wit_controller_parts(1) r, of "[(7, [''1.2.3.4''])]" 7 "''1.2.3.4''"] r by simp
qed

theorem dynamic_limit_dead_witness:
  "\<exists>c (w :: ((unit, int, unit, unit, unit) AnyCore Selector, unit) World).
     ctl_reach wit_core (c, w) \<and> ct_limiter c \<noteq> None \<and>
     SpeedChecker (wit_panel 200 []) c wit_fresh = Ret (c, wit_fresh)"
proof -
  let ?E = "wit_panel 200 [wit_u 8 ''v'' 0]"
  obtain c' w' where r: "Controller_Start ?E wit_core (NewController wit_client wit_options) wit_fresh = Ret (None, c', w')"
    and l: "ct_limiter c' \<noteq> None"
    using wit_node_started by blast
  have "ctl_reach wit_core (c', w')"
    by (rule ctl_reach.step [OF ctl_reach.init ctl_step.start [OF r]])
  then have "ctl_reach wit_core (c', w') \<and> SpeedChecker (wit_panel 200 []) c' wit_fresh = Ret (c', wit_fresh)"
    using dynamic_limit_dead [of wit_core c' w' "wit_panel 200 []" wit_fresh] by simp
  with l show ?thesis
    by blast
qed

end
