(* ===== verification/Core_New.thy ===== *)
theory Core_New
  imports Cores
begin

text \<open>
  The constructors of the cores: getCore and New of core/xray/xray.go, New of core/sing/sing.go, and the
  registry they and the one of hysteria2 put themselves into.

  The JSON types of xray-core and sing-box, their decoders and builders and the making of an instance
  are parameters.  The state is the environment of the process, of which the code sets two or three
  variables.
\<close>

section \<open>Files\<close>

record boot_files =
  bf_read :: "string \<Rightarrow> string res"
  bf_exists :: "string \<Rightarrow> bool"

section \<open>xray\<close>

record Policy =
  pl_StatsUserUplink :: bool
  pl_StatsUserDownlink :: bool
  pl_Handshake :: int
  pl_ConnectionIdle :: int
  pl_UplinkOnly :: int
  pl_DownlinkOnly :: int
  pl_BufferSize :: int

text \<open>The apps of an instance in the order of the list the code builds, and the instance's configuration.
  The builders of the log and the policy app only repackage, so the apps carry what they are given.\<close>

datatype ('d, 'r) xrayApp =
    LogApp string string string
  | DispatcherApp
  | StatsApp
  | InboundManagerApp
  | OutboundManagerApp
  | PolicyApp "(nat \<times> Policy) list"
  | DnsApp 'd
  | RouterApp 'r

record ('d, 'r, 'i, 'o) xrayInstance =
  xi_App :: "('d, 'r) xrayApp list"
  xi_Inbound :: "'i list"
  xi_Outbound :: "'o list"

text \<open>The decoders start from the zero value; the one of the DNS configuration may leave something behind
  when it fails, which the code drops.\<close>

record ('dj, 'd, 'rj, 'r, 'ij, 'i, 'oj, 'o, 'x) xray_new =
  xn_zeroDns :: 'dj
  xn_dns :: "string \<Rightarrow> 'dj res"
  xn_buildDns :: "'dj \<Rightarrow> 'd res"
  xn_zeroRoute :: 'rj
  xn_route :: "string \<Rightarrow> 'rj res"
  xn_buildRoute :: "'rj \<Rightarrow> 'r res"
  xn_inbounds :: "string \<Rightarrow> 'ij list res"
  xn_buildIn :: "'ij \<Rightarrow> 'i res"
  xn_outbounds :: "string \<Rightarrow> 'oj list res"
  xn_buildOut :: "'oj \<Rightarrow> 'o res"
  xn_instance :: "('d, 'r, 'i, 'o) xrayInstance \<Rightarrow> 'x res"

definition parseConnectionConfig :: "XrayConnectionConfig \<Rightarrow> Policy" where
  "parseConnectionConfig c = \<lparr>pl_StatsUserUplink = True, pl_StatsUserDownlink = True,
     pl_Handshake = xc_Handshake c, pl_ConnectionIdle = xc_ConnIdle c, pl_UplinkOnly = xc_UplinkOnly c,
     pl_DownlinkOnly = xc_DownlinkOnly c, pl_BufferSize = xc_BufferSize c\<rparr>"

text \<open>The DNS file: any failure to read or decode it leaves the default.\<close>

definition dnsConfigOf :: "boot_files \<Rightarrow> (string \<Rightarrow> 'a res) \<Rightarrow> 'a \<Rightarrow> string \<Rightarrow> 'a" where
  "dnsConfigOf B decode zero path =
     (if path \<noteq> [] then
        (case bf_read B path of
           Inl e \<Rightarrow> zero
         | Inr data \<Rightarrow> (case decode data of Inl e \<Rightarrow> zero | Inr d \<Rightarrow> d))
      else zero)"

text \<open>The other files: any failure is logged at panic level.\<close>

definition configOf :: "boot_files \<Rightarrow> (string \<Rightarrow> 'a res) \<Rightarrow> 'a \<Rightarrow> string \<Rightarrow> 'a outcome" where
  "configOf B decode zero path =
     (if path \<noteq> [] then
        (case bf_read B path of
           Inl e \<Rightarrow> Panic
         | Inr data \<Rightarrow> (case decode data of Inl e \<Rightarrow> Panic | Inr d \<Rightarrow> Ret d))
      else Ret zero)"

fun buildEach :: "('a \<Rightarrow> 'b res) \<Rightarrow> 'a list \<Rightarrow> 'b list outcome" where
  "buildEach build [] = Ret []"
| "buildEach build (x # xs) =
     (case build x of
        Inl e \<Rightarrow> Panic
      | Inr y \<Rightarrow> (case buildEach build xs of Panic \<Rightarrow> Panic | Ret ys \<Rightarrow> Ret (y # ys)))"

text \<open>The variables getCore sets.\<close>

definition xrayEnviron :: "XrayConfig \<Rightarrow> (string, string) gomap \<Rightarrow> (string, string) gomap" where
  "xrayEnviron c env =
     (let env = mstore ''XRAY_LOCATION_ASSET'' (xr_AssetPath c) env;
          env = mstore ''XRAY_DNS_PATH'' [] env in
      if xr_DnsConfigPath c \<noteq> [] then mstore ''XRAY_DNS_PATH'' (xr_DnsConfigPath c) env else env)"

definition getCore ::
  "('dj, 'd, 'rj, 'r, 'ij, 'i, 'oj, 'o, 'x) xray_new \<Rightarrow> boot_files \<Rightarrow> XrayConfig option \<Rightarrow> (string, string) gomap \<Rightarrow>
   ('x \<times> (string, string) gomap) outcome" where
  "getCore N B config env =
     (case config of
        None \<Rightarrow> Panic
      | Some c \<Rightarrow>
     (case xr_LogConfig c of
        None \<Rightarrow> Panic
      | Some lg \<Rightarrow>
          let coreLogConfig = LogApp (xl_Level lg) (xl_AccessPath lg) (xl_ErrorPath lg);
              coreDnsConfig = dnsConfigOf B (xn_dns N) (xn_zeroDns N) (xr_DnsConfigPath c) in
     (case xn_buildDns N coreDnsConfig of
        Inl e \<Rightarrow> Panic
      | Inr dnsConfig \<Rightarrow>
     (case configOf B (xn_route N) (xn_zeroRoute N) (xr_RouteConfigPath c) of
        Panic \<Rightarrow> Panic
      | Ret coreRouterConfig \<Rightarrow>
     (case xn_buildRoute N coreRouterConfig of
        Inl e \<Rightarrow> Panic
      | Inr routeConfig \<Rightarrow>
     (case configOf B (xn_inbounds N) [] (xr_InboundConfigPath c) of
        Panic \<Rightarrow> Panic
      | Ret coreCustomInboundConfig \<Rightarrow>
     (case buildEach (xn_buildIn N) coreCustomInboundConfig of
        Panic \<Rightarrow> Panic
      | Ret inBoundConfig \<Rightarrow>
     (case configOf B (xn_outbounds N) [] (xr_OutboundConfigPath c) of
        Panic \<Rightarrow> Panic
      | Ret coreCustomOutboundConfig \<Rightarrow>
     (case buildEach (xn_buildOut N) coreCustomOutboundConfig of
        Panic \<Rightarrow> Panic
      | Ret outBoundConfig \<Rightarrow>
     (case xr_ConnectionConfig c of
        None \<Rightarrow> Panic
      | Some cc \<Rightarrow>
          let config = \<lparr>xi_App = [coreLogConfig, DispatcherApp, StatsApp, InboundManagerApp, OutboundManagerApp,
                  PolicyApp [(0, parseConnectionConfig cc)], DnsApp dnsConfig, RouterApp routeConfig],
                xi_Inbound = inBoundConfig, xi_Outbound = outBoundConfig\<rparr> in
     (case xn_instance N config of
        Inl e \<Rightarrow> Panic
      | Inr server \<Rightarrow> Ret (server, xrayEnviron c env))))))))))))"

text \<open>New: it never returns an error.  The DNS file of the core is the one the environment names.\<close>

definition Xray_New ::
  "('dj, 'd, 'rj, 'r, 'ij, 'i, 'oj, 'o, 'x) xray_new \<Rightarrow> boot_files \<Rightarrow> CoreConfig \<Rightarrow> (string, string) gomap \<Rightarrow>
   (('x, 'b) Xray res \<times> (string, string) gomap) outcome" where
  "Xray_New N B c env =
     (case getCore N B (co_XrayConfig c) env of
        Panic \<Rightarrow> Panic
      | Ret (server, env) \<Rightarrow>
          let path = (case map_of env ''XRAY_DNS_PATH'' of None \<Rightarrow> [] | Some p \<Rightarrow> p) in
          Ret (Inr (newXray server (bf_read B path)), env))"

section \<open>sing\<close>

record SingLogOptions =
  lo_Disabled :: bool
  lo_Level :: string
  lo_Timestamp :: bool
  lo_Output :: string

record NTPOptions =
  np_Enabled :: bool
  np_WriteToSystem :: bool
  np_Server :: string
  np_ServerPort :: int

text \<open>The options of sing-box: the two parts the code sets, and the rest.\<close>

record 'o singOptions =
  bo_Log :: "SingLogOptions option"
  bo_NTP :: "NTPOptions option"
  bo_rest :: 'o

record ('o, 'y) sing_new =
  yn_zero :: "'o singOptions"
  yn_unmarshal :: "string \<Rightarrow> 'o singOptions res"
  yn_box :: "'o singOptions \<Rightarrow> 'y res"

definition Sing_New ::
  "('o, 'y) sing_new \<Rightarrow> boot_files \<Rightarrow> CoreConfig \<Rightarrow> (string, string) gomap \<Rightarrow>
   ('y Sing res \<times> (string, string) gomap) outcome" where
  "Sing_New N B config env =
     (case co_SingConfig config of
        None \<Rightarrow> Panic
      | Some c \<Rightarrow>
          let path = resolveOriginalPath (bf_exists B) c;
              options = (if path \<noteq> [] then
                (case bf_read B path of
                   Inl e \<Rightarrow> Inl (''read original config error: '' @ e)
                 | Inr data \<Rightarrow> (case yn_unmarshal N data of
                     Inl e \<Rightarrow> Inl (''unmarshal original config error: '' @ e)
                   | Inr o1 \<Rightarrow> Inr o1))
                else Inr (yn_zero N)) in
          (case options of
             Inl e \<Rightarrow> Ret (Inl e, env)
           | Inr o1 \<Rightarrow>
               let lg = sg_LogConfig c; np = sg_NtpConfig c;
                   o1 = o1\<lparr>bo_Log := Some \<lparr>lo_Disabled = sl_Disabled lg, lo_Level = sl_Level lg,
                            lo_Timestamp = sl_Timestamp lg, lo_Output = sl_Output lg\<rparr>,
                          bo_NTP := Some \<lparr>np_Enabled = sn_Enable np, np_WriteToSystem = True,
                            np_Server = sn_Server np, np_ServerPort = sn_ServerPort np\<rparr>\<rparr>;
                   env = mstore ''SING_DNS_PATH'' [] env in
               (case yn_box N o1 of
                  Inl e \<Rightarrow> Ret (Inl e, env)
                | Inr b \<Rightarrow> Ret (Inr \<lparr>sb_box = b, sb_heap = [], sb_counter = [], sb_uidMap = [],
                    sb_nodeReportMinTrafficBytes = []\<rparr>, env))))"

section \<open>Lemmas\<close>

lemma outcome_step:
  "(case r of Panic \<Rightarrow> Panic | Ret x \<Rightarrow> f x) = Ret y \<longleftrightarrow> (\<exists>x. r = Ret x \<and> f x = Ret y)"
  "(case s of Inl e \<Rightarrow> Panic | Inr x \<Rightarrow> g x) = Ret y \<longleftrightarrow> (\<exists>x. s = Inr x \<and> g x = Ret y)"
  "(case p of None \<Rightarrow> Panic | Some x \<Rightarrow> h x) = Ret y \<longleftrightarrow> (\<exists>x. p = Some x \<and> h x = Ret y)"
  by (simp_all split: outcome.split sum.split option.split)

lemma buildEach_Ret: "buildEach build xs = Ret ys \<longleftrightarrow> map build xs = map Inr ys"
proof (induction xs arbitrary: ys)
  case (Cons x xs)
  show ?case
    by (cases ys) (auto simp: outcome_step Cons.IH)
qed auto

text \<open>A file that was needed and came out well.\<close>

definition readAs :: "boot_files \<Rightarrow> (string \<Rightarrow> 'a res) \<Rightarrow> 'a \<Rightarrow> string \<Rightarrow> 'a \<Rightarrow> bool" where
  "readAs B decode zero path x \<longleftrightarrow>
     (if path = [] then x = zero else \<exists>data. bf_read B path = Inr data \<and> decode data = Inr x)"

lemma configOf_Ret: "configOf B decode zero path = Ret x \<longleftrightarrow> readAs B decode zero path x"
  by (auto simp: configOf_def readAs_def split: sum.split)

lemma xrayEnviron_at:
  "map_of (xrayEnviron c env) = (map_of env)(''XRAY_LOCATION_ASSET'' \<mapsto> xr_AssetPath c, ''XRAY_DNS_PATH'' \<mapsto> xr_DnsConfigPath c)"
  by (simp add: xrayEnviron_def Let_def map_of_mstore fun_eq_iff)

section \<open>Properties\<close>

text \<open>Building the xray instance succeeds exactly when the configuration has its log and connection parts,
  every route, inbound and outbound file that is named can be read and decoded, and everything in
  them builds; only the DNS file may fail to read or decode, and then counts as absent.  The instance
  is made from exactly these parts, the inbounds and outbounds in the order of their files, with one
  policy that counts the traffic of every user; the environment then names the asset directory and
  the DNS file.\<close>

theorem getCore_spec:
  "getCore N B (Some c) env = Ret (server, env') \<longleftrightarrow>
   (\<exists>lg cc dns rj route ij ins oj outs.
      xr_LogConfig c = Some lg \<and> xr_ConnectionConfig c = Some cc \<and>
      xn_buildDns N (dnsConfigOf B (xn_dns N) (xn_zeroDns N) (xr_DnsConfigPath c)) = Inr dns \<and>
      readAs B (xn_route N) (xn_zeroRoute N) (xr_RouteConfigPath c) rj \<and> xn_buildRoute N rj = Inr route \<and>
      readAs B (xn_inbounds N) [] (xr_InboundConfigPath c) ij \<and> map (xn_buildIn N) ij = map Inr ins \<and>
      readAs B (xn_outbounds N) [] (xr_OutboundConfigPath c) oj \<and> map (xn_buildOut N) oj = map Inr outs \<and>
      xn_instance N \<lparr>xi_App = [LogApp (xl_Level lg) (xl_AccessPath lg) (xl_ErrorPath lg), DispatcherApp, StatsApp,
          InboundManagerApp, OutboundManagerApp, PolicyApp [(0, parseConnectionConfig cc)], DnsApp dns, RouterApp route],
        xi_Inbound = ins, xi_Outbound = outs\<rparr> = Inr server \<and>
      env' = xrayEnviron c env)"
  unfolding getCore_def Let_def
  by (simp add: outcome_step configOf_Ret buildEach_Ret) blast

text \<open>The sing core runs on the options of its original configuration file, if there is one, with the log and
  time sections replaced by those of the program's configuration; a file that is named and cannot be
  read or decoded is an error, never passed over.\<close>

lemma Sing_New_spec:
  assumes "co_SingConfig config = Some c" "Sing_New N B config env = Ret (Inr b, env')"
  shows "\<exists>o1. readAs B (yn_unmarshal N) (yn_zero N) (resolveOriginalPath (bf_exists B) c) o1 \<and>
    yn_box N (o1\<lparr>bo_Log := Some \<lparr>lo_Disabled = sl_Disabled (sg_LogConfig c), lo_Level = sl_Level (sg_LogConfig c),
        lo_Timestamp = sl_Timestamp (sg_LogConfig c), lo_Output = sl_Output (sg_LogConfig c)\<rparr>,
      bo_NTP := Some \<lparr>np_Enabled = sn_Enable (sg_NtpConfig c), np_WriteToSystem = True,
        np_Server = sn_Server (sg_NtpConfig c), np_ServerPort = sn_ServerPort (sg_NtpConfig c)\<rparr>\<rparr>) = Inr (sb_box b) \<and>
    sb_counter b = [] \<and> sb_uidMap b = [] \<and> env' = mstore ''SING_DNS_PATH'' [] env"
  using assms
  by (auto simp: Sing_New_def readAs_def Let_def split: if_split_asm sum.split_asm)

section \<open>The registry\<close>

text \<open>What the init functions of the three packages register.  The registry's constructors do not show the
  environment, which \<open>newEnviron\<close> follows: each core that is made sets its variables.\<close>

record ('dj, 'd, 'rj, 'r, 'ij, 'i, 'oj, 'o, 'x, 'so, 'y, 'w) boot_env =
  bt_files :: boot_files
  bt_xray :: "('dj, 'd, 'rj, 'r, 'ij, 'i, 'oj, 'o, 'x) xray_new"
  bt_sing :: "('so, 'y) sing_new"
  bt_hy2log :: "string \<Rightarrow> string \<Rightarrow> err"
  bt_world :: 'w

definition made :: "('c \<Rightarrow> 'd) \<Rightarrow> ('c res \<times> 'e) outcome \<Rightarrow> 'd res outcome" where
  "made f r = (case r of Panic \<Rightarrow> Panic | Ret (Inl e, env) \<Rightarrow> Ret (Inl e) | Ret (Inr c, env) \<Rightarrow> Ret (Inr (f c)))"

definition registered ::
  "('dj, 'd, 'rj, 'r, 'ij, 'i, 'oj, 'o, 'x, 'so, 'y, 'w) boot_env \<Rightarrow> ('x, 'b, 'y, 's, 'w) AnyCore constructors" where
  "registered T =
     RegisterCore ''hysteria2'' (\<lambda>c. case newHysteria2 (bt_hy2log T) c of
         Panic \<Rightarrow> Panic | Ret (Inl e) \<Rightarrow> Ret (Inl e) | Ret (Inr h) \<Rightarrow> Ret (Inr (Hy2Core h (bt_world T))))
       (RegisterCore ''sing'' (\<lambda>c. made SingCore (Sing_New (bt_sing T) (bt_files T) c []))
         (RegisterCore ''xray'' (\<lambda>c. made XrayCore (Xray_New (bt_xray T) (bt_files T) c [])) []))"

text \<open>The variables after all cores of a configuration were made.\<close>

definition newEnviron :: "CoreConfig \<Rightarrow> (string, string) gomap \<Rightarrow> (string, string) gomap" where
  "newEnviron c env =
     (if to_lower (co_Type c) = ''xray'' then
        (case co_XrayConfig c of None \<Rightarrow> env | Some x \<Rightarrow> xrayEnviron x env)
      else if to_lower (co_Type c) = ''sing'' then mstore ''SING_DNS_PATH'' [] env
      else env)"

text \<open>The watcher never hears of a DNS file of the sing core: whatever cores are made, the variable for it
  is empty or as the process found it.\<close>

lemma sing_dns_never_set:
  "map_of (fold newEnviron cs env) ''SING_DNS_PATH'' \<in> {map_of env ''SING_DNS_PATH'', Some []}"
proof (induction cs arbitrary: env)
  case (Cons c cs)
  have "map_of (newEnviron c env) ''SING_DNS_PATH'' \<in> {map_of env ''SING_DNS_PATH'', Some []}"
    by (auto simp: newEnviron_def map_of_mstore xrayEnviron_at split: option.splits)
  with Cons.IH [of "newEnviron c env"] show ?case
    by auto
qed simp

end
