(* ===== verification/Server.thy ===== *)
theory Server
  imports Controller_Sync Core_New
begin

text \<open>
  The server: serverHandle of cmd/server.go, with the reload it gives to the watcher of conf/watch.go.

  The variable \<open>vc\<close> of interface type holds what NewCore made, or nil after a NewCore that failed; a
  method called on nil panics.  Everything the server runs shares the record \<open>World\<close> of the theory
  Controller, whose core is that variable.  What is only logged is the error an operation returns here.
  The settings of the log, and waiting for a signal, are left out.
\<close>

section \<open>The core in use\<close>

fun onCore ::
  "('c \<Rightarrow> ('r \<times> 'c) outcome) \<Rightarrow> ('c Selector \<Rightarrow> ('r \<times> 'c Selector) outcome) \<Rightarrow> 'c newCore option \<Rightarrow>
   ('r \<times> 'c newCore option) outcome" where
  "onCore f g None = Panic"
| "onCore f g (Some (OneCore c)) = put (\<lambda>c. Some (OneCore c)) (f c)"
| "onCore f g (Some (ManyCores s)) = put (\<lambda>s. Some (ManyCores s)) (g s)"

fun protocolsOf :: "'c Core \<Rightarrow> 'c newCore option \<Rightarrow> string list" where
  "protocolsOf I None = []"
| "protocolsOf I (Some (OneCore c)) = cr_Protocols I c"
| "protocolsOf I (Some (ManyCores s)) = Selector_Protocols I s"

fun typeOf :: "'c Core \<Rightarrow> 'c newCore option \<Rightarrow> string" where
  "typeOf I None = []"
| "typeOf I (Some (OneCore c)) = cr_Type I c"
| "typeOf I (Some (ManyCores s)) = Selector_Type I s"

definition vCore :: "json_env \<Rightarrow> 'c Core \<Rightarrow> 'c newCore option Core" where
  "vCore J I = \<lparr>cr_Start = onCore (cr_Start I) (Selector_Start I),
     cr_Close = onCore (cr_Close I) (Selector_Close I),
     cr_AddNode = (\<lambda>tag info p. onCore (cr_AddNode I tag info p) (Selector_AddNode J I tag info p)),
     cr_DelNode = (\<lambda>tag. onCore (cr_DelNode I tag) (Selector_DelNode I tag)),
     cr_AddUsers = (\<lambda>tag us info. onCore (cr_AddUsers I tag us info) (Selector_AddUsers I tag us info)),
     cr_GetUserTrafficSlice = (\<lambda>tag reset. onCore (cr_GetUserTrafficSlice I tag reset)
       (Selector_GetUserTrafficSlice I tag reset)),
     cr_DelUsers = (\<lambda>us tag info. onCore (cr_DelUsers I us tag info) (Selector_DelUsers I us tag info)),
     cr_Protocols = protocolsOf I, cr_Type = typeOf I\<rparr>"

section \<open>The server\<close>

record ('c, 'b) Server =
  sv_conf :: Conf
  sv_controllers :: "Controller option list"
  sv_world :: "('c newCore option, 'b) World"

text \<open>What does not change between two events; the files and the panels do.\<close>

record 'c server_env =
  se_json :: json_env
  se_ctors :: "'c constructors"
  se_core :: "'c Core"
  se_parseIP :: "string \<Rightarrow> string"

abbreviation useCore :: "'c server_env \<Rightarrow> 'c newCore option Core" where
  "useCore S \<equiv> vCore (se_json S) (se_core S)"

text \<open>NewCore, Start, and the nodes: the part serverHandle and its reload share.\<close>

definition runServer ::
  "'c server_env \<Rightarrow> (NodeConfig \<Rightarrow> ctl_env) \<Rightarrow> Conf \<Rightarrow> ('c newCore option, 'b) World \<Rightarrow>
   (err \<times> ('c, 'b) Server) outcome" where
  "runServer S E c w =
     (let stopped = (\<lambda>e k. Ret (Some e, \<lparr>sv_conf = c, sv_controllers = [], sv_world = w\<lparr>wd_core := k\<rparr>\<rparr>)) in
      case NewCore (se_ctors S) (cf_CoresConfig c) of
        Panic \<Rightarrow> Panic
      | Ret (Inl e) \<Rightarrow> stopped e None
      | Ret (Inr k) \<Rightarrow> (case cr_Start (useCore S) (Some k) of
          Panic \<Rightarrow> Panic
        | Ret (Some e, k) \<Rightarrow> stopped e k
        | Ret (None, k) \<Rightarrow> (case startNodes E (se_parseIP S) (useCore S) (cf_NodeConfig c) (w\<lparr>wd_core := k\<rparr>) of
            Panic \<Rightarrow> Panic
          | Ret (e, cs, w) \<Rightarrow> Ret (e, \<lparr>sv_conf = c, sv_controllers = cs, sv_world = w\<rparr>))))"

text \<open>serverHandle up to the watch: an error ends the process.\<close>

definition serverHandle ::
  "'c server_env \<Rightarrow> world \<Rightarrow> (NodeConfig \<Rightarrow> ctl_env) \<Rightarrow> string \<Rightarrow> certFS \<Rightarrow> ('c, 'b) Server res outcome" where
  "serverHandle S W E path fs =
     (case LoadFromPath (se_json S) W path newConf of
        (c, Some e) \<Rightarrow> Ret (Inl e)
      | (c, None) \<Rightarrow> (case runServer S E c \<lparr>wd_core = None, wd_store = [], wd_limiters = [], wd_certs = fs\<rparr> of
          Panic \<Rightarrow> Panic
        | Ret (Some e, s) \<Rightarrow> Ret (Inl e)
        | Ret (None, s) \<Rightarrow> Ret (Inr s)))"

text \<open>The reload: the configuration is read anew, whatever comes of it, the nodes and the core are closed,
  and new ones started.\<close>

definition reload ::
  "'c server_env \<Rightarrow> world \<Rightarrow> (NodeConfig \<Rightarrow> ctl_env) \<Rightarrow> string \<Rightarrow> ('c, 'b) Server \<Rightarrow> (err \<times> ('c, 'b) Server) outcome" where
  "reload S W E path s =
     (let c = fst (LoadFromPath (se_json S) W path newConf) in
      case closeControllers (useCore S) (sv_controllers s) (sv_world s) of
        Panic \<Rightarrow> Panic
      | Ret w \<Rightarrow> (case cr_Close (useCore S) (wd_core w) of
          Panic \<Rightarrow> Panic
        | Ret (Some e, k) \<Rightarrow> Ret (Some e, \<lparr>sv_conf = c, sv_controllers = [], sv_world = w\<lparr>wd_core := k\<rparr>\<rparr>)
        | Ret (None, k) \<Rightarrow> runServer S E c (w\<lparr>wd_core := k\<rparr>)))"

section \<open>The contract of the user operations\<close>

fun some_uid :: "('c \<Rightarrow> string \<Rightarrow> string \<Rightarrow> int) \<Rightarrow> 'c newCore option \<Rightarrow> string \<Rightarrow> string \<Rightarrow> int" where
  "some_uid uid None tag x = 0"
| "some_uid uid (Some (OneCore c)) tag x = uid c tag x"
| "some_uid uid (Some (ManyCores s)) tag x = sel_uid uid s tag x"

lemma onCore_Ret:
  "onCore f g k = Ret (r, k') \<longleftrightarrow>
   (\<exists>c c'. k = Some (OneCore c) \<and> f c = Ret (r, c') \<and> k' = Some (OneCore c')) \<or>
   (\<exists>s s'. k = Some (ManyCores s) \<and> g s = Ret (r, s') \<and> k' = Some (ManyCores s'))"
  by (cases "(f, g, k)" rule: onCore.cases) (auto simp: put_Ret)

lemma vCore_simps [simp]:
  "cr_AddNode (vCore J I) tag info p = onCore (cr_AddNode I tag info p) (Selector_AddNode J I tag info p)"
  "cr_AddUsers (vCore J I) tag us info = onCore (cr_AddUsers I tag us info) (Selector_AddUsers I tag us info)"
  "cr_DelUsers (vCore J I) us tag info = onCore (cr_DelUsers I us tag info) (Selector_DelUsers I us tag info)"
  "cr_Close (vCore J I) = onCore (cr_Close I) (Selector_Close I)"
  "cr_Start (vCore J I) = onCore (cr_Start I) (Selector_Start I)"
  "cr_DelNode (vCore J I) tag = onCore (cr_DelNode I tag) (Selector_DelNode I tag)"
  by (simp_all add: vCore_def)

interpretation vc: core_table "some_uid any_uid" "vCore J (anyCore E)"
  for J :: json_env and E :: "('x, 'a, 'h, 'o, 'm, 'b, 'y, 'k, 'c, 's, 'w) cores_env"
proof
  show "some_uid any_uid c' tag x = (if x \<in> uuids us then idsOf us x else some_uid any_uid c tag x)"
    if "cr_AddUsers (vCore J (anyCore E)) tag us n c = Ret ((k, None), c')" "distinct (map ui_Uuid us)"
    for tag us n c k c' x
    using that by (auto simp: onCore_Ret ac.add_uid ac.sel.add_uid simp del: distinct_map)
  show "k = int (length us)" if "cr_AddUsers (vCore J (anyCore E)) tag us n c = Ret ((k, None), c')"
    for tag us n c k c'
    using that by (auto simp: onCore_Ret dest: ac.add_count ac.sel.add_count)
  show "some_uid any_uid c' tag x = (if x \<in> uuids us then 0 else some_uid any_uid c tag x)"
    if "cr_DelUsers (vCore J (anyCore E)) us tag n c = Ret (None, c')" for us tag n c c' x
    using that by (auto simp: onCore_Ret ac.del_uid ac.sel.del_uid)
qed

section \<open>The name of a node\<close>

text \<open>What is used of encoding/json for the options: whether a text decodes depends on the text alone; a
  text sets the name or leaves it alone, whatever it is decoded into; the empty text is an error that
  leaves everything alone.\<close>

definition options_law :: "json_env \<Rightarrow> bool" where
  "options_law J \<longleftrightarrow> (\<forall>b p q. snd (je_opt J b p) = snd (je_opt J b q)) \<and>
     (\<forall>b. (\<forall>p. op_Name (fst (je_opt J b p)) = op_Name p) \<or> (\<exists>n. \<forall>p. op_Name (fst (je_opt J b p)) = n)) \<and>
     (\<forall>p. fst (je_opt J [] p) = p \<and> snd (je_opt J [] p) \<noteq> None)"

text \<open>And for the configuration: a configuration that decodes without error consists of nodes that were each
  decoded by UnmarshalJSON without error.\<close>

definition decoded :: "json_env \<Rightarrow> NodeConfig \<Rightarrow> bool" where
  "decoded J n \<longleftrightarrow> (\<exists>W data n0. NodeConfig_UnmarshalJSON J W data n0 = (n, None))"

definition conf_law :: "json_env \<Rightarrow> bool" where
  "conf_law J \<longleftrightarrow> (\<forall>b cf. je_conf J b newConf = (cf, None) \<longrightarrow> (\<forall>n\<in>set (cf_NodeConfig cf). decoded J n))"

text \<open>Options that the selector can decode a second time, from the text they were decoded from, without
  changing their name.\<close>

definition redecodes :: "json_env \<Rightarrow> Options \<Rightarrow> bool" where
  "redecodes J p \<longleftrightarrow> (op_Core p = [] \<longrightarrow> op_RawOptions p = [] \<or>
     (\<forall>q. snd (je_opt J (op_RawOptions p) q) = None \<and>
       (op_Name q = op_Name p \<longrightarrow> op_Name (fst (je_opt J (op_RawOptions p) q)) = op_Name p)))"

lemma decoded_options:
  assumes "decoded J n"
  shows "\<exists>b. Options_UnmarshalJSON J b defaultOptions = (nc_Options n, None)"
proof -
  have fill: "\<exists>b. Options_UnmarshalJSON J b defaultOptions = (nc_Options n, None)"
    if "fillNode J rn data n0 = (n, None)" for rn data n0
  proof -
    define b where "b = (if rn_OptRaw rn \<noteq> [] then rn_OptRaw rn else data)"
    have "Options_UnmarshalJSON J b defaultOptions = (nc_Options n, None)"
      using that unfolding fillNode_def b_def [symmetric] by (auto split: prod.split_asm option.split_asm)
    then show ?thesis by blast
  qed
  obtain W data n0 where d: "NodeConfig_UnmarshalJSON J W data n0 = (n, None)"
    using assms by (auto simp: decoded_def)
  obtain rn e where rn: "je_raw J data \<lparr>rn_Include = [], rn_ApiRaw = [], rn_OptRaw = []\<rparr> = (rn, e)"
    by (metis surj_pair)
  have "\<exists>rn data. fillNode J rn data n0 = (n, None)"
    using d rn unfolding NodeConfig_UnmarshalJSON_def
    by (cases "rn_Include rn = []") (auto split: option.split_asm sum.split_asm prod.split_asm)
  then show ?thesis using fill by blast
qed

lemma Options_raw:
  assumes "Options_UnmarshalJSON J b p = (q, None)"
  shows "\<exists>r. je_opt J b p = (r, None) \<and> (op_Core q = [] \<longrightarrow> op_RawOptions q = b \<and> op_Name q = op_Name r)"
proof -
  obtain r e where r: "je_opt J b p = (r, e)"
    by (metis surj_pair)
  then have e: "e = None"
    using assms by (cases e) (simp_all add: Options_UnmarshalJSON_def)
  have "op_Core q = [] \<longrightarrow> q = r\<lparr>op_Core := [], op_RawOptions := b\<rparr>"
    using assms by (auto simp: Options_UnmarshalJSON_def r e split: if_split_asm prod.split_asm)
  then show ?thesis
    using r e by auto
qed

lemma redecodes_decoded:
  assumes "options_law J" "decoded J n"
  shows "redecodes J (nc_Options n)"
proof -
  obtain b where "Options_UnmarshalJSON J b defaultOptions = (nc_Options n, None)"
    using decoded_options [OF assms(2)] by blast
  from Options_raw [OF this] obtain p where p: "je_opt J b defaultOptions = (p, None)"
    "op_Core (nc_Options n) = [] \<longrightarrow> op_RawOptions (nc_Options n) = b \<and> op_Name (nc_Options n) = op_Name p"
    by blast
  have "snd (je_opt J b q) = None" for q
    using assms(1) p(1) unfolding options_law_def by (metis snd_conv)
  moreover have "op_Name (fst (je_opt J b q)) = op_Name p" if "op_Name q = op_Name p" for q
    using assms(1) p(1) that unfolding options_law_def by (metis fst_conv)
  ultimately show ?thesis
    using p(2) by (simp add: redecodes_def)
qed

text \<open>The cores do not change the options at all, so adding a node keeps the name and that property.\<close>

definition keeps_options :: "json_env \<Rightarrow> 'c Core \<Rightarrow> bool" where
  "keeps_options J I \<longleftrightarrow> (\<forall>tag n p c e p' c'. redecodes J p \<longrightarrow> cr_AddNode I tag n p c = Ret ((e, p'), c') \<longrightarrow>
     op_Name p' = op_Name p \<and> redecodes J p')"

lemma anyCore_keeps_options: "keeps_options J (anyCore E)"
proof -
  have "p' = p" if "any_AddNode E tag n p c = Ret ((e, p'), c')" for tag n p c e p' c'
    using that by (cases c) (auto simp: put_Ret split: outcome.split_asm prod.split_asm)
  then show ?thesis
    unfolding keeps_options_def anyCore_def by simp blast
qed

lemma completeOptions_redecodes:
  assumes "options_law J" "redecodes J p" "completeOptions J t p = (q, e)"
  shows "op_Name q = op_Name p \<and> redecodes J q"
proof (cases "op_Core p = []")
  case False
  then show ?thesis using assms(2,3) by (simp add: completeOptions_def)
next
  case True
  let ?p = "p\<lparr>op_Core := t\<rparr>" and ?b = "op_RawOptions p"
  obtain r x where r: "je_opt J ?b ?p = (r, x)"
    by (metis surj_pair)
  show ?thesis
  proof (cases "?b = []")
    case True
    have "fst (je_opt J [] ?p) = ?p" "snd (je_opt J [] ?p) \<noteq> None"
      using assms(1) unfolding options_law_def by blast+
    then have "r = ?p" "x \<noteq> None"
      using r by (simp_all add: True)
    then show ?thesis
      using assms(3) r \<open>op_Core p = []\<close> True
      by (auto simp: completeOptions_def Options_UnmarshalJSON_def redecodes_def)
  next
    case False
    have "op_Name ?p = op_Name p"
      by simp
    then have "x = None" "op_Name r = op_Name p"
      using assms(2) \<open>op_Core p = []\<close> False r unfolding redecodes_def by (metis fst_conv snd_conv)+
    then show ?thesis
      using assms(3) r \<open>op_Core p = []\<close>
      by (auto simp: completeOptions_def Options_UnmarshalJSON_def redecodes_def
          split: if_split_asm prod.split_asm option.split_asm)
  qed
qed

lemma selector_keeps_options:
  assumes "keeps_options J I" "options_law J"
  shows "keeps_options J (selectorCore J I)"
  unfolding keeps_options_def
proof (intro allI impI)
  fix tag n p c e p' c'
  assume p: "redecodes J p" and r: "cr_AddNode (selectorCore J I) tag n p c = Ret ((e, p'), c')"
  show "op_Name p' = op_Name p \<and> redecodes J p'"
  proof (cases "selectCore I n p (sl_cores c)")
    case None
    then show ?thesis using p r by (simp add: Selector_AddNode_def)
  next
    case (Some x)
    obtain m core where x: "x = (m, core)"
      by (cases x)
    obtain q f where q: "completeOptions J (cr_Type I core) p = (q, f)"
      by (metis surj_pair)
    note k = completeOptions_redecodes [OF assms(2) p q]
    show ?thesis
    proof (cases f)
      case (Some y)
      then show ?thesis using k r q x \<open>selectCore I n p (sl_cores c) = Some x\<close> by (simp add: Selector_AddNode_def)
    next
      case None
      obtain d core' where "cr_AddNode I tag n q core = Ret ((d, p'), core')"
        using r q x None \<open>selectCore I n p (sl_cores c) = Some x\<close>
        by (auto simp: Selector_AddNode_def split: outcome.split_asm prod.split_asm option.split_asm)
      then show ?thesis
        using assms(1) k unfolding keeps_options_def by metis
    qed
  qed
qed

lemma vCore_keeps_options:
  assumes "options_law J"
  shows "keeps_options J (vCore J (anyCore E))"
  using anyCore_keeps_options [of J E] selector_keeps_options [OF anyCore_keeps_options assms, of E]
  unfolding keeps_options_def selectorCore_simps vCore_simps onCore_Ret by blast

text \<open>A file that is loaded in such a state that no half-decoded node carries raw options; a file that
  decodes without error always is.\<close>

definition soundLoad :: "json_env \<Rightarrow> world \<Rightarrow> string \<Rightarrow> bool" where
  "soundLoad J W path \<longleftrightarrow> (case LoadFromPath J W path newConf of (cf, e) \<Rightarrow>
     e = None \<or> (\<forall>n\<in>set (cf_NodeConfig cf). decoded J n \<or> op_RawOptions (nc_Options n) = []))"

lemma soundLoad_redecodes:
  assumes "options_law J" "conf_law J" "soundLoad J W path"
    and "n \<in> set (cf_NodeConfig (fst (LoadFromPath J W path newConf)))"
  shows "redecodes J (nc_Options n)"
proof -
  obtain cf e where l: "LoadFromPath J W path newConf = (cf, e)"
    by (metis surj_pair)
  have "decoded J n \<or> op_RawOptions (nc_Options n) = []"
  proof (cases e)
    case None
    then obtain b where "je_conf J b newConf = (cf, None)"
      using l by (auto simp: LoadFromPath_def split: sum.split_asm prod.split_asm option.split_asm)
    then show ?thesis
      using assms(2,4) l unfolding conf_law_def by auto
  next
    case (Some x)
    then show ?thesis using assms(3,4) l by (simp add: soundLoad_def)
  qed
  then show ?thesis
    using redecodes_decoded [OF assms(1)] by (auto simp: redecodes_def)
qed

end
