(* ===== verification/Server_Sync.thy ===== *)
theory Server_Sync
  imports Server
begin

text \<open>
  What the server guarantees over its whole life: which limiters are registered, what a reload sets up,
  and what a reload that went wrong leads to.
\<close>

section \<open>Lemmas: what the client keeps\<close>

text \<open>The tag built from a node is determined by the client: its polls give nodes of its own type and id,
  and never change what it was made for.\<close>

definition clientTag :: "Client \<Rightarrow> string" where
  "clientTag cl = ''['' @ cl_APIHost cl @ '']-'' @ cl_NodeType cl @ '':'' @ itoa (cl_NodeId cl)"

definition sameClient :: "Client \<Rightarrow> Client \<Rightarrow> bool" where
  "sameClient cl cl' \<longleftrightarrow> cl_APIHost cl' = cl_APIHost cl \<and> cl_NodeType cl' = cl_NodeType cl \<and> cl_NodeId cl' = cl_NodeId cl"

lemma sameClient_tag: "sameClient cl cl' \<Longrightarrow> clientTag cl' = clientTag cl"
  by (simp add: sameClient_def clientTag_def)

lemma sameClient_trans: "sameClient cl cl1 \<Longrightarrow> sameClient cl1 cl2 \<Longrightarrow> sameClient cl cl2"
  by (simp add: sameClient_def)

lemma decodeNode_ids:
  "decodeNode E t b n = Ret (Inr (m, cm)) \<Longrightarrow> ni_Type m = ni_Type n \<and> ni_Id m = ni_Id n"
  by (auto simp: decodeNode_def Let_def split: if_split_asm sum.split_asm)

lemma finishNode_ids:
  "finishNode n cm = Ret m \<Longrightarrow> ni_Type m = ni_Type n \<and> ni_Id m = ni_Id n"
  by (auto simp: finishNode_def clearNode_def split: outcome.splits option.splits)

lemma GetNodeInfo_keeps:
  assumes "GetNodeInfo E server cl = Ret ((n, e), cl')"
  shows "sameClient cl cl'" "n = Some m \<Longrightarrow> ni_Type m = cl_NodeType cl \<and> ni_Id m = cl_NodeId cl"
proof -
  show "sameClient cl cl'"
    using assms
    by (auto simp: GetNodeInfo_def sameClient_def Let_def split: prod.split_asm option.split_asm if_split_asm
        outcome.split_asm sum.split_asm)
  assume m: "n = Some m"
  then obtain k cm t b where "decodeNode E t b (emptyNode (cl_NodeId cl) (cl_NodeType cl)) = Ret (Inr (k, cm))"
    "finishNode k cm = Ret m"
    using assms
    by (auto simp: GetNodeInfo_def Let_def split: prod.split_asm option.split_asm if_split_asm
        outcome.split_asm sum.split_asm)
  then show "ni_Type m = cl_NodeType cl \<and> ni_Id m = cl_NodeId cl"
    using decodeNode_ids finishNode_ids by (fastforce simp: emptyNode_def)
qed

lemma GetUserList_keeps: "GetUserList E server cl = Ret (r, cl') \<Longrightarrow> sameClient cl cl'"
  by (auto simp: GetUserList_def sameClient_def Let_def split: prod.split_asm option.split_asm if_split_asm
      outcome.split_asm sum.split_asm)

lemma GetUserAlive_keeps: "GetUserAlive E server cl = Ret (r, cl') \<Longrightarrow> sameClient cl cl'"
  by (auto simp: GetUserAlive_def sameClient_def Let_def split: prod.split_asm option.split_asm if_split_asm
      sum.split_asm)

section \<open>Lemmas: what an operation of a controller does to the limiters\<close>

text \<open>Either nothing is registered or removed and the controller keeps tag and limiter, or it gets a new
  limiter, the only entry under its tag; the other limiters are what they were.\<close>

definition sameLimiters :: "('c, 'b) World \<Rightarrow> ('c, 'b) World \<Rightarrow> bool" where
  "sameLimiters w w' \<longleftrightarrow> wd_limiters w' = wd_limiters w \<and> length (wd_store w') = length (wd_store w)"

definition newLimiter :: "string \<Rightarrow> nat \<Rightarrow> ('c, 'b) World \<Rightarrow> ('c, 'b) World \<Rightarrow> bool" where
  "newLimiter tag a w w' \<longleftrightarrow> a = length (wd_store w) \<and> length (wd_store w') = Suc a \<and>
     map_of (wd_limiters w') = (map_of (wd_limiters w))(tag \<mapsto> a)"

lemma updateRule_same: "updateRule compile rules a w = Ret (e, w') \<Longrightarrow> sameLimiters w w'"
  by (auto simp: updateRule_def sameLimiters_def updateLimiter_def split: outcome.split_asm)

lemma updateRule_cells: "updateRule compile rules a w = Ret (e, w') \<Longrightarrow> \<exists>l. wd_store w' = (wd_store w)[a := l]"
  by (auto simp: updateRule_def updateLimiter_def split: outcome.split_asm)

lemma startTasks_keeps:
  "startTasks node c = Ret c' \<Longrightarrow> ct_tag c' = ct_tag c \<and> ct_limiter c' = ct_limiter c \<and>
     ct_apiClient c' = ct_apiClient c \<and> ct_Options c' = ct_Options c"
  by (auto simp: startTasks_def Let_def split: if_split_asm option.split_asm)

lemma installNode_keeps:
  assumes "installNode E I node c w = Ret (e, c', w')"
  shows "ct_tag c' = ct_tag c \<and> ct_limiter c' = ct_limiter c \<and> ct_apiClient c' = ct_apiClient c \<and>
    wd_store w' = wd_store w \<and> wd_limiters w' = wd_limiters w"
  using assms unfolding installNode_def
  by (auto dest!: plain_call node_call valued_call last_call startTasks_keeps)

lemma installNode_options:
  assumes "installNode E I node c w = Ret (e, c', w')" "keeps_options J I" "redecodes J (ct_Options c)"
  shows "op_Name (ct_Options c') = op_Name (ct_Options c) \<and> redecodes J (ct_Options c')"
proof -
  have p: "op_Name p = op_Name (ct_Options c) \<and> redecodes J p"
    if "cr_AddNode I (ct_tag c) node (ct_Options c) k = Ret ((x, p), k')" for p x k k'
    using that assms(2,3) unfolding keeps_options_def by blast
  show ?thesis
    using assms(1,3) unfolding installNode_def
    by (auto dest!: plain_call node_call valued_call last_call startTasks_keeps dest: p)
qed

lemma addLimiter_new:
  assumes "addLimiter tag lc us alive w = (a, w')"
  shows "newLimiter tag a w w'" "wd_store w' = wd_store w @ [wd_store w' ! a]"
  using assms by (auto simp: addLimiter_def newLimiter_def Let_def map_of_mstore)

text \<open>The tag of a controller that has a limiter is the one its options and its client ask for, and its
  options can be decoded again.\<close>

definition tagged :: "json_env \<Rightarrow> Controller \<Rightarrow> bool" where
  "tagged J c \<longleftrightarrow> redecodes J (ct_Options c) \<and>
     (ct_limiter c \<noteq> None \<longrightarrow> op_Name (ct_Options c) = [] \<longrightarrow> ct_tag c = clientTag (ct_apiClient c))"

lemma buildNodeTag_client:
  "ni_Type n = cl_NodeType cl \<Longrightarrow> ni_Id n = cl_NodeId cl \<Longrightarrow> sameClient cl (ct_apiClient c) \<Longrightarrow>
   buildNodeTag c n = clientTag (ct_apiClient c)"
  by (simp add: buildNodeTag_def clientTag_def sameClient_def)

lemma Controller_Start_limiter:
  assumes "Controller_Start E I c w = Ret (e, c', w')" "ct_limiter c = None"
  shows "(keeps_options J I \<and> redecodes J (ct_Options c) \<longrightarrow> tagged J c') \<and> (ct_limiter c' = None \<and> wd_store w' = wd_store w \<and> wd_limiters w' = wd_limiters w \<or>
    (\<exists>a. ct_limiter c' = Some a \<and> newLimiter (ct_tag c') a w w' \<and> take a (wd_store w') = wd_store w))"
proof (cases "\<exists>x cl. GetNodeInfo (cv_node E) (cv_server E) (ct_apiClient c) = Ret ((x, None), cl)")
  case False
  then show ?thesis
    using assms by (auto simp: Controller_Start_def tagged_def dest!: valued_call)
next
  case True
  then obtain n cl1 where n: "GetNodeInfo (cv_node E) (cv_server E) (ct_apiClient c) = Ret ((n, None), cl1)"
    by blast
  note r1 = assms(1) [unfolded Controller_Start_def n, simplified]
  obtain u ue cl2 where u: "GetUserList (cv_user E) (cv_server E) cl1 = Ret ((u, ue), cl2)"
    using valued_call [OF r1] by auto
  show ?thesis
  proof (cases "ue = None \<and> (case u of None \<Rightarrow> [] | Some us \<Rightarrow> us) \<noteq> []")
    case False
    then show ?thesis
      using r1 u assms(2) by (cases ue) (auto simp: Let_def tagged_def)
  next
    case True
    define us where "us = (case u of None \<Rightarrow> [] | Some us \<Rightarrow> us)"
    have us: "ue = None" "us \<noteq> []"
      using True by (simp_all add: us_def)
    note r2 = r1 [unfolded u us(1), simplified, folded us_def, unfolded Let_def if_not_P [OF us(2)]]
    obtain alive cl3 where al: "GetUserAlive (cv_user E) (cv_server E) cl2 = Ret ((alive, None), cl3)"
      using valued_call [OF r2] GetUserAlive_no_error by blast
    note r3 = r2 [unfolded al, simplified]
    obtain node where node: "n = Some node"
      using r3 by (cases n) auto
    have cl: "sameClient (ct_apiClient c) cl3"
      using GetNodeInfo_keeps(1) [OF n] GetUserList_keeps [OF u] GetUserAlive_keeps [OF al]
      by (blast intro: sameClient_trans)
    define c1 where "c1 = c\<lparr>ct_apiClient := cl2, ct_userList := us, ct_apiClient := cl3, ct_aliveMap := alive\<rparr>"
    define tag where "tag = (if op_Name (ct_Options c1) = [] then buildNodeTag c1 node else op_Name (ct_Options c1))"
    obtain a w1 where add: "addLimiter tag (op_LimitConfig (ct_Options c1)) us alive w = (a, w1)"
      by (metis surj_pair)
    note r4 = r3 [unfolded node option.case, folded c1_def, folded tag_def, unfolded add prod.case]
    obtain e2 w2 where rule: "updateRule (cv_compile E) (ni_Rules node) a w1 = Ret (e2, w2)"
      using plain_call [OF r4] by blast
    have e2: "e2 = None"
      using updateRule_parts(1) [OF rule addLimiter_parts(2) [OF add]] .
    note inst = r4 [unfolded rule e2, simplified]
    note k = installNode_keeps [OF inst] and k2 = installNode_options [OF inst]
    have "tag = clientTag cl3" if "op_Name (ct_Options c1) = []"
      using that buildNodeTag_client [of node "ct_apiClient c" c1] GetNodeInfo_keeps(2) [OF n node] cl
      by (simp add: tag_def c1_def)
    then have "keeps_options J I \<and> redecodes J (ct_Options c) \<longrightarrow> tagged J c'"
      using k k2 [of J] by (simp add: tagged_def c1_def)
    moreover have "newLimiter tag a w w'"
      using addLimiter_new(1) [OF add] updateRule_same [OF rule] k by (simp add: newLimiter_def sameLimiters_def)
    moreover have "take a (wd_store w') = wd_store w"
      using addLimiter_new [OF add] updateRule_cells [OF rule] k
      by (auto simp: newLimiter_def) (metis append_eq_conv_conj take_update_cancel order_refl)
    ultimately show ?thesis
      using k by simp
  qed
qed

lemma sameLimiters_refl [simp]: "sameLimiters w w"
  by (simp add: sameLimiters_def)

lemma sameLimiters_trans: "sameLimiters w w1 \<Longrightarrow> sameLimiters w1 w2 \<Longrightarrow> sameLimiters w w2"
  by (simp add: sameLimiters_def)

lemma sameLimiters_core [simp]:
  "sameLimiters w (w'\<lparr>wd_core := k\<rparr>) = sameLimiters w w'" "sameLimiters w (w'\<lparr>wd_certs := s\<rparr>) = sameLimiters w w'"
  "sameLimiters (w\<lparr>wd_core := k\<rparr>) w' = sameLimiters w w'"
  "sameLimiters w (updateLimiter a f w') = sameLimiters w w'"
  by (simp_all add: sameLimiters_def)

lemma newLimiter_same: "newLimiter tag a w w1 \<Longrightarrow> sameLimiters w1 w2 \<Longrightarrow> newLimiter tag a w w2"
  by (simp add: newLimiter_def sameLimiters_def)

text \<open>What identifies the limiter of a controller.\<close>

definition sameOwner :: "json_env \<Rightarrow> Controller \<Rightarrow> Controller \<Rightarrow> bool" where
  "sameOwner J c c' \<longleftrightarrow> ct_tag c' = ct_tag c \<and> ct_limiter c' = ct_limiter c \<and>
     sameClient (ct_apiClient c) (ct_apiClient c') \<and> op_Name (ct_Options c') = op_Name (ct_Options c) \<and>
     (redecodes J (ct_Options c) \<longrightarrow> redecodes J (ct_Options c'))"

lemma sameOwner_refl [simp]: "sameOwner J c c"
  by (simp add: sameOwner_def sameClient_def)

lemma sameOwner_trans: "sameOwner J c c1 \<Longrightarrow> sameOwner J c1 c2 \<Longrightarrow> sameOwner J c c2"
  using sameClient_trans by (auto simp: sameOwner_def)

lemma sameOwner_tagged: "sameOwner J c c' \<Longrightarrow> tagged J c \<Longrightarrow> tagged J c'"
  using sameClient_tag [of "ct_apiClient c" "ct_apiClient c'"] by (auto simp: sameOwner_def tagged_def)

lemma sameOwner_fields [simp]:
  "sameOwner J c (c'\<lparr>ct_userList := us\<rparr>) = sameOwner J c c'" "sameOwner J c (c'\<lparr>ct_traffic := t\<rparr>) = sameOwner J c c'"
  "sameOwner J c (c'\<lparr>ct_info := n\<rparr>) = sameOwner J c c'"
  "sameOwner J c (c'\<lparr>ct_nodeInfoMonitorPeriodic := p\<rparr>) = sameOwner J c c'"
  "sameOwner J c (c'\<lparr>ct_userReportPeriodic := p\<rparr>) = sameOwner J c c'"
  "sameOwner J c (c'\<lparr>ct_renewCertPeriodic := p\<rparr>) = sameOwner J c c'"
  by (simp_all add: sameOwner_def)

lemma sameOwner_client: "sameOwner J c (c\<lparr>ct_apiClient := cl\<rparr>) = sameClient (ct_apiClient c) cl"
  by (simp add: sameOwner_def)

lemma sameOwner_options:
  assumes "op_Name p = op_Name (ct_Options c)" "redecodes J p"
  shows "sameOwner J c (c\<lparr>ct_Options := p\<rparr>)"
  using assms by (simp add: sameOwner_def sameClient_def)

lemma setAlive_same: "setAlive m c w = Ret w' \<Longrightarrow> sameLimiters w w'"
  by (auto simp: setAlive_def split: option.split_asm)

lemma updateUsers_same: "updateUsers I us info c w = Ret (c', w') \<Longrightarrow> sameOwner J c c' \<and> sameLimiters w w'"
  unfolding updateUsers_def Let_def
  by (auto dest!: plain_call valued_call split: prod.split_asm if_split_asm option.split_asm)

lemma checkIntervals_same: "checkIntervals n c = Ret c' \<Longrightarrow> sameOwner J c c'"
  by (auto simp: checkIntervals_def split: option.split_asm outcome.split_asm)

text \<open>The part of a reload behind the limiter.\<close>

lemma reload_rest:
  assumes "(case cr_AddNode I (ct_tag c) n (ct_Options c) (wd_core w) of
      Panic \<Rightarrow> Panic
    | Ret ((Some e, p), core) \<Rightarrow> Panic
    | Ret ((None, p), core) \<Rightarrow>
        (case cr_AddUsers I (ct_tag c) (ct_userList c) n core of
           Panic \<Rightarrow> Panic
         | Ret ((_, Some e), core) \<Rightarrow> Ret (c\<lparr>ct_Options := p\<rparr>, w\<lparr>wd_certs := s, wd_core := core\<rparr>)
         | Ret ((_, None), core) \<Rightarrow>
             (case checkIntervals n (c\<lparr>ct_Options := p\<rparr>) of
                Panic \<Rightarrow> Panic
              | Ret c \<Rightarrow> Ret (c, w\<lparr>wd_certs := s, wd_core := core\<rparr>)))) = Ret (c', w')" "keeps_options J I" "redecodes J (ct_Options c)"
  shows "sameOwner J c c' \<and> sameLimiters w w'"
proof -
  have p: "op_Name p = op_Name (ct_Options c) \<and> redecodes J p"
    if "cr_AddNode I (ct_tag c) n (ct_Options c) (wd_core w) = Ret ((e, p), core)" for e p core
    using that assms(2,3) unfolding keeps_options_def by blast
  have o1: "sameOwner J c (c\<lparr>ct_Options := q\<rparr>)" if "op_Name q = op_Name (ct_Options c) \<and> redecodes J q" for q
    using sameOwner_options that by blast
  have o2: "sameOwner J c c'" if "op_Name q = op_Name (ct_Options c) \<and> redecodes J q" "sameOwner J (c\<lparr>ct_Options := q\<rparr>) c'" for q
    using sameOwner_trans [OF o1 [OF that(1)] that(2)] .
  show ?thesis
    using assms(1) p
    by (auto dest!: node_call valued_call last_call checkIntervals_same [where J = J] intro: o1 o2)
qed

lemma reloadNode_limiter:
  assumes "reloadNode E I n newU newA c w = Ret (c', w')" "keeps_options J I" "tagged J c"
    and "ni_Type n = cl_NodeType (ct_apiClient c)" "ni_Id n = cl_NodeId (ct_apiClient c)"
  shows "tagged J c' \<and> (sameOwner J c c' \<and> sameLimiters w w' \<or>
    (\<exists>a. ct_limiter c' = Some a \<and> newLimiter (ct_tag c') a w w' \<and> (ct_limiter c \<noteq> None \<longrightarrow> ct_tag c' = ct_tag c)))"
proof -
  define c0 where "c0 = c\<lparr>ct_info := Some n, ct_userList := (case newU of None \<Rightarrow> ct_userList c | Some us \<Rightarrow> us), ct_traffic := []\<rparr>"
  have so: "sameOwner J c c0"
    by (simp add: c0_def)
  note r0 = assms(1) [unfolded reloadNode_def Let_def, folded c0_def]
  obtain core where d: "cr_DelNode I (ct_tag c0) (wd_core w) = Ret (None, core)"
    using plain_call [OF r0] by auto
  note r1 = r0 [unfolded d outcome.case prod.case option.case]
  obtain c1 w1 where l: "reloadLimiter n newA c0 (w\<lparr>wd_core := core\<rparr>) = (c1, w1)"
    by (metis surj_pair)
  note r2 = r1 [unfolded l prod.case]
  obtain w2 where w2: "setAlive newA c1 w1 = Ret w2"
    using sure_call [OF r2] by blast
  note r3 = r2 [unfolded w2 outcome.case]
  obtain a where a: "ct_limiter c1 = Some a"
    using r3 by (cases "ct_limiter c1") auto
  note r4 = r3 [unfolded a option.case]
  obtain e w3 where w3: "updateRule (cv_compile E) (ni_Rules n) a w2 = Ret (e, w3)"
    using plain_call [OF r4] by blast
  note r5 = r4 [unfolded w3 outcome.case prod.case]
  have c1: "redecodes J (ct_Options c1)"
    using l assms(3) by (auto simp: reloadLimiter_def tagged_def c0_def Let_def split: if_split_asm prod.split_asm)
  have s13: "sameLimiters w1 w3"
    using setAlive_same [OF w2] updateRule_same [OF w3] by (rule sameLimiters_trans)
  have rest: "sameOwner J c1 c' \<and> sameLimiters w3 w'"
  proof (cases e)
    case (Some x)
    then show ?thesis using r5 by simp
  next
    case None
    note r6 = r5 [unfolded None option.case]
    from plain_call [OF r6] show ?thesis
    proof (elim disjE exE conjE)
      fix s
      assume "Ret (c1, w3\<lparr>wd_certs := s\<rparr>) = Ret (c', w')"
      then show ?thesis by auto
    next
      fix s
      show ?thesis if r7: "(case cr_AddNode I (ct_tag c1) n (ct_Options c1) (wd_core w3) of
          Panic \<Rightarrow> Panic
        | Ret ((Some e, p), core) \<Rightarrow> Panic
        | Ret ((None, p), core) \<Rightarrow>
            (case cr_AddUsers I (ct_tag c1) (ct_userList c1) n core of
               Panic \<Rightarrow> Panic
             | Ret ((_, Some e), core) \<Rightarrow> Ret (c1\<lparr>ct_Options := p\<rparr>, w3\<lparr>wd_certs := s, wd_core := core\<rparr>)
             | Ret ((_, None), core) \<Rightarrow>
                 (case checkIntervals n (c1\<lparr>ct_Options := p\<rparr>) of
                    Panic \<Rightarrow> Panic
                  | Ret c \<Rightarrow> Ret (c, w3\<lparr>wd_certs := s, wd_core := core\<rparr>)))) = Ret (c', w')"
        by (rule reload_rest [OF r7 assms(2) c1])
    qed
  qed
  show ?thesis
  proof (cases "op_Name (ct_Options c) = []")
    case False
    then have "c1 = c0" "w1 = w\<lparr>wd_core := core\<rparr>"
      using l by (simp_all add: reloadLimiter_def c0_def)
    then have "sameOwner J c c'" "sameLimiters w w'"
      using so rest s13 by (auto intro: sameOwner_trans sameLimiters_trans)
    then show ?thesis
      using sameOwner_tagged assms(3) by blast
  next
    case True
    have True0: "op_Name (ct_Options c0) = []"
      using True by (simp add: c0_def)
    have t: "buildNodeTag c0 n = clientTag (ct_apiClient c)"
      using buildNodeTag_client [of n "ct_apiClient c" c0] assms(4,5) so by (simp add: sameOwner_def c0_def)
    obtain b v where add: "addLimiter (clientTag (ct_apiClient c)) (op_LimitConfig (ct_Options c0)) (ct_userList c0) newA
        (deleteLimiter (clientTag (ct_apiClient c)) (w\<lparr>wd_core := core\<rparr>)) = (b, v)"
      by (metis surj_pair)
    have c1': "c1 = c0\<lparr>ct_tag := clientTag (ct_apiClient c), ct_limiter := Some b\<rparr>" "w1 = v"
      using l add True0 by (simp_all add: reloadLimiter_def t Let_def)
    have "newLimiter (clientTag (ct_apiClient c)) b w v"
      using addLimiter_new(1) [OF add] by (simp add: newLimiter_def deleteLimiter_def map_of_mdelete fun_eq_iff)
    note fresh = this
    have k: "ct_limiter c' = Some b" "ct_tag c' = clientTag (ct_apiClient c)" "sameClient (ct_apiClient c) (ct_apiClient c')"
      using rest by (simp_all add: sameOwner_def c1' c0_def)
    have "newLimiter (ct_tag c') b w w'"
      using newLimiter_same [OF fresh] sameLimiters_trans [OF s13 conjunct2 [OF rest]] by (simp add: c1'(2) k(2))
    moreover have "tagged J c'"
      using sameClient_tag [OF k(3)] k rest c1 by (simp add: tagged_def sameOwner_def)
    moreover note k
    moreover have "ct_limiter c \<noteq> None \<Longrightarrow> ct_tag c = clientTag (ct_apiClient c)"
      using assms(3) True by (simp add: tagged_def)
    ultimately show ?thesis
      by auto
  qed
qed

lemma poll_limiter:
  assumes "nodeInfoMonitor E I c w = Ret (c', w')" "keeps_options J I" "tagged J c"
  shows "tagged J c' \<and> (sameOwner J c c' \<and> sameLimiters w w' \<or>
    (\<exists>a. ct_limiter c' = Some a \<and> newLimiter (ct_tag c') a w w' \<and> (ct_limiter c \<noteq> None \<longrightarrow> ct_tag c' = ct_tag c)))"
proof -
  have kept: ?thesis if "sameOwner J c c'" "sameLimiters w w'"
    using that sameOwner_tagged assms(3) by blast
  obtain n e1 cl1 where n: "GetNodeInfo (cv_node E) (cv_server E) (ct_apiClient c) = Ret ((n, e1), cl1)"
    using valued_call [OF assms(1) [unfolded nodeInfoMonitor_def]] by blast
  note s1 = GetNodeInfo_keeps [OF n]
  note r1 = assms(1) [unfolded nodeInfoMonitor_def n outcome.case prod.case]
  show ?thesis
  proof (cases e1)
    case (Some e)
    then show ?thesis
      using r1 s1(1) by (intro kept) (auto simp: sameOwner_client)
  next
    case None
    note r2 = r1 [unfolded None option.case]
    obtain u e2 cl2 where u: "GetUserList (cv_user E) (cv_server E) cl1 = Ret ((u, e2), cl2)"
      using valued_call [OF r2] by blast
    note s2 = sameClient_trans [OF s1(1) GetUserList_keeps [OF u]]
    note r3 = r2 [unfolded u outcome.case prod.case]
    show ?thesis
    proof (cases e2)
      case (Some e)
      then show ?thesis
        using r3 s2 by (intro kept) (auto simp: sameOwner_client)
    next
      case None
      note r4 = r3 [unfolded None option.case]
      obtain al cl3 where al: "GetUserAlive (cv_user E) (cv_server E) cl2 = Ret ((al, None), cl3)"
        using valued_call [OF r4] GetUserAlive_no_error by blast
      note s3 = sameClient_trans [OF s2 GetUserAlive_keeps [OF al]]
      note r5 = r4 [unfolded al outcome.case prod.case option.case Let_def]
      let ?c = "c\<lparr>ct_apiClient := cl3\<rparr>"
      have o: "sameOwner J c ?c"
        using s3 by (simp add: sameOwner_client)
      show ?thesis
      proof (cases n)
        case (Some m)
        note r6 = r5 [unfolded Some option.case]
        have "ni_Type m = cl_NodeType (ct_apiClient ?c)" "ni_Id m = cl_NodeId (ct_apiClient ?c)"
          using s1(2) [OF Some] s3 by (simp_all add: sameClient_def)
        note k = reloadNode_limiter [OF r6 assms(2) sameOwner_tagged [OF o assms(3)] this]
        have "sameOwner J c c'" if "sameOwner J ?c c'"
          using sameOwner_trans [OF o that] .
        then show ?thesis
          using k by auto
      next
        case None
        note r6 = r5 [unfolded None option.case]
        obtain w1 where w1: "setAlive al ?c w = Ret w1"
          using sure_call [OF r6] by blast
        note r7 = r6 [unfolded w1 outcome.case]
        show ?thesis
        proof (cases "(case u of None \<Rightarrow> [] | Some us \<Rightarrow> us) = []")
          case True
          then show ?thesis
            using r7 o setAlive_same [OF w1] by (intro kept) auto
        next
          case False
          then obtain info where "updateUsers I (case u of None \<Rightarrow> [] | Some us \<Rightarrow> us) info ?c w1 = Ret (c', w')"
            using r7 by (cases "ct_info c") auto
          from updateUsers_same [OF this] show ?thesis
            using sameOwner_trans [OF o] sameLimiters_trans [OF setAlive_same [OF w1]] by (intro kept) blast+
        qed
      qed
    qed
  qed
qed

lemma report_same: "reportUserTrafficTask E I c w = Ret (bs, w') \<Longrightarrow> sameLimiters w w'"
  by (auto simp: reportUserTrafficTask_def Let_def split: outcome.split_asm prod.split_asm option.split_asm if_split_asm)

lemma SpeedChecker_same: "SpeedChecker E c w = Ret (c', w') \<Longrightarrow> sameOwner J c c' \<and> sameLimiters w w'"
  by (auto simp: SpeedChecker_def split: option.split_asm if_split_asm prod.split_asm)

lemma Controller_Close_limiters:
  "Controller_Close I c w = Ret (e, c', w') \<Longrightarrow>
   map_of (wd_limiters w') = (map_of (wd_limiters w))(ct_tag c := None) \<and> wd_store w' = wd_store w"
  unfolding Controller_Close_def Let_def
  by (auto dest!: sure_call plain_call simp: deleteLimiter_def map_of_mdelete fun_eq_iff)

section \<open>Lemmas: the limiters of the server\<close>

text \<open>Every registered limiter is that of a controller of the list, under the controller's tag.\<close>

definition owned :: "Controller option list \<Rightarrow> ('c, 'b) World \<Rightarrow> bool" where
  "owned cs w \<longleftrightarrow> (\<forall>t a. map_of (wd_limiters w) t = Some a \<longrightarrow> a < length (wd_store w) \<and>
     (\<exists>c. Some c \<in> set cs \<and> ct_tag c = t \<and> ct_limiter c = Some a))"

definition server_inv :: "json_env \<Rightarrow> ('c, 'b) Server \<Rightarrow> bool" where
  "server_inv J s \<longleftrightarrow> owned (sv_controllers s) (sv_world s) \<and> (\<forall>c. Some c \<in> set (sv_controllers s) \<longrightarrow> tagged J c)"

lemma owned_mono: "owned cs w \<Longrightarrow> sameLimiters w w' \<Longrightarrow> set cs \<subseteq> set cs' \<Longrightarrow> owned cs' w'"
  unfolding owned_def sameLimiters_def by (metis subsetD)

lemma owned_fresh:
  assumes "owned cs w" "newLimiter (ct_tag c) a w w'" "ct_limiter c = Some a"
    and "Some c \<in> set cs'" "\<And>d. Some d \<in> set cs \<Longrightarrow> Some d \<in> set cs' \<or> ct_limiter d = None \<or> ct_tag d = ct_tag c"
  shows "owned cs' w'"
  unfolding owned_def
proof (intro allI impI)
  fix t b
  assume at: "map_of (wd_limiters w') t = Some b"
  show "b < length (wd_store w') \<and> (\<exists>c. Some c \<in> set cs' \<and> ct_tag c = t \<and> ct_limiter c = Some b)"
  proof (cases "t = ct_tag c")
    case True
    then show ?thesis
      using at assms(2-4) by (auto simp: newLimiter_def)
  next
    case False
    then have "map_of (wd_limiters w) t = Some b"
      using at assms(2) by (simp add: newLimiter_def)
    then obtain d where d: "b < length (wd_store w)" "Some d \<in> set cs" "ct_tag d = t" "ct_limiter d = Some b"
      using assms(1) unfolding owned_def by blast
    then have "Some d \<in> set cs'"
      using assms(5) [OF d(2)] False by auto
    then show ?thesis
      using d assms(2) by (auto simp: newLimiter_def)
  qed
qed

lemma in_update:
  assumes "i < length cs" "cs ! i = Some c" "Some d \<in> set cs"
  shows "Some d \<in> set (cs[i := Some c']) \<or> d = c"
proof -
  obtain j where "j < length cs" "cs ! j = Some d"
    using assms(3) by (auto simp: in_set_conv_nth)
  then show ?thesis
    using assms(2) by (cases "j = i") (auto intro: nth_mem simp: in_set_conv_nth)
qed

text \<open>A controller of the list took a step.\<close>

lemma server_inv_update:
  assumes "server_inv J s" "i < length (sv_controllers s)" "sv_controllers s ! i = Some c" "tagged J c'"
    and "sameOwner J c c' \<and> sameLimiters (sv_world s) w' \<or>
      (\<exists>a. ct_limiter c' = Some a \<and> newLimiter (ct_tag c') a (sv_world s) w' \<and> (ct_limiter c \<noteq> None \<longrightarrow> ct_tag c' = ct_tag c))"
  shows "server_inv J (s\<lparr>sv_controllers := (sv_controllers s)[i := Some c'], sv_world := w'\<rparr>)"
proof -
  let ?cs = "sv_controllers s" and ?cs' = "(sv_controllers s)[i := Some c']"
  have i: "owned ?cs (sv_world s)" "\<And>d. Some d \<in> set ?cs \<Longrightarrow> tagged J d"
    using assms(1) by (simp_all add: server_inv_def)
  have c': "Some c' \<in> set ?cs'"
    using assms(2) by (simp add: set_update_memI)
  have "owned ?cs' w'"
    using assms(5)
  proof (elim disjE exE conjE)
    assume o: "sameOwner J c c'" "sameLimiters (sv_world s) w'"
    show ?thesis
      unfolding owned_def
    proof (intro allI impI)
      fix t b
      assume "map_of (wd_limiters w') t = Some b"
      then obtain d where d: "b < length (wd_store w')" "Some d \<in> set ?cs" "ct_tag d = t" "ct_limiter d = Some b"
        using i(1) o(2) unfolding owned_def sameLimiters_def by metis
      then show "b < length (wd_store w') \<and> (\<exists>c. Some c \<in> set ?cs' \<and> ct_tag c = t \<and> ct_limiter c = Some b)"
        using in_update [OF assms(2,3) d(2)] c' o(1) unfolding sameOwner_def by metis
    qed
  next
    fix a
    assume n: "ct_limiter c' = Some a" "newLimiter (ct_tag c') a (sv_world s) w'" "ct_limiter c \<noteq> None \<longrightarrow> ct_tag c' = ct_tag c"
    show ?thesis
      by (rule owned_fresh [OF i(1) n(2,1) c']) (use in_update [OF assms(2,3)] n(3) in metis)
  qed
  moreover have "tagged J d" if "Some d \<in> set ?cs'" for d
    using set_update_subset_insert [of ?cs i "Some c'"] that i(2) assms(4) by auto
  ultimately show ?thesis
    by (simp add: server_inv_def)
qed

section \<open>Lemmas: starting and closing the nodes\<close>

lemma startNodes_owned:
  assumes "startNodes E parseIP I ns w = Ret (e, cs, w')" "keeps_options J I" "owned pre w"
    and "\<forall>n\<in>set ns. redecodes J (nc_Options n)"
  shows "owned (pre @ cs) w' \<and> (\<forall>c. Some c \<in> set cs \<longrightarrow> tagged J c)"
  using assms(1,3,4)
proof (induction ns arbitrary: w pre cs)
  case (Cons n ns)
  show ?case
  proof (cases "newClient parseIP (nc_ApiConfig n)")
    case (Inl x)
    then show ?thesis
      using Cons.prems by (auto intro: owned_mono)
  next
    case (Inr p)
    obtain e1 c w1 where st: "Controller_Start (E n) I (NewController p (nc_Options n)) w = Ret (e1, c, w1)"
      using Cons.prems(1) Inr by (auto split: outcome.split_asm prod.split_asm)
    have "ct_limiter (NewController p (nc_Options n)) = None" "redecodes J (ct_Options (NewController p (nc_Options n)))"
      using Cons.prems(3) by (simp_all add: NewController_def)
    note l = Controller_Start_limiter [OF st this(1), of J] and t = this
    have tc: "tagged J c"
      using l t(2) assms(2) by blast
    have o: "owned (pre @ [Some c]) w1"
    proof (cases "ct_limiter c = None")
      case True
      then have "sameLimiters w w1"
        using l by (auto simp: sameLimiters_def)
      then show ?thesis
        by (rule owned_mono [OF Cons.prems(2)]) auto
    next
      case False
      then obtain a where "ct_limiter c = Some a" "newLimiter (ct_tag c) a w w1"
        using l by auto
      then show ?thesis
        by (intro owned_fresh [OF Cons.prems(2)]) auto
    qed
    show ?thesis
    proof (cases e1)
      case (Some x)
      then have "cs = Some c # map (\<lambda>_. None) ns" "w' = w1"
        using Cons.prems(1) Inr st by simp_all
      then have "owned (pre @ cs) w'"
        by (intro owned_mono [OF o]) auto
      then show ?thesis
        using tc \<open>cs = Some c # map (\<lambda>_. None) ns\<close> by auto
    next
      case None
      then obtain cs2 where r: "startNodes E parseIP I ns w1 = Ret (e, cs2, w')" "cs = Some c # cs2"
        using Cons.prems(1) Inr st by (auto split: outcome.split_asm prod.split_asm)
      show ?thesis
        using Cons.IH [OF r(1) o] Cons.prems(3) tc r(2) by auto
    qed
  qed
qed auto

lemma closeControllers_clears:
  assumes "closeControllers I cs w = Ret w'"
  shows "None \<notin> set cs \<and> wd_store w' = wd_store w \<and>
    map_of (wd_limiters w') t = (if \<exists>c. Some c \<in> set cs \<and> ct_tag c = t then None else map_of (wd_limiters w) t)"
  using assms
proof (induction I cs w rule: closeControllers.induct)
  case (3 I c cs w)
  then obtain c1 w1 where c: "Controller_Close I c w = Ret (None, c1, w1)" "closeControllers I cs w1 = Ret w'"
    by (auto split: outcome.split_asm prod.split_asm option.split_asm)
  from 3 c Controller_Close_limiters [OF c(1)] show ?case
    by auto
qed auto

lemma closed_empty:
  assumes "closeControllers I cs w = Ret w'" "owned cs w"
  shows "map_of (wd_limiters w') = Map.empty"
proof
  fix t
  show "map_of (wd_limiters w') t = None"
    using closeControllers_clears [OF assms(1), of t] assms(2) unfolding owned_def
    by (cases "map_of (wd_limiters w) t") auto
qed

lemma runServer_inv:
  assumes "runServer S E c w = Ret (e, s)" "keeps_options J (useCore S)" "map_of (wd_limiters w) = Map.empty"
    and "\<forall>n\<in>set (cf_NodeConfig c). redecodes J (nc_Options n)"
  shows "server_inv J s"
proof -
  have o: "owned cs (w\<lparr>wd_core := k\<rparr>)" for cs k
    using assms(3) by (simp add: owned_def)
  have "server_inv J \<lparr>sv_conf = c, sv_controllers = cs, sv_world = w'\<rparr>"
    if "startNodes E (se_parseIP S) (useCore S) (cf_NodeConfig c) (w\<lparr>wd_core := k\<rparr>) = Ret (e', cs, w')" for cs w' k e'
    using startNodes_owned [OF that assms(2) o [of "[]"] assms(4)] by (simp add: server_inv_def)
  moreover have "server_inv J \<lparr>sv_conf = c, sv_controllers = [], sv_world = w\<lparr>wd_core := k\<rparr>\<rparr>" for k
    using o by (simp add: server_inv_def)
  ultimately show ?thesis
    using assms(1) unfolding runServer_def Let_def
    by (auto split: outcome.split_asm sum.split_asm prod.split_asm option.split_asm)
qed

section \<open>The life of the server\<close>

text \<open>What happens to a server that was started: its controllers poll, report and check, their tasks move,
  certificates are renewed, the cores carry connections, which change the state of cores and the
  contents of limiters, and the configuration is reloaded.  The files, the panels and everything else
  outside may be different at each step; only, a file that fails to decode must not leave a half-decoded
  node with raw options of its own (\<open>soundLoad\<close>), which the reload would go on with.\<close>

inductive server_step :: "'c server_env \<Rightarrow> string \<Rightarrow> ('c, 'b) Server \<Rightarrow> ('c, 'b) Server \<Rightarrow> bool" for S path where
  poll: "i < length (sv_controllers s) \<Longrightarrow> sv_controllers s ! i = Some c \<Longrightarrow>
     nodeInfoMonitor E (useCore S) c (sv_world s) = Ret (c', w') \<Longrightarrow>
     server_step S path s (s\<lparr>sv_controllers := (sv_controllers s)[i := Some c'], sv_world := w'\<rparr>)"
| report: "Some c \<in> set (sv_controllers s) \<Longrightarrow>
     reportUserTrafficTask E (useCore S) c (sv_world s) = Ret (bs, w') \<Longrightarrow>
     server_step S path s (s\<lparr>sv_world := w'\<rparr>)"
| speed: "i < length (sv_controllers s) \<Longrightarrow> sv_controllers s ! i = Some c \<Longrightarrow>
     SpeedChecker E c (sv_world s) = Ret (c', w') \<Longrightarrow>
     server_step S path s (s\<lparr>sv_controllers := (sv_controllers s)[i := Some c'], sv_world := w'\<rparr>)"
| tasks: "i < length (sv_controllers s) \<Longrightarrow> sv_controllers s ! i = Some c \<Longrightarrow>
     server_step S path s (s\<lparr>sv_controllers := (sv_controllers s)[i := Some (c\<lparr>ct_nodeInfoMonitorPeriodic := p,
       ct_userReportPeriodic := q, ct_renewCertPeriodic := r\<rparr>)]\<rparr>)"
| renew: "renewCertTask E cc (wd_certs (sv_world s)) = Ret fs \<Longrightarrow>
     server_step S path s (s\<lparr>sv_world := sv_world s\<lparr>wd_certs := fs\<rparr>\<rparr>)"
| connections: "wd_limiters w' = wd_limiters (sv_world s) \<Longrightarrow> length (wd_store w') = length (wd_store (sv_world s)) \<Longrightarrow>
     server_step S path s (s\<lparr>sv_world := w'\<rparr>)"
| reload: "soundLoad (se_json S) W path \<Longrightarrow> reload S W E path s = Ret (e, s') \<Longrightarrow> server_step S path s s'"

inductive server_reach :: "'c server_env \<Rightarrow> string \<Rightarrow> ('c, 'b) Server \<Rightarrow> bool" for S path where
  init: "serverHandle S W E path fs = Ret (Inr s) \<Longrightarrow> server_reach S path s"
| step: "server_reach S path s \<Longrightarrow> server_step S path s s' \<Longrightarrow> server_reach S path s'"

inductive_cases server_stepE: "server_step S path s s'"

text \<open>The cores are the program's, and the JSON library keeps its laws.\<close>

abbreviation realCores ::
  "('x, 'a, 'h, 'o, 'm, 'b, 'y, 'k, 'c, 's, 'w) cores_env \<Rightarrow> ('x, 'b, 'y, 's, 'w) AnyCore server_env \<Rightarrow> bool" where
  "realCores C S \<equiv> se_core S = anyCore C \<and> options_law (se_json S) \<and> conf_law (se_json S)"

lemma realCores_keeps: "realCores C S \<Longrightarrow> keeps_options (se_json S) (useCore S)"
  using vCore_keeps_options [of "se_json S" C] by simp

lemma serverHandle_inv:
  assumes "serverHandle S W E path fs = Ret (Inr s)" "realCores C S"
  shows "server_inv (se_json S) s"
proof -
  obtain c where l: "LoadFromPath (se_json S) W path newConf = (c, None)"
    and r: "runServer S E c \<lparr>wd_core = None, wd_store = [], wd_limiters = [], wd_certs = fs\<rparr> = Ret (None, s)"
    using assms(1) by (auto simp: serverHandle_def split: prod.split_asm option.split_asm outcome.split_asm)
  have "\<forall>n\<in>set (cf_NodeConfig c). redecodes (se_json S) (nc_Options n)"
    using soundLoad_redecodes [of "se_json S" W path] assms(2) l by (simp add: soundLoad_def)
  from runServer_inv [OF r realCores_keeps [OF assms(2)] _ this] show ?thesis
    by simp
qed

lemma reload_inv:
  assumes "reload S W E path s = Ret (e, s')" "realCores C S" "soundLoad (se_json S) W path"
    and "server_inv (se_json S) s"
  shows "server_inv (se_json S) s'"
proof -
  define cf where "cf = fst (LoadFromPath (se_json S) W path newConf)"
  note r0 = assms(1) [unfolded reload_def Let_def, folded cf_def]
  obtain w where w: "closeControllers (useCore S) (sv_controllers s) (sv_world s) = Ret w"
    using sure_call [OF r0] by blast
  have m: "map_of (wd_limiters w) = Map.empty"
    using closed_empty [OF w] assms(4) by (simp add: server_inv_def)
  have n: "\<forall>n\<in>set (cf_NodeConfig cf). redecodes (se_json S) (nc_Options n)"
    using soundLoad_redecodes [OF _ _ assms(3)] assms(2) by (simp add: cf_def)
  from plain_call [OF r0 [unfolded w outcome.case]] show ?thesis
  proof (elim disjE exE conjE)
    fix x k
    assume "Ret (Some x, \<lparr>sv_conf = cf, sv_controllers = [], sv_world = w\<lparr>wd_core := k\<rparr>\<rparr>) = Ret (e, s')"
    then show ?thesis
      using m by (auto simp: server_inv_def owned_def)
  next
    fix k
    assume "runServer S E cf (w\<lparr>wd_core := k\<rparr>) = Ret (e, s')"
    then show ?thesis
      by (rule runServer_inv [OF _ realCores_keeps [OF assms(2)] _ n]) (simp add: m)
  qed
qed

lemma server_inv_same:
  "server_inv J s \<Longrightarrow> sameLimiters (sv_world s) w' \<Longrightarrow> server_inv J (s\<lparr>sv_world := w'\<rparr>)"
  by (auto simp: server_inv_def intro: owned_mono)

lemma server_step_inv:
  assumes "server_step S path s s'" "realCores C S" "server_inv (se_json S) s"
  shows "server_inv (se_json S) s'"
  using assms(1)
proof cases
  case (poll i c E c' w')
  have "tagged (se_json S) c"
    using assms(3) poll(2,3) nth_mem [OF poll(2)] by (simp add: server_inv_def)
  note k = poll_limiter [OF poll(4) realCores_keeps [OF assms(2)] this]
  show ?thesis
    unfolding poll(1) by (rule server_inv_update [OF assms(3) poll(2,3)]) (use k in auto)
next
  case (report c E bs w')
  then show ?thesis
    using server_inv_same [OF assms(3) report_same] by simp
next
  case (speed i c E c' w')
  have "tagged (se_json S) c"
    using assms(3) speed(2,3) nth_mem [OF speed(2)] by (simp add: server_inv_def)
  then show ?thesis
    unfolding speed(1) using SpeedChecker_same [OF speed(4)] sameOwner_tagged
    by (intro server_inv_update [OF assms(3) speed(2,3)]) blast+
next
  case (tasks i c r q p)
  let ?c = "c\<lparr>ct_nodeInfoMonitorPeriodic := p, ct_userReportPeriodic := q, ct_renewCertPeriodic := r\<rparr>"
  have o: "sameOwner (se_json S) c ?c"
    by simp
  have "tagged (se_json S) ?c"
    using sameOwner_tagged [OF o] assms(3) tasks(2,3) nth_mem [OF tasks(2)] by (simp add: server_inv_def)
  then have "server_inv (se_json S) (s\<lparr>sv_controllers := (sv_controllers s)[i := Some ?c], sv_world := sv_world s\<rparr>)"
    by (rule server_inv_update [OF assms(3) tasks(2,3)]) (use o in auto)
  then show ?thesis
    by (simp add: tasks(1))
next
  case (renew E cc fs)
  then show ?thesis
    using server_inv_same [OF assms(3)] by simp
next
  case (connections w')
  then show ?thesis
    using server_inv_same [OF assms(3), of w'] by (simp add: sameLimiters_def)
next
  case (reload W E e)
  then show ?thesis
    using reload_inv [OF _ assms(2) _ assms(3)] by blast
qed

lemma server_reach_inv:
  assumes "server_reach S path s" "realCores C S"
  shows "server_inv (se_json S) s"
  using assms(1)
proof (induction rule: server_reach.induct)
  case (init W E fs s)
  then show ?case using serverHandle_inv assms(2) by blast
next
  case (step s s')
  then show ?case using server_step_inv assms(2) by blast
qed

section \<open>Lemmas: what a start of all nodes leaves\<close>

text \<open>The limiter of a served controller is the registered one, and knows exactly its users.\<close>

definition served :: "Controller \<Rightarrow> ('c, 'b) World \<Rightarrow> bool" where
  "served c w \<longleftrightarrow> ct_userList c \<noteq> [] \<and> (\<exists>a. ct_limiter c = Some a \<and> a < length (wd_store w) \<and>
     map_of (wd_limiters w) (ct_tag c) = Some a \<and>
     (distinct (map ui_Uuid (ct_userList c)) \<longrightarrow>
       (\<forall>x. Limiter_uid (wd_store w ! a) (ct_tag c) x = idsOf (ct_userList c) x)))"

lemma start_served:
  assumes "Controller_Start E I c w = Ret (None, c', w')"
  shows "served c' w'"
proof -
  obtain node us alive cl tag a w1 w2 where us: "us \<noteq> []"
    and add: "addLimiter tag (op_LimitConfig (ct_Options c)) us alive w = (a, w1)"
    and rule: "updateRule (cv_compile E) (ni_Rules node) a w1 = Ret (None, w2)"
    and inst: "installNode E I node (c\<lparr>ct_userList := us, ct_apiClient := cl, ct_aliveMap := alive, ct_tag := tag,
        ct_limiter := Some a\<rparr>) w2 = Ret (None, c', w')"
    using Controller_Start_ok [OF assms] by blast
  let ?c = "c\<lparr>ct_userList := us, ct_apiClient := cl, ct_aliveMap := alive, ct_tag := tag, ct_limiter := Some a\<rparr>"
  obtain s p core' where i: "startTasks node (?c\<lparr>ct_Options := p, ct_info := Some node\<rparr>) = Ret c'"
    "w' = w2\<lparr>wd_certs := s, wd_core := core'\<rparr>"
    using installNode_ok [OF inst] by blast
  note t = startTasks_parts [OF i(1)]
  note l = addLimiter_parts [OF add]
  note r = updateRule_parts [OF rule l(2)]
  have "Limiter_uid (wd_store w2 ! a) tag x = idsOf us x" if "distinct (map ui_Uuid us)" for x
    using makeLimiter_uid [OF that] r(6) l(4) by (simp add: Limiter_uid_def)
  then show ?thesis
    using us t l r by (simp add: served_def i(2))
qed

lemma served_later:
  assumes "served c w" "wd_store w = take (length (wd_store w)) (wd_store w')"
    and "map_of (wd_limiters w') (ct_tag c) = map_of (wd_limiters w) (ct_tag c)"
  shows "served c w'"
proof -
  have n: "length (wd_store w) \<le> length (wd_store w')"
    using assms(2) by (metis length_take min.absorb_iff1 min.commute)
  have "wd_store w ! a = wd_store w' ! a" if "a < length (wd_store w)" for a
    using that assms(2) by (metis nth_take)
  then show ?thesis
    using assms(1,3) n unfolding served_def by (auto intro: less_le_trans)
qed

lemma newController_start:
  assumes "Controller_Start E I (NewController p q) w = Ret (e, c, w')"
  shows "wd_store w = take (length (wd_store w)) (wd_store w')"
    "t \<noteq> ct_tag c \<Longrightarrow> map_of (wd_limiters w') t = map_of (wd_limiters w) t"
proof -
  have "ct_limiter (NewController p q) = None"
    by (simp add: NewController_def)
  note l = conjunct2 [OF Controller_Start_limiter [OF assms this]]
  show "wd_store w = take (length (wd_store w)) (wd_store w')"
    using l by (auto simp: newLimiter_def)
  show "t \<noteq> ct_tag c \<Longrightarrow> map_of (wd_limiters w') t = map_of (wd_limiters w) t"
    using l by (auto simp: newLimiter_def)
qed

lemma take_store_trans:
  assumes "xs = take (length xs) ys" "ys = take (length ys) zs"
  shows "xs = take (length xs) zs"
proof -
  have "length xs \<le> length ys"
    using assms(1) by (metis length_take min.absorb_iff1 min.commute)
  then show ?thesis
    using assms by (metis min.absorb_iff1 take_take)
qed

lemma startNodes_ok:
  assumes "startNodes E parseIP I ns w = Ret (None, cs, w')"
  shows "length cs = length ns \<and> wd_store w = take (length (wd_store w)) (wd_store w') \<and>
    (\<forall>t. t \<notin> (\<lambda>c. ct_tag (the c)) ` set cs \<longrightarrow> map_of (wd_limiters w') t = map_of (wd_limiters w) t) \<and>
    (distinct (map (\<lambda>c. ct_tag (the c)) cs) \<longrightarrow> (\<forall>c\<in>set cs. \<exists>x. c = Some x \<and> served x w'))"
  using assms
proof (induction ns arbitrary: w cs)
  case (Cons n ns)
  obtain p c w1 cs2 where st: "Controller_Start (E n) I (NewController p (nc_Options n)) w = Ret (None, c, w1)"
    and r: "startNodes E parseIP I ns w1 = Ret (None, cs2, w')" "cs = Some c # cs2"
    using Cons.prems by (auto split: sum.split_asm outcome.split_asm prod.split_asm option.split_asm)
  note k = newController_start [OF st] and ih = Cons.IH [OF r(1)]
  have "served c w'" if "ct_tag c \<notin> (\<lambda>c. ct_tag (the c)) ` set cs2"
    by (rule served_later [OF start_served [OF st]]) (use ih that in auto)
  moreover have "wd_store w = take (length (wd_store w)) (wd_store w')"
    using take_store_trans [OF k(1)] ih by blast
  ultimately show ?case
    using ih k(2) by (simp add: r(2))
qed simp

section \<open>Properties\<close>

text \<open>C4: in every state a server can come to, whatever its panels answered and however often it was
  reloaded, each registered limiter is the limiter of a controller of the current configuration, under
  that controller's tag: no connection is ever judged by the limiter of a node that is gone.  The cores
  are the program's own, one or several behind the selector; encoding/json keeps the laws \<open>options_law\<close>
  and \<open>conf_law\<close>, and no reload goes on with a half-decoded node that has raw options (\<open>soundLoad\<close>).\<close>

theorem registered_limiters_owned:
  assumes "server_reach S path s" "realCores C S" "map_of (wd_limiters (sv_world s)) tag = Some a"
  shows "a < length (wd_store (sv_world s)) \<and>
    (\<exists>c. Some c \<in> set (sv_controllers s) \<and> ct_tag c = tag \<and> ct_limiter c = Some a)"
  using server_reach_inv [OF assms(1,2)] assms(3) unfolding server_inv_def owned_def by blast

text \<open>C3: after a reload without error the server runs the new configuration and nothing else: there is a
  controller for each of its nodes, each has users and a limiter that knows exactly them, registered
  under its tag, and no other limiter is registered.  The tags of the nodes have to be distinct; cores and
  JSON laws are as for the property before.\<close>

theorem reload_serves_new_conf:
  assumes "server_reach S path s" "realCores C S" "reload S W E path s = Ret (None, s')"
    and "distinct (map (\<lambda>c. ct_tag (the c)) (sv_controllers s'))"
  shows "sv_conf s' = fst (LoadFromPath (se_json S) W path newConf) \<and>
    length (sv_controllers s') = length (cf_NodeConfig (sv_conf s')) \<and>
    (\<forall>c\<in>set (sv_controllers s'). \<exists>x. c = Some x \<and> served x (sv_world s')) \<and>
    dom (map_of (wd_limiters (sv_world s'))) = (\<lambda>c. ct_tag (the c)) ` set (sv_controllers s')"
proof -
  define cf where "cf = fst (LoadFromPath (se_json S) W path newConf)"
  note r0 = assms(3) [unfolded reload_def Let_def, folded cf_def]
  obtain w where w: "closeControllers (useCore S) (sv_controllers s) (sv_world s) = Ret w"
    using sure_call [OF r0] by blast
  obtain k where k: "runServer S E cf (w\<lparr>wd_core := k\<rparr>) = Ret (None, s')"
    using plain_call [OF r0 [unfolded w outcome.case]] by auto
  have m: "map_of (wd_limiters w) = Map.empty"
    using closed_empty [OF w] server_reach_inv [OF assms(1,2)] by (simp add: server_inv_def)
  obtain k' cs w' where n: "startNodes E (se_parseIP S) (useCore S) (cf_NodeConfig cf) (w\<lparr>wd_core := k'\<rparr>) = Ret (None, cs, w')"
    and s': "s' = \<lparr>sv_conf = cf, sv_controllers = cs, sv_world = w'\<rparr>"
    using k unfolding runServer_def Let_def
    by (auto split: outcome.split_asm sum.split_asm prod.split_asm option.split_asm)
  note ok = startNodes_ok [OF n]
  have sv: "\<forall>c\<in>set cs. \<exists>x. c = Some x \<and> served x w'"
    using ok assms(4) by (simp add: s')
  have "t \<in> (\<lambda>c. ct_tag (the c)) ` set cs" if "map_of (wd_limiters w') t \<noteq> None" for t
    using ok m that by auto
  moreover have "map_of (wd_limiters w') (ct_tag (the c)) \<noteq> None" if "c \<in> set cs" for c
    using sv that unfolding served_def by fastforce
  ultimately have "dom (map_of (wd_limiters w')) = (\<lambda>c. ct_tag (the c)) ` set cs"
    by (auto simp: dom_def)
  then show ?thesis
    using ok sv by (simp add: s' cf_def)
qed

text \<open>C35: a reload while the configuration file cannot be opened, as when an editor is just replacing it,
  goes on with the empty configuration: the nodes and the core are closed and no core is made, and
  the next reload, with whatever file, panics on the nil core.\<close>

theorem unreadable_config_is_fatal:
  assumes "wo_open W path = Inl x"
    and "closeControllers (useCore S) (sv_controllers s) (sv_world s) = Ret w"
    and "cr_Close (useCore S) (wd_core w) = Ret (None, k)"
  shows "\<exists>s'. reload S W E path s = Ret (Some ''no have vail core'', s') \<and> sv_controllers s' = [] \<and>
    wd_core (sv_world s') = None \<and> reload S W' E' path s' = Panic"
  using assms
  by (simp add: reload_def LoadFromPath_def newConf_def runServer_def NewCore_def Let_def)

text \<open>A node that fails to start before the last one leaves nil controllers behind, which the next reload
  closes: it panics.\<close>

lemma startNodes_failed:
  assumes "startNodes E parseIP I ns w = Ret (Some e, cs, w')"
  shows "length cs = length ns \<and> (\<exists>i<length ns. \<forall>j. i < j \<and> j < length ns \<longrightarrow> cs ! j = None)"
  using assms
proof (induction ns arbitrary: w cs)
  case (Cons n ns)
  show ?case
  proof (cases "newClient parseIP (nc_ApiConfig n)")
    case (Inl x)
    then show ?thesis
      using Cons.prems by (auto simp: nth_Cons split: nat.split)
  next
    case (Inr p)
    obtain e1 c w1 where st: "Controller_Start (E n) I (NewController p (nc_Options n)) w = Ret (e1, c, w1)"
      using Cons.prems(1) Inr by (auto split: outcome.split_asm prod.split_asm)
    show ?thesis
    proof (cases e1)
      case (Some x)
      then have "cs = Some c # map (\<lambda>_. None) ns"
        using Cons.prems(1) Inr st by simp
      then show ?thesis
        by (auto simp: nth_Cons split: nat.split)
    next
      case None
      then obtain cs2 where r: "startNodes E parseIP I ns w1 = Ret (Some e, cs2, w')" "cs = Some c # cs2"
        using Cons.prems(1) Inr st by (auto split: outcome.split_asm prod.split_asm)
      obtain i where "length cs2 = length ns" "i < length ns" "\<forall>j. i < j \<and> j < length ns \<longrightarrow> cs2 ! j = None"
        using Cons.IH [OF r(1)] by blast
      then show ?thesis
        by (intro conjI exI [of _ "Suc i"]) (auto simp: r(2) nth_Cons split: nat.split)
    qed
  qed
qed simp

lemma closeControllers_None: "None \<in> set cs \<Longrightarrow> closeControllers I cs w = Panic"
  using closeControllers_clears by (cases "closeControllers I cs w") blast+

lemma failed_node_is_fatal:
  "None \<in> set (sv_controllers s) \<Longrightarrow> reload S W E path s = Panic"
  by (simp add: reload_def closeControllers_None)

section \<open>Witnesses\<close>

text \<open>A server whose configuration has two cores and one node, which names no core.  Every text but the
  empty one decodes to options with the name \<open>n\<close>.\<close>

definition wit_texts :: json_env where
  "wit_texts = wit_json\<lparr>
     je_api := (\<lambda>b a. (\<lparr>ac_APIHost = ''u'', ac_APISendIP = [], ac_NodeID = 7, ac_Key = ''k'',
       ac_NodeType = ''Trojan'', ac_Timeout = 30, ac_RuleListPath = []\<rparr>, None)),
     je_opt := (\<lambda>b p. if b = [] then (p, Some ''unexpected end of JSON input'') else (p\<lparr>op_Name := ''n''\<rparr>, None))\<rparr>"

definition wit_given :: Options where
  "wit_given = defaultOptions\<lparr>op_Name := ''n'', op_RawOptions := ''x''\<rparr>"

definition wit_conf :: Conf where
  "wit_conf = newConf\<lparr>
     cf_CoresConfig := map (\<lambda>t. \<lparr>co_Type = t, co_Name = [], co_XrayConfig = None, co_SingConfig = None,
       co_Hysteria2Config = None\<rparr>) [''sing'', ''hysteria2''],
     cf_NodeConfig := [\<lparr>nc_ApiConfig = fst (je_api wit_texts [] defaultApi), nc_Options = wit_given\<rparr>]\<rparr>"

definition wit_hy2 :: "(unit, int, unit, unit, unit) AnyCore" where
  "wit_hy2 = Hy2Core \<lparr>ht_Hy2nodes = [], ht_Auth = [], ht_heap = []\<rparr> ()"

definition wit_server :: "(unit, int, unit, unit, unit) AnyCore server_env" where
  "wit_server = \<lparr>se_json = wit_texts\<lparr>je_conf := (\<lambda>b p. (wit_conf, None))\<rparr>,
     se_ctors = [(''sing'', \<lambda>c. Ret (Inr (SingCore wit_sing))), (''hysteria2'', \<lambda>c. Ret (Inr wit_hy2))],
     se_core = anyCore wit_cores, se_parseIP = id\<rparr>"

abbreviation wit_panels :: "NodeConfig \<Rightarrow> ctl_env" where
  "wit_panels \<equiv> (\<lambda>n. wit_panel 200 [wit_u 8 ''v'' 0])"

lemma wit_node_decodes:
  "NodeConfig_UnmarshalJSON (se_json wit_server) W ''x'' n
     = (\<lparr>nc_ApiConfig = fst (je_api wit_texts [] defaultApi), nc_Options = wit_given\<rparr>, None)"
  by (simp add: NodeConfig_UnmarshalJSON_def fillNode_def Options_UnmarshalJSON_def wit_server_def wit_texts_def
      wit_json_def wit_given_def defaultOptions_def)

lemma wit_realCores: "realCores wit_cores wit_server"
proof (intro conjI)
  show "se_core wit_server = anyCore wit_cores"
    by (simp add: wit_server_def)
  show "options_law (se_json wit_server)"
    by (auto simp: options_law_def wit_server_def wit_texts_def)
  have "cf_NodeConfig wit_conf = [\<lparr>nc_ApiConfig = fst (je_api wit_texts [] defaultApi), nc_Options = wit_given\<rparr>]"
    by (simp add: wit_conf_def)
  moreover have "cf = wit_conf" if "je_conf (se_json wit_server) b newConf = (cf, None)" for b cf
    using that by (simp add: wit_server_def)
  ultimately show "conf_law (se_json wit_server)"
    unfolding conf_law_def decoded_def using wit_node_decodes by fastforce
qed

text \<open>A controller as that start leaves it, and the selector with and without its node.\<close>

definition wit_up :: "Controller \<Rightarrow> bool" where
  "wit_up c \<longleftrightarrow> ct_tag c = ''n'' \<and> ct_nodeInfoMonitorPeriodic c = Some (startTask 60000000000 False) \<and>
     ct_userReportPeriodic c = Some (startTask 60000000000 False) \<and> ct_renewCertPeriodic c = None \<and>
     ct_dynamicSpeedLimitPeriodic c = None \<and> ct_onlineIpReportPeriodic c = None"

definition wit_two ::
  "unit Sing \<Rightarrow> (string, string) gomap \<Rightarrow> (unit, int, unit, unit, unit) AnyCore newCore option" where
  "wit_two b ns = Some (ManyCores \<lparr>sl_cores = [(''sing'', SingCore b), (''hysteria2'', wit_hy2)], sl_nodes = ns\<rparr>)"

lemma wit_newCore: "\<exists>k. NewCore (se_ctors wit_server) (cf_CoresConfig wit_conf) = Ret (Inr k) \<and> Some k = wit_two wit_sing []"
  by (simp add: NewCore_def NewSelector_def wit_server_def wit_conf_def wit_two_def mstore_def to_lower_def lower_char_def)

lemma wit_core_starts: "\<exists>b'. cr_Start (useCore wit_server) (wit_two b ns) = Ret (None, wit_two b' ns)"
  by (simp add: wit_server_def wit_two_def wit_hy2_def wit_cores_def anyCore_def Selector_Start_def Sing_Start_def
      Hysteria2_Start_def wit_box_def)

lemma wit_core_closes: "\<exists>b'. cr_Close (useCore wit_server) (wit_two b ns) = Ret (None, wit_two b' ns)"
  by (simp add: wit_server_def wit_two_def wit_hy2_def wit_cores_def anyCore_def Selector_Close_def Sing_Close_def
      Hysteria2_Close_def wit_box_def)

lemma wit_node_leaves:
  "\<exists>b'. cr_DelNode (useCore wit_server) ''n'' (wit_two b [(''n'', ''sing'')]) = Ret (None, wit_two b' [])"
  by (simp add: wit_server_def wit_two_def wit_hy2_def wit_cores_def anyCore_def Selector_DelNode_def nodeCore_def
      Sing_DelNode_def mstore_def mdelete_def)

text \<open>The selector chooses the sing core and decodes the options again.\<close>

lemma wit_node_joins:
  assumes "ni_Type n = ''trojan''" "ni_Security n = secTls" "ni_Common n = Some c" "ni_Trojan n = Some t"
    and "tj_Network t = ''tcp''"
  shows "\<exists>b'. cr_AddNode (useCore wit_server) ''n'' n wit_given (wit_two b [])
    = Ret ((None, wit_given\<lparr>op_Core := ''sing'', op_RawOptions := [], op_SingOptions := Some NewSingOptions\<rparr>),
        wit_two b' [(''n'', ''sing'')])"
proof -
  let ?p = "wit_given\<lparr>op_Core := ''sing'', op_RawOptions := [], op_SingOptions := Some NewSingOptions\<rparr>"
  obtain b' where a: "Sing_AddNode wit_decode (\<lambda>t i x. (None, x)) ''n'' n ?p b = Ret (None, b')"
    using wit_sing_node [OF assms, of ?p b] by (auto simp: wit_given_def defaultOptions_def)
  have s: "selectCore (anyCore wit_cores) n wit_given [(''sing'', SingCore b), (''hysteria2'', wit_hy2)]
      = Some (''sing'', SingCore b)"
    by (simp add: selectCore_def fits_def isSupported_def assms(1) wit_given_def defaultOptions_def wit_hy2_def
        anyCore_def Sing_Protocols_def Hysteria2_Protocols_def)
  have o: "completeOptions (se_json wit_server) ''sing'' wit_given = (?p, None)"
    by (simp add: completeOptions_def Options_UnmarshalJSON_def wit_given_def defaultOptions_def wit_server_def
        wit_texts_def wit_json_def)
  have "cr_Type (anyCore wit_cores) (SingCore b) = ''sing''"
    by (simp add: anyCore_def)
  then have "Selector_AddNode (se_json wit_server) (anyCore wit_cores) ''n'' n wit_given
      \<lparr>sl_cores = [(''sing'', SingCore b), (''hysteria2'', wit_hy2)], sl_nodes = []\<rparr>
    = Ret ((None, ?p), \<lparr>sl_cores = [(''sing'', SingCore b'), (''hysteria2'', wit_hy2)], sl_nodes = [(''n'', ''sing'')]\<rparr>)"
    using a by (simp add: Selector_AddNode_def s o) (simp add: anyCore_def wit_cores_def mstore_def)
  then show ?thesis
    using wit_realCores by (simp add: wit_two_def)
qed

lemma wit_users_join:
  assumes "ni_Type n = ''trojan''"
  shows "\<exists>k b'. cr_AddUsers (useCore wit_server) ''n'' us n (wit_two b [(''n'', ''sing'')])
    = Ret ((k, None), wit_two b' [(''n'', ''sing'')])"
proof -
  obtain k b' where "Sing_AddUsers wit_box ''n'' us n b = Ret ((k, None), b')"
    using wit_sing_users [OF assms] by blast
  then show ?thesis
    by (simp add: wit_server_def wit_two_def wit_cores_def anyCore_def Selector_AddUsers_def nodeCore_def mstore_def)
qed

lemma wit_start:
  "\<exists>c b' w'. Controller_Start (wit_panel 200 [wit_u 8 ''v'' 0]) (useCore wit_server) (NewController wit_client wit_given)
     (w\<lparr>wd_core := wit_two b []\<rparr>) = Ret (None, c, w') \<and> wit_up c \<and> wd_core w' = wit_two b' [(''n'', ''sing'')] \<and>
     (\<exists>a. map_of (wd_limiters w') ''n'' = Some a)"
proof -
  let ?us = "[wit_u 8 ''v'' 0]"
  obtain n c t where n: "GetNodeInfo (cv_node (wit_panel 200 ?us)) (cv_server (wit_panel 200 ?us)) wit_client
      = Ret ((Some n, None), wit_client\<lparr>cl_responseBodyHash := ''hb'', cl_nodeEtag := ''v1''\<rparr>)"
    and f: "ni_Type n = ''trojan''" "ni_Security n = secTls" "ni_Rules n = \<lparr>r_Regexp = [], r_Protocol = []\<rparr>"
      "ni_PullInterval n = 60000000000" "ni_PushInterval n = 60000000000"
      "ni_Common n = Some c" "ni_Trojan n = Some t" "tj_Network t = ''tcp''"
    using wit_fetched [of ?us] by auto
  obtain b1 where p: "cr_AddNode (useCore wit_server) ''n'' n wit_given (wit_two b [])
    = Ret ((None, wit_given\<lparr>op_Core := ''sing'', op_RawOptions := [], op_SingOptions := Some NewSingOptions\<rparr>),
        wit_two b1 [(''n'', ''sing'')])"
    using wit_node_joins [OF f(1,2,6,7,8)] by blast
  obtain k b2 where q: "cr_AddUsers (useCore wit_server) ''n'' ?us n (wit_two b1 [(''n'', ''sing'')])
    = Ret ((k, None), wit_two b2 [(''n'', ''sing'')])"
    using wit_users_join [OF f(1)] by blast
  have g: "op_Name wit_given = ''n''" "op_CertConfig wit_given = Some NewCertConfig" "op_LimitConfig wit_given = zeroLimit"
    by (simp_all add: wit_given_def defaultOptions_def)
  show ?thesis
    by (simp add: Controller_Start_def NewController_def n wit_poll_users Let_def g
        addLimiter_def updateRule_def UpdateRule_def f installNode_def requestCert_def NewCertConfig_def p q
        startTasks_def updateLimiter_def zeroLimit_def wit_up_def map_of_mstore del: vCore_simps) blast
qed

lemma wit_close:
  assumes "wit_up c"
  shows "\<exists>c' w' b'. Controller_Close (useCore wit_server) c (w\<lparr>wd_core := wit_two b [(''n'', ''sing'')]\<rparr>) = Ret (None, c', w') \<and>
     wd_core w' = wit_two b' []"
proof -
  obtain b' where d: "cr_DelNode (useCore wit_server) ''n'' (wit_two b [(''n'', ''sing'')]) = Ret (None, wit_two b' [])"
    using wit_node_leaves by blast
  show ?thesis
    using assms unfolding wit_up_def
    by (elim conjE) (simp add: Controller_Close_def deleteLimiter_def closeTask_def startTask_def Let_def d
        Periodic_Task.Close_def closeStop_def Periodic_Task.Start_def newTask_def del: vCore_simps, blast)
qed

lemma wit_run:
  "\<exists>s c b. runServer wit_server wit_panels wit_conf w = Ret (None, s) \<and> sv_controllers s = [Some c] \<and> wit_up c \<and>
     wd_core (sv_world s) = wit_two b [(''n'', ''sing'')] \<and> (\<exists>a. map_of (wd_limiters (sv_world s)) ''n'' = Some a)"
proof -
  obtain k where a: "NewCore (se_ctors wit_server) (cf_CoresConfig wit_conf) = Ret (Inr k)" "Some k = wit_two wit_sing []"
    using wit_newCore by blast
  obtain b1 where b: "cr_Start (useCore wit_server) (Some k) = Ret (None, wit_two b1 [])"
    using wit_core_starts a(2) by metis
  obtain c b2 w' l where st: "Controller_Start (wit_panel 200 [wit_u 8 ''v'' 0]) (useCore wit_server) (NewController wit_client wit_given)
     (w\<lparr>wd_core := wit_two b1 []\<rparr>) = Ret (None, c, w')" "wit_up c" "wd_core w' = wit_two b2 [(''n'', ''sing'')]"
     "map_of (wd_limiters w') ''n'' = Some l"
    using wit_start [where w = w and b = b1] by blast
  have c: "startNodes wit_panels (se_parseIP wit_server) (useCore wit_server) (cf_NodeConfig wit_conf)
      (w\<lparr>wd_core := wit_two b1 []\<rparr>) = Ret (None, [Some c], w')"
    using st(1) wit_client_new by (simp add: wit_conf_def wit_texts_def wit_server_def)
  show ?thesis
    using st(2-4) by (simp add: runServer_def a(1) b c Let_def del: vCore_simps) blast
qed

lemma wit_loaded: "LoadFromPath (se_json wit_server) wit_world path newConf = (wit_conf, None)"
  using wit_readable by (auto simp: LoadFromPath_def wit_world_def wit_server_def)

text \<open>What that start reaches.\<close>

abbreviation wit_serving :: "((unit, int, unit, unit, unit) AnyCore, unit) Server \<Rightarrow> Controller \<Rightarrow> unit Sing \<Rightarrow> bool" where
  "wit_serving s c b \<equiv> server_reach wit_server ''c'' s \<and> sv_controllers s = [Some c] \<and> wit_up c \<and>
     wd_core (sv_world s) = wit_two b [(''n'', ''sing'')]"

lemma wit_reached: "\<exists>s c b a. wit_serving s c b \<and> map_of (wd_limiters (sv_world s)) ''n'' = Some a"
proof -
  obtain s :: "((unit, int, unit, unit, unit) AnyCore, unit) Server" and c b a
    where r: "runServer wit_server wit_panels wit_conf \<lparr>wd_core = None, wd_store = [], wd_limiters = [], wd_certs = wit_fs\<rparr> = Ret (None, s)"
      "sv_controllers s = [Some c] \<and> wit_up c \<and> wd_core (sv_world s) = wit_two b [(''n'', ''sing'')]"
      "map_of (wd_limiters (sv_world s)) ''n'' = Some a"
    using wit_run by blast
  have "serverHandle wit_server wit_world wit_panels ''c'' wit_fs = Ret (Inr s)"
    using r(1) by (simp add: serverHandle_def wit_loaded)
  then have "server_reach wit_server ''c'' s"
    by (rule server_reach.init)
  then show ?thesis
    using r(2,3) by blast
qed

lemma wit_nodes_closed:
  assumes "wit_serving s c b"
  shows "\<exists>w' b'. closeControllers (useCore wit_server) (sv_controllers s) (sv_world s) = Ret w' \<and> wd_core w' = wit_two b' []"
proof -
  have "sv_world s = (sv_world s)\<lparr>wd_core := wit_two b [(''n'', ''sing'')]\<rparr>" and u: "wit_up c"
    using assms by simp_all
  then obtain c' w' b' where "Controller_Close (useCore wit_server) c (sv_world s) = Ret (None, c', w')"
    "wd_core w' = wit_two b' []"
    using wit_close [OF u, where w = "sv_world s" and b = b] by auto
  then show ?thesis
    using assms by (intro exI [of _ w'] exI [of _ b']) simp
qed

theorem registered_limiters_owned_witness:
  "\<exists>s c b a. wit_serving s c b \<and> map_of (wd_limiters (sv_world s)) ''n'' = Some a \<and>
     (\<exists>c. Some c \<in> set (sv_controllers s) \<and> ct_tag c = ''n'' \<and> ct_limiter c = Some a)"
proof -
  obtain s c b a where s: "wit_serving s c b" "map_of (wd_limiters (sv_world s)) ''n'' = Some a"
    using wit_reached by blast
  from s(1) have r: "server_reach wit_server ''c'' s"
    by blast
  show ?thesis
    using registered_limiters_owned [OF r wit_realCores s(2)] s by blast
qed

theorem reload_serves_new_conf_witness:
  "\<exists>s c b s'. wit_serving s c b \<and> reload wit_server wit_world wit_panels ''c'' s = Ret (None, s') \<and>
     length (sv_controllers s') = 1 \<and> dom (map_of (wd_limiters (sv_world s'))) = {''n''}"
proof -
  obtain s c b where s: "wit_serving s c b"
    using wit_reached by blast
  from s have reach: "server_reach wit_server ''c'' s"
    by blast
  obtain w' b1 where w: "closeControllers (useCore wit_server) (sv_controllers s) (sv_world s) = Ret w'"
    "wd_core w' = wit_two b1 []"
    using wit_nodes_closed [OF s] by blast
  obtain b2 where k: "cr_Close (useCore wit_server) (wit_two b1 []) = Ret (None, wit_two b2 [])"
    using wit_core_closes by blast
  obtain s' c' b' where r: "runServer wit_server wit_panels wit_conf (w'\<lparr>wd_core := wit_two b2 []\<rparr>) = Ret (None, s')"
    "sv_controllers s' = [Some c']" "wit_up c'" "wd_core (sv_world s') = wit_two b' [(''n'', ''sing'')]"
    using wit_run by blast
  have re: "reload wit_server wit_world wit_panels ''c'' s = Ret (None, s')"
    by (simp only: reload_def wit_loaded fst_conv Let_def w k outcome.case prod.case option.case r(1))
  have "distinct (map (\<lambda>c. ct_tag (the c)) (sv_controllers s'))"
    by (simp add: r(2))
  from reload_serves_new_conf [OF reach wit_realCores re this]
  have "dom (map_of (wd_limiters (sv_world s'))) = (\<lambda>c. ct_tag (the c)) ` set (sv_controllers s')"
    by blast
  moreover have "ct_tag c' = ''n''"
    using r(3) unfolding wit_up_def by blast
  ultimately have n: "length (sv_controllers s') = 1" "dom (map_of (wd_limiters (sv_world s'))) = {''n''}"
    by (simp_all add: r(2))
  show ?thesis
    using s re n by blast
qed

theorem unreadable_config_is_fatal_witness:
  "\<exists>s c b s'. wit_serving s c b \<and>
     reload wit_server (wit_world\<lparr>wo_open := (\<lambda>f. Inl ''gone'')\<rparr>) wit_panels ''c'' s = Ret (Some ''no have vail core'', s') \<and>
     reload wit_server wit_world wit_panels ''c'' s' = Panic"
proof -
  obtain s c b where s: "wit_serving s c b"
    using wit_reached by blast
  obtain w' b1 where w: "closeControllers (useCore wit_server) (sv_controllers s) (sv_world s) = Ret w'"
    "wd_core w' = wit_two b1 []"
    using wit_nodes_closed [OF s] by blast
  obtain b2 where k: "cr_Close (useCore wit_server) (wd_core w') = Ret (None, wit_two b2 [])"
    using wit_core_closes w(2) by metis
  have "wo_open (wit_world\<lparr>wo_open := (\<lambda>f. Inl ''gone'')\<rparr>) ''c'' = Inl ''gone''"
    by simp
  from unreadable_config_is_fatal [OF this w(1) k] show ?thesis
    using s by blast
qed

end
