(* ===== verification/Geo_Loader.thy ===== *)
theory Geo_Loader
  imports Prelude
begin

text \<open>
  The GeoIP and GeoSite databases of the hysteria2 access lists: core/hy2/geoloader.go.

  The file system is a map from names to files.  \<open>geo_env\<close> holds what the program calls: the errors of
  os.Stat other than a missing file, http.Get with the body and the error of copying it, os.CreateTemp,
  os.Rename, and the clock.  The library's parsers of the two formats are arguments.
\<close>

section \<open>State\<close>

record geoFile =
  gf_content :: string
  gf_mtime :: int

type_synonym files = "(string, geoFile) gomap"

record geo_env =
  ge_stat :: "string \<Rightarrow> err"
  ge_get :: "string \<Rightarrow> (string \<times> err) res"
  ge_createTemp :: "string res"
  ge_rename :: err
  ge_now :: int

record ('i, 's) GeoLoader =
  gl_GeoIPFilename :: string
  gl_GeoSiteFilename :: string
  gl_UpdateInterval :: int
  gl_geoipMap :: "'i option"
  gl_geositeMap :: "'s option"

definition geoDefaultUpdateInterval :: int where
  "geoDefaultUpdateInterval = 7 * 24 * 3600 * 1000000000"

section \<open>Operations\<close>

definition loadFile :: "(string \<Rightarrow> 'm res) \<Rightarrow> files \<Rightarrow> string \<Rightarrow> 'm res" where
  "loadFile parse fs name =
     (case map_of fs name of None \<Rightarrow> Inl ''no such file'' | Some f \<Rightarrow> parse (gf_content f))"

text \<open>An error of os.Stat other than a missing file leaves a nil FileInfo, whose Size panics.\<close>

definition shouldDownload :: "geo_env \<Rightarrow> int \<Rightarrow> files \<Rightarrow> string \<Rightarrow> bool outcome" where
  "shouldDownload E interval fs filename =
     (case ge_stat E filename of
        Some e \<Rightarrow> Panic
      | None \<Rightarrow> (case map_of fs filename of
          None \<Rightarrow> Ret True
        | Some f \<Rightarrow>
            if length (gf_content f) = 0 then Ret True
            else let dt = ge_now E - gf_mtime f in
              Ret (if interval = 0 then dt > geoDefaultUpdateInterval else dt > interval)))"

text \<open>The temporary file is removed on every way out.\<close>

definition downloadAndCheck ::
  "geo_env \<Rightarrow> (string \<Rightarrow> 'm res) \<Rightarrow> string \<Rightarrow> string \<Rightarrow> files \<Rightarrow> err \<times> files" where
  "downloadAndCheck E parse filename url fs =
     (case ge_get E url of
        Inl e \<Rightarrow> (Some e, fs)
      | Inr (body, copied) \<Rightarrow> (case ge_createTemp E of
          Inl e \<Rightarrow> (Some e, fs)
        | Inr tmp \<Rightarrow>
            let f = \<lparr>gf_content = body, gf_mtime = ge_now E\<rparr>; fs = mstore tmp f fs in
            (case copied of
               Some e \<Rightarrow> (Some e, mdelete tmp fs)
             | None \<Rightarrow> (case loadFile parse fs tmp of
                 Inl e \<Rightarrow> (Some e, mdelete tmp fs)
               | Inr _ \<Rightarrow> (case ge_rename E of
                   Some e \<Rightarrow> (Some e, mdelete tmp fs)
                 | None \<Rightarrow> (None, mdelete tmp (mstore filename f (mdelete tmp fs))))))))"

text \<open>The body shared by LoadGeoIP and LoadGeoSite; the result, the cache, the files.\<close>

definition loadGeo ::
  "geo_env \<Rightarrow> (string \<Rightarrow> 'm res) \<Rightarrow> int \<Rightarrow> 'm option \<Rightarrow> string \<Rightarrow> string \<Rightarrow> string \<Rightarrow> files \<Rightarrow>
   ('m res \<times> 'm option \<times> files) outcome" where
  "loadGeo E parse interval cache configured dflt url fs =
     (let final = (\<lambda>name fs. case loadFile parse fs name of
            Inl e \<Rightarrow> Ret (Inl e, cache, fs)
          | Inr m \<Rightarrow> Ret (Inr m, Some m, fs));
          fetch = (\<lambda>_. case downloadAndCheck E parse dflt url fs of
            (Some e, fs) \<Rightarrow> if map_of fs dflt = None then Ret (Inl e, cache, fs) else final dflt fs
          | (None, fs) \<Rightarrow> final dflt fs) in
      case cache of
        Some m \<Rightarrow> Ret (Inr m, cache, fs)
      | None \<Rightarrow>
          if configured \<noteq> [] then final configured fs
          else (case shouldDownload E interval fs dflt of
              Panic \<Rightarrow> Panic
            | Ret False \<Rightarrow> (case loadFile parse fs dflt of
                Inr m \<Rightarrow> Ret (Inr m, Some m, fs)
              | Inl e \<Rightarrow> fetch ())
            | Ret True \<Rightarrow> fetch ()))"

definition geoipURL :: string where
  "geoipURL = ''https://cdn.jsdelivr.net/gh/Loyalsoldier/v2ray-rules-dat@release/geoip.dat''"

definition geositeURL :: string where
  "geositeURL = ''https://cdn.jsdelivr.net/gh/Loyalsoldier/v2ray-rules-dat@release/geosite.dat''"

definition LoadGeoIP ::
  "geo_env \<Rightarrow> (string \<Rightarrow> 'i res) \<Rightarrow> ('i, 's) GeoLoader \<Rightarrow> files \<Rightarrow> ('i res \<times> ('i, 's) GeoLoader \<times> files) outcome" where
  "LoadGeoIP E parse l fs =
     (case loadGeo E parse (gl_UpdateInterval l) (gl_geoipMap l) (gl_GeoIPFilename l) ''geoip.dat'' geoipURL fs of
        Panic \<Rightarrow> Panic
      | Ret (r, m, fs) \<Rightarrow> Ret (r, l\<lparr>gl_geoipMap := m\<rparr>, fs))"

definition LoadGeoSite ::
  "geo_env \<Rightarrow> (string \<Rightarrow> 's res) \<Rightarrow> ('i, 's) GeoLoader \<Rightarrow> files \<Rightarrow> ('s res \<times> ('i, 's) GeoLoader \<times> files) outcome" where
  "LoadGeoSite E parse l fs =
     (case loadGeo E parse (gl_UpdateInterval l) (gl_geositeMap l) (gl_GeoSiteFilename l) ''geosite.dat'' geositeURL fs of
        Panic \<Rightarrow> Panic
      | Ret (r, m, fs) \<Rightarrow> Ret (r, l\<lparr>gl_geositeMap := m\<rparr>, fs))"

section \<open>Lemmas\<close>

text \<open>os.CreateTemp makes a file of a new name, other than the database's.\<close>

definition freshTemp :: "geo_env \<Rightarrow> string \<Rightarrow> files \<Rightarrow> bool" where
  "freshTemp E filename fs \<longleftrightarrow>
     (case ge_createTemp E of Inl e \<Rightarrow> True | Inr tmp \<Rightarrow> tmp \<noteq> filename \<and> map_of fs tmp = None)"

lemma downloadAndCheck_files:
  assumes "downloadAndCheck E parse filename url fs = (e, fs')" "freshTemp E filename fs"
  shows "(e \<noteq> None \<longrightarrow> map_of fs' = map_of fs) \<and>
    (e = None \<longrightarrow> (\<exists>body. ge_get E url = Inr (body, None) \<and> (\<exists>m. parse body = Inr m) \<and>
      map_of fs' = (map_of fs)(filename \<mapsto> \<lparr>gf_content = body, gf_mtime = ge_now E\<rparr>)))"
  using assms
  by (auto simp: downloadAndCheck_def freshTemp_def Let_def loadFile_def map_of_mstore map_of_mdelete fun_eq_iff
      split: sum.splits prod.splits option.splits)

definition sameFiles :: "files \<Rightarrow> files \<Rightarrow> bool" where
  "sameFiles fs fs' \<longleftrightarrow> map_of fs' = map_of fs"

text \<open>What a database file may become: the download, if it parses.\<close>

definition replaced :: "geo_env \<Rightarrow> (string \<Rightarrow> 'm res) \<Rightarrow> string \<Rightarrow> string \<Rightarrow> files \<Rightarrow> files \<Rightarrow> bool" where
  "replaced E parse filename url fs fs' \<longleftrightarrow>
     (\<exists>body m. ge_get E url = Inr (body, None) \<and> parse body = Inr m \<and>
        map_of fs' = (map_of fs)(filename \<mapsto> \<lparr>gf_content = body, gf_mtime = ge_now E\<rparr>))"

lemma loadGeo_safe:
  assumes "loadGeo E parse interval cache configured dflt url fs = Ret (r, cache', fs')" "freshTemp E dflt fs"
  shows "(sameFiles fs fs' \<or> cache = None \<and> configured = [] \<and> replaced E parse dflt url fs fs') \<and>
    (\<forall>m. r = Inr m \<longrightarrow> cache' = Some m \<and>
      (cache = Some m \<or> cache = None \<and> loadFile parse fs' (if configured = [] then dflt else configured) = Inr m)) \<and>
    (\<forall>e. r = Inl e \<longrightarrow> cache' = None)"
proof (cases cache)
  case (Some m)
  then show ?thesis using assms(1) by (auto simp: loadGeo_def sameFiles_def)
next
  case None
  let ?name = "if configured = [] then dflt else configured"
  have same: "sameFiles fs fs" for fs
    by (simp add: sameFiles_def)
  have final: "sameFiles fs fs' \<or> cache = None \<and> configured = [] \<and> replaced E parse dflt url fs fs'"
    "(case loadFile parse fs' ?name of Inl e \<Rightarrow> (\<exists>e. r = Inl e) \<and> cache' = None
      | Inr m \<Rightarrow> r = Inr m \<and> cache' = Some m \<or> (\<exists>e. r = Inl e) \<and> cache' = None)"
  proof -
    have dl: "sameFiles fs fs'' \<or> replaced E parse dflt url fs fs''"
      if "downloadAndCheck E parse dflt url fs = (e, fs'')" for e fs''
      using downloadAndCheck_files [OF that assms(2)] by (cases e) (auto simp: sameFiles_def replaced_def)
    show "sameFiles fs fs' \<or> cache = None \<and> configured = [] \<and> replaced E parse dflt url fs fs'"
      using assms(1) None dl same
      by (auto simp: loadGeo_def Let_def
          split: if_splits outcome.splits bool.splits sum.splits prod.splits option.splits)
    show "case loadFile parse fs' ?name of Inl e \<Rightarrow> (\<exists>e. r = Inl e) \<and> cache' = None
      | Inr m \<Rightarrow> r = Inr m \<and> cache' = Some m \<or> (\<exists>e. r = Inl e) \<and> cache' = None"
      using assms(1) None
      by (auto simp: loadGeo_def Let_def
          split: if_splits outcome.splits bool.splits sum.splits prod.splits option.splits)
  qed
  then show ?thesis
    using None by (auto split: sum.splits)
qed

section \<open>Properties\<close>

text \<open>C30: A GeoIP database that loads is the cached one or what the database file holds, and is cached; no
  file but the default database is ever changed, and that one only into a complete download that
  parses.  After an error nothing is cached.\<close>

theorem LoadGeoIP_safe:
  assumes "LoadGeoIP E parse l fs = Ret (r, l', fs')" "freshTemp E ''geoip.dat'' fs"
  shows "(sameFiles fs fs' \<or> gl_geoipMap l = None \<and> gl_GeoIPFilename l = [] \<and>
      replaced E parse ''geoip.dat'' geoipURL fs fs') \<and>
    (\<forall>m. r = Inr m \<longrightarrow> gl_geoipMap l' = Some m \<and>
      (gl_geoipMap l = Some m \<or> gl_geoipMap l = None \<and>
       loadFile parse fs' (if gl_GeoIPFilename l = [] then ''geoip.dat'' else gl_GeoIPFilename l) = Inr m)) \<and>
    (\<forall>e. r = Inl e \<longrightarrow> gl_geoipMap l' = None)"
proof -
  obtain m where "loadGeo E parse (gl_UpdateInterval l) (gl_geoipMap l) (gl_GeoIPFilename l) ''geoip.dat'' geoipURL fs
      = Ret (r, m, fs')" "l' = l\<lparr>gl_geoipMap := m\<rparr>"
    using assms(1) by (auto simp: LoadGeoIP_def split: outcome.splits)
  then show ?thesis
    using loadGeo_safe [OF _ assms(2)] by fastforce
qed

text \<open>An old database that parses is good enough: LoadGeoSite fails only when the file is unusable.\<close>

lemma loadGeo_falls_back:
  assumes "loadGeo E parse interval None [] dflt url fs = Ret (r, cache', fs')" "freshTemp E dflt fs"
    and "loadFile parse fs dflt = Inr m"
  shows "\<exists>m'. r = Inr m'"
proof -
  obtain e fs'' where d: "downloadAndCheck E parse dflt url fs = (e, fs'')"
    by (metis surj_pair)
  obtain m' where m': "loadFile parse fs'' dflt = Inr m'"
    using downloadAndCheck_files [OF d assms(2)] assms(3)
    by (cases e) (auto simp: loadFile_def split: option.splits)
  then have "map_of fs'' dflt \<noteq> None"
    by (auto simp: loadFile_def split: option.splits)
  then have "r = Inr m \<or> r = Inr m'"
    using assms(1,3) d m'
    by (cases "shouldDownload E interval fs dflt"; cases e)
       (auto simp: loadGeo_def split: bool.splits)
  then show ?thesis by blast
qed

text \<open>A stat error on an existing file ends in a panic.\<close>

lemma LoadGeoSite_stat_panics:
  "gl_geositeMap l = None \<Longrightarrow> gl_GeoSiteFilename l = [] \<Longrightarrow> ge_stat E ''geosite.dat'' = Some e \<Longrightarrow>
   LoadGeoSite E parse l fs = Panic"
  by (simp add: LoadGeoSite_def loadGeo_def shouldDownload_def)

section \<open>Witnesses\<close>

definition wit_geo :: geo_env where
  "wit_geo = \<lparr>ge_stat = (\<lambda>f. None), ge_get = (\<lambda>u. Inr (''new'', None)), ge_createTemp = Inr ''t'',
     ge_rename = None, ge_now = 0\<rparr>"

theorem LoadGeoIP_safe_witness:
  "\<exists>l' fs'. LoadGeoIP wit_geo Inr \<lparr>gl_GeoIPFilename = [], gl_GeoSiteFilename = [], gl_UpdateInterval = 0,
      gl_geoipMap = None, gl_geositeMap = (None :: unit option)\<rparr> [] = Ret (Inr ''new'', l', fs') \<and>
    gl_geoipMap l' = Some ''new'' \<and> loadFile Inr fs' ''geoip.dat'' = Inr ''new''"
proof -
  let ?l = "\<lparr>gl_GeoIPFilename = [], gl_GeoSiteFilename = [], gl_UpdateInterval = 0,
      gl_geoipMap = None, gl_geositeMap = (None :: unit option)\<rparr>"
  have r: "LoadGeoIP wit_geo Inr ?l [] = Ret (Inr ''new'', ?l\<lparr>gl_geoipMap := Some ''new''\<rparr>,
      [(''geoip.dat'', \<lparr>gf_content = ''new'', gf_mtime = 0\<rparr>)])"
    by (simp add: LoadGeoIP_def loadGeo_def shouldDownload_def downloadAndCheck_def wit_geo_def loadFile_def
        mstore_def mdelete_def)
  have f: "freshTemp wit_geo ''geoip.dat'' []"
    by (simp add: freshTemp_def wit_geo_def)
  from LoadGeoIP_safe [OF r f] show ?thesis
    using r by (simp add: loadFile_def)
qed

end
