(* ===== verification/Commands.thy ===== *)
theory Commands
  imports Prelude "HOL-Library.State_Monad" "HOL-Library.Word"
begin

text \<open>
  The other commands of the program: cmd/action_linux.go, install_linux.go, common.go, x25519.go,
  synctime.go and version.go, over common/exec, common/crypt/x25519.go and common/systime.

  The operating system is a state the calls of the environment \<open>os_env\<close> act on; the state monad threads
  it, together with the lines printed, through the handlers.  The command-line parser is left out.
\<close>

unbundle bit_operations_syntax

section \<open>The terminal and the system\<close>

text \<open>A call that runs a program gives its combined output and the error, with the mark whether the error
  wraps exec.ErrNotFound.  A read from the terminal may give nothing, which leaves the variable as it is.\<close>

type_synonym bytes = "8 word list"

text \<open>The readings of a time.Time the code takes.\<close>

record goTime =
  gt_Year :: int
  gt_Month :: int
  gt_Day :: int
  gt_Hour :: int
  gt_Minute :: int
  gt_Second :: int
  gt_Unix :: int
  gt_UnixMilli :: int
  gt_UnixNano :: int

record Systemtime =
  st_Year :: "16 word"
  st_Month :: "16 word"
  st_DayOfWeek :: "16 word"
  st_Day :: "16 word"
  st_Hour :: "16 word"
  st_Minute :: "16 word"
  st_Second :: "16 word"
  st_Milliseconds :: "16 word"

datatype goos = Linux | Darwin | Windows | OtherOS

record ('s, 'tv) os_env =
  os_goos :: goos
  os_output :: "string \<Rightarrow> string list \<Rightarrow> ('s, string \<times> (bool \<times> string) option) state"
  os_attached :: "string \<Rightarrow> string list \<Rightarrow> ('s, unit) state"
  os_removeAll :: "string \<Rightarrow> ('s, unit) state"
  os_scan :: "('s, string option) state"
  os_sleep :: "int \<Rightarrow> ('s, unit) state"
  os_rand :: "nat \<Rightarrow> ('s, bytes res) state"
  os_ntpTime :: "string \<Rightarrow> ('s, goTime res) state"
  os_timeval :: "int \<Rightarrow> 'tv"
  os_settimeofday :: "'tv \<Rightarrow> ('s, err) state"
  os_setSystemTime :: "Systemtime \<Rightarrow> ('s, err) state"

record 's console =
  tm_out :: "string list"
  tm_os :: 's

definition say :: "string \<Rightarrow> ('s console, unit) state" where
  "say line = State (\<lambda>t. ((), t\<lparr>tm_out := tm_out t @ [line]\<rparr>))"

definition sys :: "('s, 'a) state \<Rightarrow> ('s console, 'a) state" where
  "sys m = State (\<lambda>t. case run_state m (tm_os t) of (a, s) \<Rightarrow> (a, t\<lparr>tm_os := s\<rparr>))"

abbreviation skip :: "('s, unit) state" where
  "skip \<equiv> State_Monad.return ()"

text \<open>fmt.Scan into a variable that holds \<open>old\<close>.\<close>

definition scan :: "('s, 'tv) os_env \<Rightarrow> string \<Rightarrow> ('s console, string) state" where
  "scan E old = do {
     r \<leftarrow> sys (os_scan E);
     State_Monad.return (case r of None \<Rightarrow> old | Some x \<Rightarrow> x)
   }"

section \<open>common/exec\<close>

definition RunCommandByShell :: "('s, 'tv) os_env \<Rightarrow> string \<Rightarrow> ('s, string \<times> err) state" where
  "RunCommandByShell E cmd = do {
     (out, e) \<leftarrow> os_output E ''bash'' [''-c'', cmd];
     (out, e) \<leftarrow> (case e of
         Some (True, x) \<Rightarrow> os_output E ''sh'' [''-c'', cmd]
       | _ \<Rightarrow> State_Monad.return (out, e));
     State_Monad.return (out, map_option snd e)
   }"

definition RunCommandStd :: "('s, 'tv) os_env \<Rightarrow> string \<Rightarrow> string list \<Rightarrow> ('s, unit) state" where
  "RunCommandStd E name args = os_attached E name args"

section \<open>cmd/common.go\<close>

definition red :: string where
  "red = CHR 0x1B # ''[0;31m''"

definition green :: string where
  "green = CHR 0x1B # ''[0;32m''"

definition yellow :: string where
  "yellow = CHR 0x1B # ''[0;33m''"

definition plain :: string where
  "plain = CHR 0x1B # ''[0m''"

definition checkRunning :: "('s, 'tv) os_env \<Rightarrow> ('s, bool \<times> err) state" where
  "checkRunning E = do {
     (out, e) \<leftarrow> RunCommandByShell E ''systemctl status V2bX | grep Active'';
     State_Monad.return (case e of Some x \<Rightarrow> (False, Some x) | None \<Rightarrow> (contains out ''running'', None))
   }"

text \<open>The arguments, strings and an error at most, are printed one after the other.\<close>

definition Err :: "string list \<Rightarrow> string" where
  "Err msg = red @ concat msg @ plain"

definition Ok :: "string list \<Rightarrow> string" where
  "Ok msg = green @ concat msg @ plain"

definition Warn :: "string list \<Rightarrow> string" where
  "Warn msg = yellow @ concat msg @ plain"

section \<open>Texts\<close>

text \<open>The texts are Chinese, UTF-8 in the source: three bytes for each of these characters.\<close>

definition zh :: "nat list \<Rightarrow> string" where
  "zh cs = concat (map (\<lambda>c. [char_of (224 + c div 4096), char_of (128 + c div 64 mod 64), char_of (128 + c mod 64)]) cs)"

definition startFailed :: string where
  "startFailed =
     ''V2bX'' @ zh [0x542F, 0x52A8, 0x5931, 0x8D25]"

definition alreadyRunning :: string where
  "alreadyRunning =
     ''V2bX'' @ zh [0x5DF2, 0x8FD0, 0x884C, 0xFF0C, 0x65E0, 0x9700, 0x518D, 0x6B21, 0x542F, 0x52A8,
     0xFF0C, 0x5982, 0x9700, 0x91CD, 0x542F, 0x8BF7, 0x9009, 0x62E9, 0x91CD, 0x542F]"

definition mayHaveFailed :: string where
  "mayHaveFailed =
     ''V2bX'' @ zh [0x53EF, 0x80FD, 0x542F, 0x52A8, 0x5931, 0x8D25, 0xFF0C, 0x8BF7, 0x7A0D, 0x540E,
     0x4F7F, 0x7528] @ '' V2bX log '' @ zh [0x67E5, 0x770B, 0x65E5, 0x5FD7, 0x4FE1, 0x606F]"

definition startDone :: string where
  "startDone =
     ''V2bX '' @ zh [0x542F, 0x52A8, 0x6210, 0x529F, 0xFF0C, 0x8BF7, 0x4F7F, 0x7528] @ '' V2bX log '' @
     zh [0x67E5, 0x770B, 0x8FD0, 0x884C, 0x65E5, 0x5FD7]"

definition stopFailed :: string where
  "stopFailed =
     ''V2bX'' @ zh [0x505C, 0x6B62, 0x5931, 0x8D25]"

definition stopSlow :: string where
  "stopSlow =
     ''V2bX'' @ zh [0x505C, 0x6B62, 0x5931, 0x8D25, 0xFF0C, 0x53EF, 0x80FD, 0x662F, 0x56E0, 0x4E3A,
     0x505C, 0x6B62, 0x65F6, 0x95F4, 0x8D85, 0x8FC7, 0x4E86, 0x4E24, 0x79D2, 0xFF0C, 0x8BF7, 0x7A0D,
     0x540E, 0x67E5, 0x770B, 0x65E5, 0x5FD7, 0x4FE1, 0x606F]"

definition stopDone :: string where
  "stopDone =
     ''V2bX '' @ zh [0x505C, 0x6B62, 0x6210, 0x529F]"

definition restartFailed :: string where
  "restartFailed =
     ''V2bX'' @ zh [0x91CD, 0x542F, 0x5931, 0x8D25]"

definition restartDone :: string where
  "restartDone =
     ''V2bX'' @ zh [0x91CD, 0x542F, 0x6210, 0x529F]"

definition uninstallQuestion :: string where
  "uninstallQuestion =
     zh [0x786E, 0x5B9A, 0x8981, 0x5378, 0x8F7D] @ '' V2bX '' @ zh [0x5417] @ ''?(Y/n)''"

definition uninstallCancelled :: string where
  "uninstallCancelled =
     zh [0x5DF2, 0x53D6, 0x6D88, 0x5378, 0x8F7D]"

definition uninstallFailed :: string where
  "uninstallFailed =
     zh [0x5378, 0x8F7D, 0x5931, 0x8D25]"

definition uninstallDone :: string where
  "uninstallDone =
     zh [0x5378, 0x8F7D, 0x6210, 0x529F]"

definition keyQuestion :: string where
  "keyQuestion =
     zh [0x8981, 0x57FA, 0x4E8E, 0x8282, 0x70B9, 0x4FE1, 0x606F, 0x751F, 0x6210, 0x5BC6, 0x94A5, 0x5417]
     @ ''?(Y/n)''"

definition askNodeId :: string where
  "askNodeId =
     zh [0x8BF7, 0x8F93, 0x5165, 0x8282, 0x70B9] @ ''id:''"

definition askNodeType :: string where
  "askNodeType =
     zh [0x8BF7, 0x8F93, 0x5165, 0x8282, 0x70B9, 0x7C7B, 0x578B] @ '':''"

definition askToken :: string where
  "askToken =
     zh [0x8BF7, 0x8F93, 0x5165] @ ''Token:''"

definition syncFailed :: string where
  "syncFailed =
     zh [0x540C, 0x6B65, 0x65F6, 0x95F4, 0x5931, 0x8D25]"

definition syncDone :: string where
  "syncDone =
     zh [0x540C, 0x6B65, 0x65F6, 0x95F4, 0x6210, 0x529F]"

section \<open>cmd/action_linux.go\<close>

definition startHandle :: "('s, 'tv) os_env \<Rightarrow> ('s console, unit) state" where
  "startHandle E = do {
     (r, e) \<leftarrow> sys (checkRunning E);
     (case e of
        Some x \<Rightarrow> do { say (Err [''check status error: '', x]); say (Err [startFailed]) }
      | None \<Rightarrow> do {
          (if r then say (Ok [alreadyRunning]) else skip);
          (out, e) \<leftarrow> sys (RunCommandByShell E ''systemctl start V2bX.service'');
          (case e of
             Some x \<Rightarrow> do { say (Err [''exec start cmd error: '', x]); say (Err [startFailed]) }
           | None \<Rightarrow> do {
               sys (os_sleep E 3000000000);
               (r, e) \<leftarrow> sys (checkRunning E);
               (case e of
                  Some x \<Rightarrow> do { say (Err [''check status error: '', x]); say (Err [startFailed]) }
                | None \<Rightarrow> skip);
               (if \<not> r then say (Err [mayHaveFailed]) else say (Ok [startDone]))
             })
        })
   }"

definition stopHandle :: "('s, 'tv) os_env \<Rightarrow> ('s console, unit) state" where
  "stopHandle E = do {
     (out, e) \<leftarrow> sys (RunCommandByShell E ''systemctl stop V2bX.service'');
     (case e of
        Some x \<Rightarrow> do { say (Err [''exec stop cmd error: '', x]); say (Err [stopFailed]) }
      | None \<Rightarrow> do {
          sys (os_sleep E 2000000000);
          (r, e) \<leftarrow> sys (checkRunning E);
          (case e of
             Some x \<Rightarrow> do { say (Err [''check status error:'', x]); say (Err [stopFailed]) }
           | None \<Rightarrow> (if r then say (Err [stopSlow]) else say (Ok [stopDone])))
        })
   }"

definition restartHandle :: "('s, 'tv) os_env \<Rightarrow> ('s console, unit) state" where
  "restartHandle E = do {
     (out, e) \<leftarrow> sys (RunCommandByShell E ''systemctl restart V2bX.service'');
     (case e of
        Some x \<Rightarrow> do { say (Err [''exec restart cmd error: '', x]); say (Err [restartFailed]) }
      | None \<Rightarrow> do {
          (r, e) \<leftarrow> sys (checkRunning E);
          (case e of
             Some x \<Rightarrow> do { say (Err [''check status error: '', x]); say (Err [restartFailed]) }
           | None \<Rightarrow> (if \<not> r then say (Err [mayHaveFailed]) else say (Ok [restartDone])))
        })
   }"

definition logCommand :: "('s, 'tv) os_env \<Rightarrow> ('s console, unit) state" where
  "logCommand E = sys (RunCommandStd E ''journalctl'' [''-u'', ''V2bX.service'', ''-e'', ''--no-pager'', ''-f''])"

section \<open>cmd/install_linux.go\<close>

text \<open>The first argument is handed to bash as it stands, so that bash takes it for the name of a file.\<close>

definition updateCommand :: "('s, 'tv) os_env \<Rightarrow> string \<Rightarrow> ('s console, unit) state" where
  "updateCommand E targetVersion = sys (RunCommandStd E ''bash''
     [''<(curl -Ls https://raw.githubusercontent.com/cucklerviale339/ccaa/april-2026-base/install.sh)'', targetVersion])"

definition uninstallHandle :: "('s, 'tv) os_env \<Rightarrow> ('s console, unit) state" where
  "uninstallHandle E = do {
     say (Warn [uninstallQuestion]);
     yes \<leftarrow> scan E [];
     (if to_lower yes \<noteq> ''y'' then say uninstallCancelled else skip);
     (out, e) \<leftarrow> sys (RunCommandByShell E ''systemctl stop V2bX&&systemctl disable V2bX'');
     (case e of
        Some x \<Rightarrow> do { say (Err [''exec cmd error: '', x]); say (Err [uninstallFailed]) }
      | None \<Rightarrow> do {
          sys (os_removeAll E ''/etc/systemd/system/V2bX.service'');
          sys (os_removeAll E ''/etc/V2bX/'');
          sys (os_removeAll E ''/usr/local/V2bX/'');
          sys (os_removeAll E ''/bin/V2bX'');
          (out, e) \<leftarrow> sys (RunCommandByShell E ''systemctl daemon-reload&&systemctl reset-failed'');
          (case e of
             Some x \<Rightarrow> do { say (Err [''exec cmd error: '', x]); say (Err [uninstallFailed]) }
           | None \<Rightarrow> say (Ok [uninstallDone]))
        })
   }"

section \<open>cmd/x25519.go and common/crypt/x25519.go\<close>

text \<open>SHA-256 and the multiplication of the base point are parameters.\<close>

record curve_env =
  cv_sha256 :: "string \<Rightarrow> bytes"
  cv_basepoint :: "bytes \<Rightarrow> bytes res"

definition GenX25519Private :: "(string \<Rightarrow> bytes) \<Rightarrow> string \<Rightarrow> bytes" where
  "GenX25519Private sha256 data =
     (let key = sha256 data;
          key = key[0 := key ! 0 AND 248];
          key = key[31 := key ! 31 AND 127];
          key = key[31 := key ! 31 OR 64] in
      take 32 key)"

text \<open>base64.RawURLEncoding: the other two characters, and no padding.\<close>

definition rawURLencode :: "bytes \<Rightarrow> string" where
  "rawURLencode bs =
     map (\<lambda>c. if c = CHR ''+'' then CHR ''-'' else if c = CHR ''/'' then CHR ''_'' else c)
       (filter (\<lambda>c. c \<noteq> CHR ''='') (b64encode (map (\<lambda>b. char_of (unat b)) bs)))"

definition executeX25519 :: "('s, 'tv) os_env \<Rightarrow> curve_env \<Rightarrow> ('s console, unit) state" where
  "executeX25519 E C = do {
     say keyQuestion;
     yes \<leftarrow> scan E [];
     privateKey \<leftarrow>
       (if to_lower yes = ''y'' then do {
          say askNodeId;
          temp \<leftarrow> scan E [];
          let key = temp;
          say askNodeType;
          temp \<leftarrow> scan E temp;
          let key = key @ to_lower temp;
          say askToken;
          temp \<leftarrow> scan E temp;
          let key = key @ temp;
          State_Monad.return (Inr (GenX25519Private (cv_sha256 C) key))
        }
        else sys (os_rand E 32));
     say (case privateKey of
        Inl e \<Rightarrow> Err [''read rand error: '', e]
      | Inr privateKey \<Rightarrow> (case cv_basepoint C privateKey of
          Inl e \<Rightarrow> Err [''gen X25519 error: '', e]
        | Inr publicKey \<Rightarrow>
            ''Private key: '' @ rawURLencode privateKey @ CHR 0x0A # ''Public key: '' @ rawURLencode publicKey))
   }"

section \<open>cmd/synctime.go and common/systime\<close>

text \<open>The three files of common/systime, of which the build takes the one for its system.  A call through
  the Windows DLL always gives an error, whose text says whether it is one.\<close>

definition systemtimeOf :: "goTime \<Rightarrow> Systemtime" where
  "systemtimeOf t = \<lparr>st_Year = word_of_int (gt_Year t), st_Month = word_of_int (gt_Month t), st_DayOfWeek = 0,
     st_Day = word_of_int (gt_Day t), st_Hour = word_of_int (gt_Hour t), st_Minute = word_of_int (gt_Minute t),
     st_Second = word_of_int (gt_Second t),
     st_Milliseconds = word_of_int (gt_UnixMilli t - gt_Unix t * 1000)\<rparr>"

definition SetSystemTime_windows :: "('s, 'tv) os_env \<Rightarrow> goTime \<Rightarrow> ('s, err) state" where
  "SetSystemTime_windows E t = do {
     e \<leftarrow> os_setSystemTime E (systemtimeOf t);
     State_Monad.return (case e of
        Some x \<Rightarrow> (if x \<noteq> ''The operation completed successfully.'' then Some x else None)
      | None \<Rightarrow> None)
   }"

definition SetSystemTime_unix :: "('s, 'tv) os_env \<Rightarrow> goTime \<Rightarrow> ('s, err) state" where
  "SetSystemTime_unix E t = os_settimeofday E (os_timeval E (gt_UnixNano t))"

definition SetSystemTime_stub :: "goTime \<Rightarrow> ('s, err) state" where
  "SetSystemTime_stub t = State_Monad.return (Some ''invalid argument'')"

definition SetSystemTime :: "('s, 'tv) os_env \<Rightarrow> goTime \<Rightarrow> ('s, err) state" where
  "SetSystemTime E t =
     (case os_goos E of
        Windows \<Rightarrow> SetSystemTime_windows E t
      | OtherOS \<Rightarrow> SetSystemTime_stub t
      | _ \<Rightarrow> SetSystemTime_unix E t)"

definition synctimeHandle :: "('s, 'tv) os_env \<Rightarrow> string \<Rightarrow> ('s console, unit) state" where
  "synctimeHandle E ntpServer = do {
     r \<leftarrow> sys (os_ntpTime E ntpServer);
     (case r of
        Inl x \<Rightarrow> do { say (Err [''get time from server error: '', x]); say (Err [syncFailed]) }
      | Inr t \<Rightarrow> do {
          e \<leftarrow> sys (SetSystemTime E t);
          (case e of
             Some x \<Rightarrow> do { say (Err [''set system time error: '', x]); say (Err [syncFailed]) }
           | None \<Rightarrow> say (Ok [syncDone]))
        })
   }"

section \<open>cmd/version.go\<close>

definition banner :: string where
  "banner = concat (map (\<lambda>l. l @ [CHR 0x0A])
     ['' '', ''  _/      _/    _/_/    _/        _/      _/   '', '' _/      _/  _/    _/  _/_/_/      _/  _/      '',
      ''_/      _/      _/    _/    _/      _/         '', '' _/  _/      _/      _/    _/    _/  _/        '',
      ''  _/      _/_/_/_/  _/_/_/    _/      _/        '']) @ ''                                                ''"

text \<open>The version is set at link time; the second line ends in a space.\<close>

definition showVersion :: "string \<Rightarrow> ('s console, unit) state" where
  "showVersion version = do {
     say banner;
     say (''V2bX '' @ version @ '' (V2bX) '')
   }"

section \<open>Lemmas\<close>

lemma run_say [simp]: "run_state (say l) t = ((), t\<lparr>tm_out := tm_out t @ [l]\<rparr>)"
  by (simp add: say_def)

lemma run_sys [simp]: "run_state (sys m) t = (case run_state m (tm_os t) of (a, s) \<Rightarrow> (a, t\<lparr>tm_os := s\<rparr>))"
  by (simp add: sys_def)

lemma run_scan [simp]:
  "run_state (scan E old) t =
   (case run_state (os_scan E) (tm_os t) of (r, s) \<Rightarrow> (case r of None \<Rightarrow> old | Some x \<Rightarrow> x, t\<lparr>tm_os := s\<rparr>))"
  by (simp add: scan_def split: prod.split)


lemma colours_differ [simp]: "Ok a \<noteq> Err b" "Err a \<noteq> Ok b" "Warn a \<noteq> Ok b" "Ok a \<noteq> Warn b"
  by (simp_all add: Ok_def Err_def Warn_def red_def green_def yellow_def)

lemma Ok_inject [simp]: "Ok [a] = Ok [b] \<longleftrightarrow> a = b"
  by (simp add: Ok_def)

lemma texts_differ [simp]: "alreadyRunning \<noteq> startDone" "startDone \<noteq> alreadyRunning"
  by (simp_all add: alreadyRunning_def startDone_def zh_def)

lemma checkRunning_no_error:
  "run_state (checkRunning E) s = ((True, e), s') \<Longrightarrow> e = None"
  by (auto simp: checkRunning_def split: prod.split_asm option.split_asm)

section \<open>What the commands do\<close>

text \<open>Start reports success exactly when the state of the service could be asked, starting it gave no error,
  and it was running three seconds later.  That it was running already does not keep it from being
  started again.\<close>

lemma startHandle_success:
  assumes "tm_out t = []"
  shows "Ok [startDone] \<in> set (tm_out (snd (run_state (startHandle E) t))) \<longleftrightarrow>
    (\<exists>r s1 out s2 s3 s4.
       run_state (checkRunning E) (tm_os t) = ((r, None), s1) \<and>
       run_state (RunCommandByShell E ''systemctl start V2bX.service'') s1 = ((out, None), s2) \<and>
       run_state (os_sleep E 3000000000) s2 = ((), s3) \<and>
       run_state (checkRunning E) s3 = ((True, None), s4))"
  using assms
  by (auto simp: startHandle_def dest: checkRunning_no_error split: prod.splits option.splits)

text \<open>Stop and restart report success exactly when the command gave no error and the service then is in
  the state asked for.\<close>

lemma stopHandle_success:
  assumes "tm_out t = []"
  shows "Ok [stopDone] \<in> set (tm_out (snd (run_state (stopHandle E) t))) \<longleftrightarrow>
    (\<exists>out s1 s2 s3.
       run_state (RunCommandByShell E ''systemctl stop V2bX.service'') (tm_os t) = ((out, None), s1) \<and>
       run_state (os_sleep E 2000000000) s1 = ((), s2) \<and>
       run_state (checkRunning E) s2 = ((False, None), s3))"
  using assms
  by (auto simp: stopHandle_def split: prod.splits option.splits)

lemma restartHandle_success:
  assumes "tm_out t = []"
  shows "Ok [restartDone] \<in> set (tm_out (snd (run_state (restartHandle E) t))) \<longleftrightarrow>
    (\<exists>out s1 s2.
       run_state (RunCommandByShell E ''systemctl restart V2bX.service'') (tm_os t) = ((out, None), s1) \<and>
       run_state (checkRunning E) s1 = ((True, None), s2))"
  using assms
  by (auto simp: restartHandle_def split: prod.splits option.splits)

text \<open>Whatever is answered to the question, uninstall does the same to the system: the answer only decides
  whether it says that it was cancelled.\<close>

lemma uninstall_ignores_answer:
  assumes "run_state (os_scan E) (tm_os t) = (a, s)" "run_state m (tm_os t) = (b, s)"
  shows "tm_os (snd (run_state (uninstallHandle (E\<lparr>os_scan := m\<rparr>)) t)) = tm_os (snd (run_state (uninstallHandle E) t))"
proof -
  have shell: "RunCommandByShell (E\<lparr>os_scan := m\<rparr>) = RunCommandByShell E"
    by (simp add: RunCommandByShell_def fun_eq_iff cong: option.case_cong prod.case_cong bool.case_cong)
  show ?thesis
    using assms unfolding uninstallHandle_def shell
    by (simp split: prod.split option.split)
qed

text \<open>Each byte of a private key is clamped as X25519 wants it, and as a number in little-endian order the
  key is a multiple of eight between 2 to the 254 and 2 to the 255.\<close>

definition littleEndian :: "bytes \<Rightarrow> nat" where
  "littleEndian bs = foldr (\<lambda>b n. unat b + 256 * n) bs 0"

lemma littleEndian_simps [simp]:
  "littleEndian [] = 0" "littleEndian (b # bs) = unat b + 256 * littleEndian bs"
  by (simp_all add: littleEndian_def)

lemma littleEndian_append: "littleEndian (xs @ ys) = littleEndian xs + 256 ^ length xs * littleEndian ys"
  by (induction xs) (simp_all add: algebra_simps)

lemma unat_byte: "unat (b :: 8 word) < 256"
  using unsigned_less [of b] by simp

lemma littleEndian_bound: "littleEndian bs < 256 ^ length bs"
proof (induction bs)
  case (Cons b bs)
  then show ?case
    using unat_byte [of b] by simp
qed simp

lemma clamp_low: "8 dvd unat ((b :: 8 word) AND 248)"
proof -
  have "take_bit 3 (b AND 248) = 0"
    by (simp add: take_bit_and)
  then have "take_bit 3 (unat (b AND 248)) = 0"
    by (metis unat_0 unsigned_take_bit_eq)
  then show ?thesis
    by (simp add: take_bit_eq_mod dvd_eq_mod_eq_0)
qed

lemma clamp_high: "64 \<le> unat ((b :: 8 word) AND 127 OR 64)" "unat ((b :: 8 word) AND 127 OR 64) < 128"
proof -
  let ?x = "b AND 127 OR 64"
  have "bit ?x 6"
    by (simp add: bit_simps)
  then have "bit (unat ?x) 6"
    by (simp add: bit_unsigned_iff)
  then show "64 \<le> unat ?x"
    by (simp add: bit_iff_odd) (metis div_less even_zero linorder_not_less)
  have "b AND 127 = take_bit 7 b"
    by (simp add: take_bit_eq_mask mask_eq_exp_minus_1)
  then have "take_bit 7 ?x = ?x"
    by (simp add: take_bit_or)
  then have "unat ?x = take_bit 7 (unat ?x)"
    by (metis unsigned_take_bit_eq)
  also have "\<dots> < 2 ^ 7"
    by (rule take_bit_nat_less_exp)
  finally show "unat ?x < 128"
    by simp
qed

lemma X25519_clamped:
  assumes "length (sha256 data) = 32"
  shows "length (GenX25519Private sha256 data) = 32 \<and> 8 dvd littleEndian (GenX25519Private sha256 data) \<and>
    2 ^ 254 \<le> littleEndian (GenX25519Private sha256 data) \<and> littleEndian (GenX25519Private sha256 data) < 2 ^ 255"
proof -
  from assms obtain b bs where b: "sha256 data = b # bs" "length bs = 31"
    by (cases "sha256 data") auto
  then obtain cs z where c: "bs = cs @ [z]" "length cs = 30"
    by (cases bs rule: rev_cases) auto
  have key: "GenX25519Private sha256 data = (b AND 248) # cs @ [z AND 127 OR 64]"
    using b c by (simp add: GenX25519Private_def nth_append list_update_append)
  have "8 dvd (256 :: nat) * x" for x
    by (simp add: dvd_mult2)
  then have "8 dvd littleEndian (GenX25519Private sha256 data)"
    unfolding key using clamp_low by (simp del: mult.assoc add: dvd_add)
  moreover have "littleEndian cs < 256 ^ 30" "unat (b AND 248) < 256"
    using littleEndian_bound [of cs] c unat_byte by simp_all
  ultimately show ?thesis
    using clamp_high [of z] c unfolding key by (simp add: littleEndian_append)
qed

end
