(* ===== verification/Spec2Isabelle.thy ===== *)
theory Spec2Isabelle
  imports Server_Sync Geo_Loader Commands
begin

text \<open>
  V2bX, a node agent for proxy panels, in Isabelle/HOL.

  The program polls a panel for the configuration and the users of each of its nodes, runs the nodes
  on one of several proxy cores, admits, limits and counts the connections of the users, and reports
  traffic and online addresses back to the panel.

  \<^bold>\<open>Theories and the code they model\<close> (paths under src/):

    \<^item> \<open>Prelude\<close>: Go's integers, strings and maps; results and errors; the interface \<open>key_store\<close> of a map.
    \<^item> \<open>User_Tag\<close>: common/format/user.go, the key of a user on a node.
    \<^item> \<open>Limiter\<close>: limiter/, admission by device count, speed limits, the online report, audit rules.
    \<^item> \<open>Counter\<close>: common/counter/ and the collection of core/xray/user.go: traffic accounting; its
      contract is the locale \<open>traffic_meter\<close>.
    \<^item> \<open>Periodic_Task\<close>: common/task/task.go, the goroutines of a periodic task as a step relation.
    \<^item> \<open>Json5\<close>: common/json5/json5.go, the comment stripper.
    \<^item> \<open>Conf\<close>: conf/, the configuration records, their JSON decoders, defaults and the file watcher.
    \<^item> \<open>Panel\<close>: api/panel/, the panel client: polling with caches, decoding nodes and users, reports.
    \<^item> \<open>User_Sync\<close>: compareUserList of node/user.go and the contract \<open>core_users\<close> of the user operations
      of core/interface.go, under which sending the difference of two lists is enough.
    \<^item> \<open>Xray_Build\<close>: the builders of core/xray (vmess.go, trojan.go, ss.go, inbound.go, outbound.go).
    \<^item> \<open>Sniffing\<close>: core/xray/app/dispatcher/sniffer.go, fakednssniffer.go and the sniffing part of
      default.go.
    \<^item> \<open>Dispatcher\<close>: the dispatcher of core/xray/app/dispatcher/default.go with linkmanager.go and
      common/rate: links, admission, audit, routing.
    \<^item> \<open>Xray\<close>: core/xray/user.go, node.go, dns.go and the life cycle of xray.go.
    \<^item> \<open>Core_Selector\<close>: core/interface.go, core.go, selector.go: a core as a table of methods, the registry
      of constructors, and the selector that places nodes on cores; its contract is the locale \<open>core_table\<close>.
    \<^item> \<open>Sing\<close>, \<open>Sing_Build\<close>: core/sing, users, traffic and the connection hook; the inbounds of nodes.
    \<^item> \<open>Hy2_Config\<close>, \<open>Geo_Loader\<close>, \<open>Hy2\<close>: core/hy2, the configuration of a node, the geo databases, and users,
      authentication and traffic.
    \<^item> \<open>Cores\<close>: the three cores as tables of methods, and the selector over any of them.
    \<^item> \<open>Core_New\<close>: the constructors, getCore and New of core/xray/xray.go and New of core/sing/sing.go.
    \<^item> \<open>Cert\<close>: node/cert.go, node/lego.go, common/file: which certificate operation is made, the files
      and accounts.
    \<^item> \<open>Controller\<close>: node/controller.go, task.go, user.go, node.go: start, stop, the poll and the reports of
      a node.  \<open>Controller_Sync\<close>: what a start and a poll guarantee.
    \<^item> \<open>Server\<close>: serverHandle of cmd/server.go and its reload.  \<open>Server_Sync\<close>: the states a server can come to.
    \<^item> \<open>Commands\<close>: the other commands of cmd/, with common/exec, common/crypt/x25519.go and common/systime.

  A server owns a core, or a selector over several, and one controller per node.  A controller polls its
  client of the panel, gives the users it learns to the core and to the limiter registered under its
  tag, and reports what the core counted.  The hooks and the dispatcher of the cores look the limiter
  up by the tag of the inbound for each connection.  The watcher of the configuration makes the
  server close all of this and start it anew.

  \<^bold>\<open>How the code is modelled\<close>.  A struct is a record with the fields in the code's order, a function or
  method a definition of the same name that takes and returns the state it mutates.  An error is a
  value of a sum or option type, a panic the value \<open>Panic\<close> of the type \<open>outcome\<close>.  Go's int and int64 are
  integers with \<open>wrap64\<close> where the code adds; maps and sync.Maps are association lists, so that the
  order of a range loop is the order of an arbitrary list.  Clock readings, file contents, HTTP
  responses, JSON decoding into structs, regular expressions, token buckets and the proxy cores'
  own libraries are arguments; what is closed and interrupted of their links is logged.  Limiters and traffic storages, which several parts share, are cells of
  a store.  Locks are not modelled: each operation is one step, except in \<open>Periodic_Task\<close>, whose subject
  is the interleaving.  What is only logged is left out, or is the error a step returns.

  \<^bold>\<open>Interfaces\<close>.  \<open>key_store\<close> (a map), \<open>traffic_meter\<close> (the counters a core reports from), \<open>core_users\<close> (what
  adding and deleting users promise) and \<open>core_table\<close> (the same of a table of methods) are locales, each
  interpreted on the models: the counters, the three cores, the selector and the core variable of the
  server.  Lemmas about the controller hold for every core by these interpretations.

  \<^bold>\<open>What is shown\<close>.  The properties are the numbered theorems of the theories, each with a witness at a
  concrete input where it has hypotheses:

    \<^item> the life of a node: a start serves exactly the panel's list and a poll takes it to the next one
      (\<open>Controller_Sync\<close>, \<open>Cores\<close>, \<open>User_Sync\<close>); a reload serves the new configuration and nothing else, and in
      every state a server can come to a registered limiter belongs to a running node (\<open>Server_Sync\<close>);
    \<^item> admission and its bookkeeping (\<open>Limiter\<close>), the rules and the accounting of each routed connection,
      and that removed users are cut off (\<open>Dispatcher\<close>, \<open>Xray\<close>, \<open>Sing\<close>, \<open>Hy2\<close>);
    \<^item> conservation of traffic (\<open>Counter\<close>) and what is reported of it (\<open>Controller_Sync\<close>);
    \<^item> the caches and decoders of the panel client (\<open>Panel\<close>), the comment stripper (\<open>Json5\<close>), the configuration
      and its watcher (\<open>Conf\<close>), certificates (\<open>Cert\<close>), the databases (\<open>Geo_Loader\<close>), the inbounds (\<open>Xray_Build\<close>),
      where nodes are placed (\<open>Core_Selector\<close>);
    \<^item> the invariant and the ways of ending of a task (\<open>Periodic_Task\<close>), the sniffing loop (\<open>Sniffing\<close>);
    \<^item> where the code falls short of what it means to do, a theorem that says how.

  What is shown of the server's life assumes of the JSON library (theory \<open>Server\<close>): whether options decode
  depends on the text alone, a text sets the name of a node or leaves it alone, and the empty text fails
  (\<open>options_law\<close>); a configuration that decodes without error has only nodes that did (\<open>conf_law\<close>).  With
  these, decoding the options of a node a second time, as the selector does, finds the same name; a limiter
  of a node whose name changed there would be filed under another tag than the one it is removed by.  Only
  a node that failed to decode half way may carry raw options of another origin, so a reload that goes on
  after a failed decoding is required not to come with one (\<open>soundLoad\<close>).

  \<^bold>\<open>Termination\<close>.  All loops are total functions; the byte loops of \<open>Json5\<close> and the token loop of \<open>Panel\<close>
  have their measures, the sniffing loop runs over the list of attempts the environment offers and is
  shown to look at two at most.  There is no fuel: loops that run forever, of tasks and of the server,
  are step relations with their reachable states.

  \<^bold>\<open>Not modelled\<close>.  The command-line parser (main.go, cmd/cmd.go), generated protobuf code and blank
  imports, common/crypt/aes.go, which nothing calls, the settings of the log, and the loops inside
  the libraries of the cores that serve connections.
\<close>

end
